(* ===== verification/Prelude.thy ===== *)
theory Prelude
  imports Main "HOL-Library.Sublist"
begin

text \<open>
  Shared vocabulary of the development: strings of the runtime as lists of UTF-16 code
  units with the operations of \<^verbatim>\<open>String.prototype\<close> the sources call, the string
  primitives of the Lua scripts, results with an error side, and the generic list lemmas
  the components share.

  A JavaScript string is a \<open>jstr\<close>, the list of its UTF-16 code units. Redis and Lua hold
  the UTF-8 bytes of the same strings; UTF-8 is injective and encodes NUL and the other ASCII
  separators as themselves, so equality and splitting at an ASCII separator agree on both
  sides, and the model keeps the code units throughout.
\<close>

named_theorems js_simps \<open>unfolding rules that evaluate string operations\<close>

type_synonym jstr = "nat list"
type_synonym ('e, 'a) result = "'e + 'a"

abbreviation Err :: "'e \<Rightarrow> ('e, 'a) result" where "Err \<equiv> Inl"
abbreviation Ok :: "'a \<Rightarrow> ('e, 'a) result" where "Ok \<equiv> Inr"

definition js :: "string \<Rightarrow> jstr" where
  "js s = map of_char s"

lemma js_append: "js (a @ b) = js a @ js b"
  by (simp add: js_def)

lemma length_js [simp]: "length (js s) = length s"
  by (simp add: js_def)

lemma js_eq_Nil [simp]: "js s = [] \<longleftrightarrow> s = []"
  by (simp add: js_def)

lemma js_inject [simp]: "js a = js b \<longleftrightarrow> a = b"
proof
  assume "js a = js b"
  then show "a = b"
    unfolding js_def by (rule map_injective) (simp add: inj_on_def)
qed simp


section \<open>JavaScript string operations\<close>

definition startsWith :: "'a list \<Rightarrow> 'a list \<Rightarrow> bool" where
  "startsWith s p \<longleftrightarrow> take (length p) s = p"

definition endsWith :: "'a list \<Rightarrow> 'a list \<Rightarrow> bool" where
  "endsWith s p \<longleftrightarrow> length p \<le> length s \<and> drop (length s - length p) s = p"

text \<open>\<^verbatim>\<open>s.slice(i, j)\<close> for non-negative offsets, and \<^verbatim>\<open>s.slice(i)\<close>.\<close>

definition slice :: "'a list \<Rightarrow> nat \<Rightarrow> nat \<Rightarrow> 'a list" where
  "slice s i j = drop i (take j s)"

definition sliceFrom :: "'a list \<Rightarrow> nat \<Rightarrow> 'a list" where
  "sliceFrom s i = drop i s"

text \<open>\<^verbatim>\<open>s.lastIndexOf(c)\<close> for a one-unit needle; \<open>-1\<close> when it is absent.\<close>

definition lastIndexOf :: "'a list \<Rightarrow> 'a \<Rightarrow> int" where
  "lastIndexOf s c =
     (if c \<in> set s then int (length s) - 1 - int (length (takeWhile (\<lambda>x. x \<noteq> c) (rev s))) else -1)"

text \<open>\<^verbatim>\<open>s.split(sep)\<close> for a one-unit separator: never empty.\<close>

fun split_on :: "'a \<Rightarrow> 'a list \<Rightarrow> 'a list list" where
  "split_on c [] = [[]]"
| "split_on c (x # xs) =
     (if x = c then [] # split_on c xs
      else (case split_on c xs of [] \<Rightarrow> [[x]] | y # ys \<Rightarrow> (x # y) # ys))"

text \<open>\<^verbatim>\<open>parts.join(sep)\<close>.\<close>

fun join_with :: "'a list \<Rightarrow> 'a list list \<Rightarrow> 'a list" where
  "join_with sep [] = []"
| "join_with sep [x] = x"
| "join_with sep (x # y # ys) = x @ sep @ join_with sep (y # ys)"

text \<open>Lua's \<^verbatim>\<open>string.find(s, c, from, true)\<close>: one-based, from a one-based cursor.\<close>

definition lua_find :: "'a list \<Rightarrow> 'a \<Rightarrow> nat \<Rightarrow> nat option" where
  "lua_find s c from =
     (let rest = drop (from - 1) s; i = length (takeWhile (\<lambda>x. x \<noteq> c) rest)
      in if i < length rest then Some (from + i) else None)"

text \<open>Lua's \<^verbatim>\<open>string.sub(s, i, j)\<close> for one-based \<open>1 \<le> i\<close>.\<close>

definition lua_sub :: "'a list \<Rightarrow> nat \<Rightarrow> nat \<Rightarrow> 'a list" where
  "lua_sub s i j = drop (i - 1) (take j s)"


section \<open>Lemmas on the string operations\<close>

lemma startsWith_iff_prefix: "startsWith s p \<longleftrightarrow> prefix p s"
  unfolding startsWith_def by (metis append_eq_conv_conj prefix_def take_is_prefix)

lemma startsWith_append [simp]: "startsWith (p @ s) p"
  by (simp add: startsWith_def)

lemma startsWithE:
  assumes "startsWith s p" obtains r where "s = p @ r"
  using assms by (auto simp: startsWith_iff_prefix prefix_def)

lemma lastIndexOf_append_notin:
  assumes "c \<notin> set b"
  shows "lastIndexOf (a @ c # b) c = int (length a)"
proof -
  have "takeWhile (\<lambda>x. x \<noteq> c) (rev (a @ c # b)) = rev b"
    using assms by (auto simp: takeWhile_append)
  then show ?thesis by (simp add: lastIndexOf_def)
qed

lemma lastIndexOf_absent [simp]: "c \<notin> set s \<Longrightarrow> lastIndexOf s c = -1"
  by (simp add: lastIndexOf_def)

lemma split_last_occurrence:
  assumes "c \<in> set s"
  obtains a b where "s = a @ c # b" "c \<notin> set b"
  using split_list_last [OF assms] by blast

lemma slice_append_left [simp]: "slice (a @ b @ r) (length a) (length a + length b) = b"
  by (simp add: slice_def)

lemma split_on_nonempty [simp]: "split_on c s \<noteq> []"
  by (induction s) (auto split: list.splits)

lemma split_on_no_sep: "p \<in> set (split_on c s) \<Longrightarrow> c \<notin> set p"
  by (induction s arbitrary: p) (auto split: list.splits if_splits)

lemma join_split: "join_with [c] (split_on c s) = s"
proof (induction s)
  case Nil
  then show ?case by simp
next
  case (Cons x s)
  obtain y ys where sp: "split_on c s = y # ys"
    by (cases "split_on c s") auto
  from Cons.IH sp show ?case
    by (cases ys) auto
qed

lemma split_on_notin: "c \<notin> set s \<Longrightarrow> split_on c s = [s]"
  by (induction s) auto

lemma split_on_append_sep:
  "c \<notin> set a \<Longrightarrow> split_on c (a @ c # b) = a # split_on c b"
  by (induction a) auto

lemma split_join:
  "ps \<noteq> [] \<Longrightarrow> \<forall>p \<in> set ps. c \<notin> set p \<Longrightarrow> split_on c (join_with [c] ps) = ps"
proof (induction "[c]" ps rule: join_with.induct)
  case (3 x y ys)
  then show ?case by (simp add: split_on_append_sep)
qed (auto simp: split_on_notin)

lemma lua_find_bounds:
  assumes "lua_find s c from = Some i" "1 \<le> from"
  shows "from \<le> i" "i \<le> length s"
  using assms by (auto simp: lua_find_def Let_def split: if_splits)

lemma lua_find_nth:
  assumes "lua_find s c from = Some i" "1 \<le> from"
  shows "s ! (i - 1) = c"
proof -
  let ?r = "drop (from - 1) s"
  let ?k = "length (takeWhile (\<lambda>x. x \<noteq> c) ?r)"
  from assms have k: "?k < length ?r" and i: "i = from + ?k"
    by (auto simp: lua_find_def Let_def split: if_splits)
  from nth_length_takeWhile [OF k] have "?r ! ?k = c" by simp
  moreover have "?r ! ?k = s ! (i - 1)"
    using k i assms(2) by (simp add: nth_drop)
  ultimately show ?thesis by simp
qed

lemma lua_find_None_iff:
  "lua_find s c from = None \<longleftrightarrow> c \<notin> set (drop (from - 1) s)"
proof
  assume "lua_find s c from = None"
  then have "\<not> length (takeWhile (\<lambda>x. x \<noteq> c) (drop (from - 1) s)) < length (drop (from - 1) s)"
    by (auto simp: lua_find_def Let_def split: if_splits)
  then have "length (takeWhile (\<lambda>x. x \<noteq> c) (drop (from - 1) s)) = length (drop (from - 1) s)"
    using length_takeWhile_le [of "\<lambda>x. x \<noteq> c" "drop (from - 1) s"] by linarith
  then have "takeWhile (\<lambda>x. x \<noteq> c) (drop (from - 1) s) = drop (from - 1) s"
    by (metis takeWhile_eq_take take_all_iff order_refl)
  then show "c \<notin> set (drop (from - 1) s)"
    by (metis (mono_tags, lifting) takeWhile_eq_all_conv)
next
  assume "c \<notin> set (drop (from - 1) s)"
  then have "takeWhile (\<lambda>x. x \<noteq> c) (drop (from - 1) s) = drop (from - 1) s"
    by (simp only: takeWhile_eq_all_conv) blast
  then show "lua_find s c from = None"
    by (simp only: lua_find_def Let_def) simp
qed

section \<open>Transition systems\<close>

text \<open>The components that several replicas drive are step relations. An invariant is proved once per
  step; a fact is stable when every step from a state with the invariant keeps it.\<close>

locale invariant_system =
  fixes step :: "'s \<Rightarrow> 's \<Rightarrow> bool" and inv :: "'s \<Rightarrow> bool"
  assumes step_inv: "inv s \<Longrightarrow> step s s' \<Longrightarrow> inv s'"
begin

lemma reachable_inv: "step\<^sup>*\<^sup>* s s' \<Longrightarrow> inv s \<Longrightarrow> inv s'"
  by (induction rule: rtranclp_induct) (auto intro: step_inv)

end

locale stable_fact = invariant_system +
  fixes fact :: "'a \<Rightarrow> bool"
  assumes step_fact: "inv s \<Longrightarrow> fact s \<Longrightarrow> step s s' \<Longrightarrow> fact s'"
begin

lemma stays: "step\<^sup>*\<^sup>* s s' \<Longrightarrow> inv s \<Longrightarrow> fact s \<Longrightarrow> fact s'"
proof (induction rule: rtranclp_induct)
  case (step t u)
  then show ?case using reachable_inv step_fact by blast
qed

end

declare startsWith_def [js_simps] endsWith_def [js_simps] slice_def [js_simps]
  sliceFrom_def [js_simps] lastIndexOf_def [js_simps] lua_find_def [js_simps]
  lua_sub_def [js_simps] js_def [js_simps]

end
