(* ===== verification/Json.thy ===== *)
theory Json
  imports Prelude
begin

text \<open>
  Values that crossed a JSON boundary (request bodies, stored records, worker results), and the
  JavaScript operations the sources apply to them: property access, \<^verbatim>\<open>typeof\<close> tests,
  \<^verbatim>\<open>Object.keys\<close>, \<^verbatim>\<open>Number.isSafeInteger\<close>, array tests. An absent property is
  \<open>None\<close> (JavaScript's \<^verbatim>\<open>undefined\<close>). A number is either an integral double or some other
  double, which the sources only ever test with \<^verbatim>\<open>Number.isSafeInteger\<close> and \<^verbatim>\<open>===\<close>.
\<close>

datatype json =
    JNull
  | JBool bool
  | JInt int
  | JFloat jstr
  | JStr jstr
  | JArr "json list"
  | JObj "(jstr \<times> json) list"

section \<open>Access\<close>

fun fld :: "json \<Rightarrow> string \<Rightarrow> json option" where
  "fld (JObj fs) k = map_of fs (js k)"
| "fld _ k = None"

text \<open>Decimal digits of an array index, the key \<^verbatim>\<open>Object.keys\<close> reports for it.\<close>

fun show_nat :: "nat \<Rightarrow> jstr" where
  "show_nat n = (if n < 10 then [48 + n] else show_nat (n div 10) @ [48 + n mod 10])"

declare show_nat.simps [simp del]

fun object_keys :: "json \<Rightarrow> jstr list" where
  "object_keys (JObj fs) = map fst fs"
| "object_keys (JArr xs) = map show_nat [0..<length xs]"
| "object_keys _ = []"

text \<open>\<^verbatim>\<open>typeof v === 'object' && v !== null\<close>: arrays count as objects.\<close>

fun is_object :: "json \<Rightarrow> bool" where
  "is_object (JObj _) = True"
| "is_object (JArr _) = True"
| "is_object _ = False"

fun is_array :: "json \<Rightarrow> bool" where
  "is_array (JArr _) = True"
| "is_array _ = False"

fun is_string :: "json option \<Rightarrow> bool" where
  "is_string (Some (JStr _)) = True"
| "is_string _ = False"

fun is_boolean :: "json option \<Rightarrow> bool" where
  "is_boolean (Some (JBool _)) = True"
| "is_boolean _ = False"

text \<open>The string a property holds, if it holds one.\<close>

fun str_of :: "json option \<Rightarrow> jstr option" where
  "str_of (Some (JStr s)) = Some s"
| "str_of _ = None"

fun int_of :: "json option \<Rightarrow> int option" where
  "int_of (Some (JInt n)) = Some n"
| "int_of _ = None"

fun arr_of :: "json option \<Rightarrow> json list option" where
  "arr_of (Some (JArr xs)) = Some xs"
| "arr_of _ = None"

definition MAX_SAFE_INTEGER :: int where
  "MAX_SAFE_INTEGER = 2 ^ 53 - 1"

fun is_safe_integer :: "json option \<Rightarrow> bool" where
  "is_safe_integer (Some (JInt n)) = (\<bar>n\<bar> \<le> MAX_SAFE_INTEGER)"
| "is_safe_integer _ = False"

text \<open>\<^verbatim>\<open>Number.isSafeInteger(v) && lo <= Number(v) && Number(v) <= hi\<close>.\<close>

definition safe_int_between :: "int \<Rightarrow> int \<Rightarrow> json option \<Rightarrow> bool" where
  "safe_int_between lo hi v \<longleftrightarrow>
     is_safe_integer v \<and> (case int_of v of None \<Rightarrow> False | Some n \<Rightarrow> lo \<le> n \<and> n \<le> hi)"

text \<open>\<^verbatim>\<open>v === 'literal'\<close>.\<close>

definition is_lit :: "json option \<Rightarrow> string \<Rightarrow> bool" where
  "is_lit v s \<longleftrightarrow> v = Some (JStr (js s))"

text \<open>\<^verbatim>\<open>xs?.includes(v) === true\<close> for an optional array property.\<close>

definition arr_includes :: "json option \<Rightarrow> json \<Rightarrow> bool" where
  "arr_includes xs v = (case xs of Some (JArr l) \<Rightarrow> v \<in> set l | _ \<Rightarrow> False)"

text \<open>\<^verbatim>\<open>hasOnlyKeys\<close> of \<^verbatim>\<open>packages/code/src/protocol.ts\<close>.\<close>

definition hasOnlyKeys :: "json \<Rightarrow> string list \<Rightarrow> bool" where
  "hasOnlyKeys value allowed = list_all (\<lambda>k. k \<in> set (map js allowed)) (object_keys value)"


section \<open>Lemmas\<close>

lemma is_safe_integer_iff:
  "is_safe_integer v \<longleftrightarrow> (\<exists>n. v = Some (JInt n) \<and> \<bar>n\<bar> \<le> MAX_SAFE_INTEGER)"
  by (cases v rule: is_safe_integer.cases) auto

lemma safe_int_between_iff:
  "safe_int_between lo hi v \<longleftrightarrow>
     (\<exists>n. v = Some (JInt n) \<and> \<bar>n\<bar> \<le> MAX_SAFE_INTEGER \<and> lo \<le> n \<and> n \<le> hi)"
  by (auto simp: safe_int_between_def is_safe_integer_iff)

lemma is_string_iff: "is_string v \<longleftrightarrow> (\<exists>s. v = Some (JStr s))"
  by (cases v rule: is_string.cases) auto

lemma is_boolean_iff: "is_boolean v \<longleftrightarrow> (\<exists>b. v = Some (JBool b))"
  by (cases v rule: is_boolean.cases) auto

lemma str_of_Some_iff [simp]: "str_of v = Some s \<longleftrightarrow> v = Some (JStr s)"
  by (cases v rule: str_of.cases) auto

lemma arr_of_Some_iff [simp]: "arr_of v = Some xs \<longleftrightarrow> v = Some (JArr xs)"
  by (cases v rule: arr_of.cases) auto

lemma int_of_Some_iff [simp]: "int_of v = Some n \<longleftrightarrow> v = Some (JInt n)"
  by (cases v rule: int_of.cases) auto

lemma fld_Some_object: "fld v k = Some w \<Longrightarrow> is_object v"
  by (cases v) auto

lemma hasOnlyKeys_fld:
  assumes "hasOnlyKeys v allowed" "fld v k \<noteq> None"
  shows "k \<in> set allowed"
  using assms by (cases v) (auto simp: hasOnlyKeys_def list_all_iff dest!: map_of_SomeD)

lemma show_nat_inject [simp]: "show_nat n = show_nat m \<longleftrightarrow> n = m"
proof (induction n arbitrary: m rule: less_induct)
  case (less n)
  have ne: "show_nat k \<noteq> []" for k by (subst show_nat.simps) simp
  show ?case
  proof (cases "n < 10 \<or> m < 10")
    case True
    then show ?thesis using ne not_sym [OF ne]
      by (subst (1 2) show_nat.simps) (auto simp: append_eq_Cons_conv)
  next
    case False
    then have "n div 10 < n" by simp
    note IH = less.IH [OF this, of "m div 10"]
    have "n = m \<longleftrightarrow> n div 10 = m div 10 \<and> n mod 10 = m mod 10"
      by (metis div_mult_mod_eq)
    with False IH show ?thesis by (subst (1 2) show_nat.simps) simp
  qed
qed

declare is_lit_def [js_simps] arr_includes_def [js_simps] safe_int_between_def [js_simps]
  MAX_SAFE_INTEGER_def [js_simps] hasOnlyKeys_def [js_simps]

end
