(* ===== verification/IsolationKeys.thy ===== *)
theory IsolationKeys
  imports Prelude
begin

text \<open>
  Isolation keys of workspaces: \<^verbatim>\<open>packages/code/src/protocol.ts\<close>
  (\<^verbatim>\<open>workspaceIsolationKey\<close>, \<^verbatim>\<open>workspaceIsolationParent\<close>,
  \<^verbatim>\<open>workspaceIsolationKeysConflict\<close>, the identifier patterns) and the Lua copy of the
  parent function in \<^verbatim>\<open>service/src/bridge/slots.ts\<close>. A checkout, a conversation's
  instance of it and a linked-worktree lane beneath either are all identified by one string;
  scheduling and quarantine compare these strings only.
\<close>

section \<open>Identifier patterns\<close>

definition is_alnum :: "nat \<Rightarrow> bool" where
  "is_alnum c \<longleftrightarrow> (48 \<le> c \<and> c \<le> 57) \<or> (65 \<le> c \<and> c \<le> 90) \<or> (97 \<le> c \<and> c \<le> 122)"

text \<open>\<^verbatim>\<open>/^[A-Za-z0-9][A-Za-z0-9._-]{0,127}$/\<close>, and the same with \<^verbatim>\<open>:\<close>.\<close>

definition matches_name_pattern :: "nat list \<Rightarrow> jstr \<Rightarrow> bool" where
  "matches_name_pattern extra s =
     (case s of [] \<Rightarrow> False
      | c # cs \<Rightarrow> is_alnum c \<and> length cs \<le> 127 \<and> list_all (\<lambda>x. is_alnum x \<or> x \<in> set extra) cs)"

definition BRIDGE_WORKER_ID_PATTERN :: "jstr \<Rightarrow> bool" where
  "BRIDGE_WORKER_ID_PATTERN = matches_name_pattern [46, 95, 58, 45]"

definition BRIDGE_LINKED_WORKTREE_NAME_PATTERN :: "jstr \<Rightarrow> bool" where
  "BRIDGE_LINKED_WORKTREE_NAME_PATTERN = matches_name_pattern [46, 95, 45]"

definition isValidBridgeWorkerId :: "jstr \<Rightarrow> bool" where
  "isValidBridgeWorkerId s = BRIDGE_WORKER_ID_PATTERN s"

definition isValidLinkedWorktreeName :: "jstr \<Rightarrow> bool" where
  "isValidLinkedWorktreeName s \<longleftrightarrow>
     BRIDGE_LINKED_WORKTREE_NAME_PATTERN s \<and> \<not> endsWith s (js ''.lock'')"

text \<open>\<^verbatim>\<open>/^[a-f0-9]{64}$/\<close>: a SHA-256 digest in hex, the shape of an instance id.\<close>

definition is_hex :: "nat \<Rightarrow> bool" where
  "is_hex c \<longleftrightarrow> (48 \<le> c \<and> c \<le> 57) \<or> (97 \<le> c \<and> c \<le> 102)"

definition is_hex64 :: "jstr \<Rightarrow> bool" where
  "is_hex64 s \<longleftrightarrow> length s = 64 \<and> list_all is_hex s"


section \<open>Keys, parents and conflicts\<close>

definition NUL :: nat where "NUL = 0"

definition LINKED_WORKTREE_KEY_PREFIX :: jstr where
  "LINKED_WORKTREE_KEY_PREFIX = NUL # js ''linked-worktree'' @ [NUL]"

definition GIT_WORKTREE_PREFIX :: jstr where
  "GIT_WORKTREE_PREFIX = NUL # js ''git-worktree'' @ [NUL]"

definition workspaceIsolationKey :: "jstr \<Rightarrow> jstr option \<Rightarrow> jstr option \<Rightarrow> jstr" where
  "workspaceIsolationKey workspaceId instanceId worktree =
     (let base = (case instanceId of None \<Rightarrow> workspaceId
                  | Some i \<Rightarrow> GIT_WORKTREE_PREFIX @ workspaceId @ [NUL] @ i)
      in case worktree of None \<Rightarrow> base
         | Some w \<Rightarrow> LINKED_WORKTREE_KEY_PREFIX @ base @ [NUL] @ w)"

definition workspaceIsolationParent :: "jstr \<Rightarrow> jstr option" where
  "workspaceIsolationParent key =
     (if \<not> startsWith key LINKED_WORKTREE_KEY_PREFIX then None
      else let separator = lastIndexOf key NUL
           in if separator \<le> int (length LINKED_WORKTREE_KEY_PREFIX) then None
              else Some (slice key (length LINKED_WORKTREE_KEY_PREFIX) (nat separator)))"

definition workspaceIsolationKeysConflict :: "jstr \<Rightarrow> jstr \<Rightarrow> bool" where
  "workspaceIsolationKeysConflict left right \<longleftrightarrow>
     left = right
     \<or> workspaceIsolationParent left = Some right
     \<or> workspaceIsolationParent right = Some left"


section \<open>The Lua copy of the parent function\<close>

text \<open>The \<^verbatim>\<open>while true\<close> loop over \<^verbatim>\<open>string.find\<close>; it stops because the
  cursor passes the position found.\<close>

function parentOf_scan :: "jstr \<Rightarrow> nat \<Rightarrow> nat option \<Rightarrow> nat option" where
  "parentOf_scan key cursor lst =
     (if cursor = 0 then lst
      else case lua_find key NUL cursor of
        None \<Rightarrow> lst
      | Some found \<Rightarrow> parentOf_scan key (found + 1) (Some found))"
  by pat_completeness auto
termination
  by (relation "measure (\<lambda>(key, cursor, lst). Suc (length key) - cursor)")
     (use lua_find_bounds in \<open>fastforce\<close>)+

declare parentOf_scan.simps [simp del]

definition parentOf :: "jstr \<Rightarrow> jstr option" where
  "parentOf key =
     (let n = length LINKED_WORKTREE_KEY_PREFIX in
      if lua_sub key 1 n \<noteq> LINKED_WORKTREE_KEY_PREFIX then None
      else case parentOf_scan key (n + 1) None of
        None \<Rightarrow> None
      | Some lst \<Rightarrow> if lst \<le> n + 1 then None else Some (lua_sub key (n + 1) (lst - 1)))"


section \<open>Lemmas\<close>

lemma NUL_not_in_name:
  "matches_name_pattern extra s \<Longrightarrow> NUL \<notin> set extra \<Longrightarrow> NUL \<notin> set s"
  by (auto simp: matches_name_pattern_def NUL_def is_alnum_def list_all_iff split: list.splits)

lemma worker_id_no_NUL: "isValidBridgeWorkerId s \<Longrightarrow> NUL \<notin> set s"
  unfolding isValidBridgeWorkerId_def BRIDGE_WORKER_ID_PATTERN_def
  by (erule NUL_not_in_name) (simp add: NUL_def)

lemma worker_id_nonempty: "isValidBridgeWorkerId s \<Longrightarrow> s \<noteq> []"
  by (auto simp: isValidBridgeWorkerId_def BRIDGE_WORKER_ID_PATTERN_def matches_name_pattern_def)

lemma worktree_name_no_NUL: "isValidLinkedWorktreeName s \<Longrightarrow> NUL \<notin> set s"
  unfolding isValidLinkedWorktreeName_def BRIDGE_LINKED_WORKTREE_NAME_PATTERN_def
  by (auto dest: NUL_not_in_name simp: NUL_def)

lemma hex64_no_NUL: "is_hex64 s \<Longrightarrow> NUL \<notin> set s"
  by (auto simp: is_hex64_def is_hex_def NUL_def list_all_iff)

lemma lane_prefix_neq: "LINKED_WORKTREE_KEY_PREFIX = NUL # p \<Longrightarrow> p \<noteq> []"
  by (auto simp: LINKED_WORKTREE_KEY_PREFIX_def js_def)

lemma not_lane_of_no_NUL:
  assumes "NUL \<notin> set s" shows "\<not> startsWith s LINKED_WORKTREE_KEY_PREFIX"
proof
  assume "startsWith s LINKED_WORKTREE_KEY_PREFIX"
  then obtain r where "s = LINKED_WORKTREE_KEY_PREFIX @ r" by (rule startsWithE)
  then show False using assms by (simp add: LINKED_WORKTREE_KEY_PREFIX_def)
qed

lemma not_lane_of_git_worktree:
  "\<not> startsWith (GIT_WORKTREE_PREFIX @ s) LINKED_WORKTREE_KEY_PREFIX"
  by (simp add: startsWith_def GIT_WORKTREE_PREFIX_def LINKED_WORKTREE_KEY_PREFIX_def js_def)

lemma parent_lane:
  assumes "base \<noteq> []" "NUL \<notin> set w"
  shows "workspaceIsolationParent (LINKED_WORKTREE_KEY_PREFIX @ base @ [NUL] @ w) = Some base"
proof -
  let ?P = LINKED_WORKTREE_KEY_PREFIX
  have li: "lastIndexOf (?P @ base @ [NUL] @ w) NUL = int (length ?P + length base)"
    using lastIndexOf_append_notin [OF assms(2), of "?P @ base"] by simp
  have sl: "slice (?P @ base @ [NUL] @ w) (length ?P) (length ?P + length base) = base"
    by (rule slice_append_left)
  have "0 < length base" using assms(1) by simp
  moreover have "startsWith (?P @ base @ [NUL] @ w) ?P" by simp
  ultimately show ?thesis
    unfolding workspaceIsolationParent_def Let_def li
    by (simp add: sl [simplified] nat_int_add)
qed

lemma parentOf_scan_last:
  assumes "1 \<le> cursor" "cursor \<le> Suc (length key)"
  shows "parentOf_scan key cursor lst =
     (if NUL \<in> set (drop (cursor - 1) key) then Some (nat (lastIndexOf key NUL) + 1) else lst)"
  using assms
proof (induction key cursor lst rule: parentOf_scan.induct)
  case (1 key cursor lst)
  show ?case
  proof (cases "lua_find key NUL cursor")
    case None
    then have "NUL \<notin> set (drop (cursor - 1) key)" by (simp only: lua_find_None_iff not_False_eq_True)
    with None show ?thesis by (subst parentOf_scan.simps) simp
  next
    case (Some found)
    from "1.prems" Some have fb: "cursor \<le> found" "found \<le> length key" "key ! (found - 1) = NUL"
      using lua_find_bounds [OF Some] lua_find_nth [OF Some] by auto
    have here: "NUL \<in> set (drop (cursor - 1) key)"
      using Some lua_find_None_iff [of key NUL cursor] by simp
    have IH: "parentOf_scan key (found + 1) (Some found) =
      (if NUL \<in> set (drop found key) then Some (nat (lastIndexOf key NUL) + 1) else Some found)"
      using "1.IH" [OF _ Some] "1.prems" fb by simp
    have fin: "nat (lastIndexOf key NUL) + 1 = found" if "NUL \<notin> set (drop found key)"
    proof -
      have f: "found - 1 < length key" and s: "Suc (found - 1) = found"
        using fb "1.prems" by auto
      have "key = take (found - 1) key @ key ! (found - 1) # drop found key"
        using id_take_nth_drop [OF f] s by simp
      then have "key = take (found - 1) key @ NUL # drop found key"
        using fb(3) by simp
      then have "lastIndexOf key NUL = int (length (take (found - 1) key))"
        using that lastIndexOf_append_notin by metis
      then show ?thesis using f s by simp
    qed
    have "parentOf_scan key cursor lst = parentOf_scan key (found + 1) (Some found)"
      using Some "1.prems" by (subst parentOf_scan.simps) simp
    with IH here fin show ?thesis by auto
  qed
qed

lemma lastIndexOf_ge:
  assumes "c \<in> set (drop n s)"
  shows "int n \<le> lastIndexOf s c"
proof -
  obtain a b where ab: "drop n s = a @ c # b" "c \<notin> set b"
    using assms by (rule split_last_occurrence)
  have "s = take n s @ drop n s" by simp
  then have "s = (take n s @ a) @ c # b" using ab(1) by simp
  then have "lastIndexOf s c = int (length (take n s @ a))"
    using lastIndexOf_append_notin [OF ab(2)] by metis
  moreover have "n \<le> length s" using assms by (metis drop_all empty_iff list.set(1) nat_le_linear)
  ultimately show ?thesis by simp
qed

lemma lastIndexOf_less:
  assumes "c \<notin> set (drop n s)" "n \<le> length s"
  shows "lastIndexOf s c < int n"
proof (cases "c \<in> set s")
  case False
  then show ?thesis by simp
next
  case True
  then obtain a b where ab: "s = a @ c # b" "c \<notin> set b" by (rule split_last_occurrence)
  have "length a < n"
  proof (rule ccontr)
    assume "\<not> length a < n"
    then have "c \<in> set (drop n s)" using ab(1) by simp
    with assms(1) show False by simp
  qed
  then show ?thesis using lastIndexOf_append_notin [OF ab(2), of a] ab(1) by simp
qed


text \<open>The base key of a checkout: nonempty, and itself never a lane.\<close>

definition valid_ids :: "jstr \<Rightarrow> jstr option \<Rightarrow> jstr option \<Rightarrow> bool" where
  "valid_ids workspaceId instanceId worktree \<longleftrightarrow>
     isValidBridgeWorkerId workspaceId
     \<and> pred_option is_hex64 instanceId
     \<and> pred_option isValidLinkedWorktreeName worktree"

lemma key_split:
  "workspaceIsolationKey ws inst (Some w) =
     LINKED_WORKTREE_KEY_PREFIX @ workspaceIsolationKey ws inst None @ [NUL] @ w"
  by (simp add: workspaceIsolationKey_def)

lemma base_key_nonempty: "isValidBridgeWorkerId ws \<Longrightarrow> workspaceIsolationKey ws inst None \<noteq> []"
  by (auto simp: workspaceIsolationKey_def GIT_WORKTREE_PREFIX_def dest: worker_id_nonempty
      split: option.splits)

lemma base_key_not_lane:
  assumes "isValidBridgeWorkerId ws"
  shows "\<not> startsWith (workspaceIsolationKey ws inst None) LINKED_WORKTREE_KEY_PREFIX"
  using not_lane_of_no_NUL [OF worker_id_no_NUL [OF assms]] not_lane_of_git_worktree
  by (simp add: workspaceIsolationKey_def split: option.splits)

lemma base_key_parent:
  "isValidBridgeWorkerId ws \<Longrightarrow> workspaceIsolationParent (workspaceIsolationKey ws inst None) = None"
  by (simp add: workspaceIsolationParent_def base_key_not_lane)

lemma append_NUL_inject:
  assumes "a @ NUL # b = a' @ NUL # b'" "NUL \<notin> set b" "NUL \<notin> set b'"
  shows "a = a' \<and> b = b'"
proof -
  have "rev b @ NUL # rev a = rev b' @ NUL # rev a'"
    using arg_cong [OF assms(1), of rev] by simp
  moreover have "takeWhile (\<lambda>x. x \<noteq> NUL) (rev b @ NUL # rev a) = rev b"
    "takeWhile (\<lambda>x. x \<noteq> NUL) (rev b' @ NUL # rev a') = rev b'"
    using assms(2,3) by (auto simp: takeWhile_append)
  ultimately have "rev b = rev b'" by metis
  with assms(1) show ?thesis by simp
qed

lemma base_key_inject:
  assumes "isValidBridgeWorkerId ws" "pred_option is_hex64 inst"
    and "isValidBridgeWorkerId ws'" "pred_option is_hex64 inst'"
    and "workspaceIsolationKey ws inst None = workspaceIsolationKey ws' inst' None"
  shows "ws = ws' \<and> inst = inst'"
proof -
  have head: "NUL \<in> set (GIT_WORKTREE_PREFIX @ s)" for s
    by (simp add: GIT_WORKTREE_PREFIX_def)
  have nn: "NUL \<notin> set ws" "NUL \<notin> set ws'" using assms worker_id_no_NUL by auto
  show ?thesis
  proof (cases inst)
    case None
    then have "inst' = None"
      using assms(5) nn head [of "ws' @ [NUL] @ the inst'"]
      by (cases inst') (auto simp: workspaceIsolationKey_def)
    with None assms(5) show ?thesis by (simp add: workspaceIsolationKey_def)
  next
    case (Some i)
    then obtain i' where i': "inst' = Some i'"
      using assms(5) nn head [of "ws @ [NUL] @ i"]
      by (cases inst') (auto simp: workspaceIsolationKey_def)
    have "ws @ NUL # i = ws' @ NUL # i'"
      using assms(5) Some i' by (simp add: workspaceIsolationKey_def)
    with append_NUL_inject [of ws i ws' i'] show ?thesis
      using assms(2,4) Some i' by (auto dest: hex64_no_NUL)
  qed
qed


section \<open>Properties\<close>

lemma isolation_parent_base:
  "valid_ids ws inst None \<Longrightarrow> workspaceIsolationParent (workspaceIsolationKey ws inst None) = None"
  by (simp add: base_key_parent valid_ids_def)

lemma isolation_parent_lane:
  assumes "valid_ids ws inst (Some w)"
  shows "workspaceIsolationParent (workspaceIsolationKey ws inst (Some w)) = Some (workspaceIsolationKey ws inst None)"
proof -
  from assms have "isValidBridgeWorkerId ws" "NUL \<notin> set w"
    by (auto simp: valid_ids_def dest: worktree_name_no_NUL)
  with parent_lane [OF base_key_nonempty, of ws w inst] show ?thesis
    by (simp add: key_split)
qed

text \<open>
  C33. The parent of a linked-worktree lane is exactly the key of the checkout it nests beneath,
  and the key of a checkout has no parent, for every validated identifier triple.
\<close>

theorem isolation_parent_roundtrip:
  assumes "valid_ids ws inst wt"
  shows "workspaceIsolationParent (workspaceIsolationKey ws inst wt) =
     (case wt of None \<Rightarrow> None | Some _ \<Rightarrow> Some (workspaceIsolationKey ws inst None))"
  using assms isolation_parent_base isolation_parent_lane by (cases wt) auto

theorem isolation_parent_roundtrip_witness:
  "workspaceIsolationParent (workspaceIsolationKey (js ''repo'') None (Some (js ''lane'')))
     = Some (js ''repo'')"
proof -
  have "valid_ids (js ''repo'') None (Some (js ''lane''))"
    by (simp add: valid_ids_def isValidBridgeWorkerId_def BRIDGE_WORKER_ID_PATTERN_def
        matches_name_pattern_def isValidLinkedWorktreeName_def
        BRIDGE_LINKED_WORKTREE_NAME_PATTERN_def is_alnum_def endsWith_def js_def)
  from isolation_parent_roundtrip [OF this] show ?thesis
    by (simp add: workspaceIsolationKey_def)
qed

lemma isolation_key_eqD:
  assumes "valid_ids ws inst wt" "valid_ids ws' inst' wt'"
    and "workspaceIsolationKey ws inst wt = workspaceIsolationKey ws' inst' wt'"
  shows "ws = ws' \<and> inst = inst' \<and> wt = wt'"
proof -
  note ids = assms(1,2) [unfolded valid_ids_def]
  have lane: "startsWith (workspaceIsolationKey a b (Some c)) LINKED_WORKTREE_KEY_PREFIX" for a b c
    by (simp add: key_split)
  show ?thesis
  proof (cases wt)
    case None
    then have "wt' = None"
      using assms(3) ids base_key_not_lane [of ws inst] lane
      by (cases wt') auto
    with None assms(3) ids base_key_inject show ?thesis by metis
  next
    case (Some w)
    then have "wt' \<noteq> None"
      using assms(3) ids base_key_not_lane [of ws' inst'] lane by metis
    then obtain w' where w': "wt' = Some w'" by blast
    have nn: "NUL \<notin> set w" "NUL \<notin> set w'"
      using ids Some w' worktree_name_no_NUL by auto
    have "workspaceIsolationKey ws inst None @ NUL # w = workspaceIsolationKey ws' inst' None @ NUL # w'"
      using assms(3) Some w' by (simp add: key_split)
    from append_NUL_inject [OF this nn]
    have "workspaceIsolationKey ws inst None = workspaceIsolationKey ws' inst' None" "w = w'"
      by auto
    with base_key_inject ids Some w' show ?thesis by metis
  qed
qed

lemma isolation_key_inject:
  assumes "valid_ids ws inst wt" "valid_ids ws' inst' wt'"
  shows "workspaceIsolationKey ws inst wt = workspaceIsolationKey ws' inst' wt' \<longleftrightarrow>
    ws = ws' \<and> inst = inst' \<and> wt = wt'"
  using isolation_key_eqD [OF assms] by blast

text \<open>
  Isolation keys are collision free: two validated identifier triples with the same key are
  the same triple.
\<close>

theorem isolation_key_injective:
  assumes "valid_ids ws inst wt" "valid_ids ws' inst' wt'"
    and "workspaceIsolationKey ws inst wt = workspaceIsolationKey ws' inst' wt'"
  shows "ws = ws' \<and> inst = inst' \<and> wt = wt'"
  using isolation_key_eqD [OF assms] .

theorem isolation_key_injective_witness:
  "workspaceIsolationKey (js ''repo'') None (Some (js ''lane'')) =
   workspaceIsolationKey (js ''repo'') None (Some (js ''lane''))
   \<and> js ''repo'' = js ''repo'' \<and> Some (js ''lane'') = Some (js ''lane'')"
proof -
  have v: "valid_ids (js ''repo'') None (Some (js ''lane''))"
    by (simp add: valid_ids_def isValidBridgeWorkerId_def BRIDGE_WORKER_ID_PATTERN_def
        matches_name_pattern_def isValidLinkedWorktreeName_def
        BRIDGE_LINKED_WORKTREE_NAME_PATTERN_def is_alnum_def endsWith_def js_def)
  show ?thesis using isolation_key_injective [OF v v refl] by blast
qed

lemma parentOf_eq:
  "parentOf key = workspaceIsolationParent key"
proof (cases "startsWith key LINKED_WORKTREE_KEY_PREFIX")
  case False
  then show ?thesis
    by (simp add: parentOf_def workspaceIsolationParent_def lua_sub_def startsWith_def)
next
  case True
  let ?n = "length LINKED_WORKTREE_KEY_PREFIX"
  from True have len: "?n \<le> length key" by (auto elim: startsWithE)
  from True have sub: "lua_sub key 1 ?n = LINKED_WORKTREE_KEY_PREFIX"
    by (simp add: lua_sub_def startsWith_def)
  have scan: "parentOf_scan key (?n + 1) None =
      (if NUL \<in> set (drop ?n key) then Some (nat (lastIndexOf key NUL) + 1) else None)"
    using parentOf_scan_last [of "?n + 1" key None] len by simp
  show ?thesis
  proof (cases "NUL \<in> set (drop ?n key)")
    case False
    with lastIndexOf_less [OF False len] True sub scan show ?thesis
      by (simp add: parentOf_def workspaceIsolationParent_def Let_def)
  next
    case T: True
    with lastIndexOf_ge [OF T] True sub scan show ?thesis
      by (auto simp: parentOf_def workspaceIsolationParent_def Let_def lua_sub_def slice_def nat_le_iff)
  qed
qed

text \<open>
  C34. The parent function the reservation script carries as Lua source computes the same value
  as \<^verbatim>\<open>workspaceIsolationParent\<close> on every string.
\<close>

theorem parentOf_eq_workspaceIsolationParent: "parentOf = workspaceIsolationParent"
  by (rule ext) (rule parentOf_eq)

end
