(* ===== verification/RedisModel.thy ===== *)
theory RedisModel
  imports Prelude "HOL-Library.AList" "HOL-Library.List_Lexorder" "HOL-Library.Product_Lexorder"
begin

text \<open>
  The Redis commands the service's Lua scripts and clients issue, as functions on an explicit
  store. A store maps keys to cells; a cell is a typed value with an optional absolute expiry in
  milliseconds, and a cell whose expiry has passed is not seen by any command (Redis expires
  lazily: a key is gone once the clock is past its expiry). A script runs atomically at one
  Redis clock reading, the \<open>now\<close> argument of every command.

  Keys are an arbitrary type: the components use a datatype with one constructor per key family
  of the source. String contents are text, decimal integers, or a JSON document kept as the
  record it encodes (\<open>Json\<close>). Every component keeps each key at one Redis type; the commands
  return the empty answer on a cell of another type.
\<close>

named_theorems redis_simps \<open>how each read command sees each write command\<close>
named_theorems redis_defs \<open>definitions of the write commands\<close>

datatype 'j sval = Txt jstr | NumV int | Json 'j

type_synonym 'j hash = "(jstr \<times> 'j sval) list"
type_synonym zset = "(int \<times> jstr) list"

datatype ('k, 'j) rval =
    RStr "'j sval"
  | RList "'j sval list"
  | RHash "'j hash"
  | RZSet zset
  | RSet "'k list"

type_synonym ('k, 'j) cell = "('k, 'j) rval \<times> int option"
type_synonym ('k, 'j) redis = "'k \<Rightarrow> ('k, 'j) cell option"


section \<open>Reading\<close>

definition live :: "int \<Rightarrow> int option \<Rightarrow> bool" where
  "live now e = (case e of None \<Rightarrow> True | Some t \<Rightarrow> now \<le> t)"

definition peek :: "int \<Rightarrow> ('k, 'j) redis \<Rightarrow> 'k \<Rightarrow> ('k, 'j) cell option" where
  "peek now s k = (case s k of None \<Rightarrow> None | Some c \<Rightarrow> if live now (snd c) then Some c else None)"

definition EXISTS :: "int \<Rightarrow> ('k, 'j) redis \<Rightarrow> 'k \<Rightarrow> bool" where
  "EXISTS now s k \<longleftrightarrow> peek now s k \<noteq> None"

definition GET :: "int \<Rightarrow> ('k, 'j) redis \<Rightarrow> 'k \<Rightarrow> 'j sval option" where
  "GET now s k = (case peek now s k of Some (RStr v, _) \<Rightarrow> Some v | _ \<Rightarrow> None)"

definition PTTL :: "int \<Rightarrow> ('k, 'j) redis \<Rightarrow> 'k \<Rightarrow> int" where
  "PTTL now s k = (case peek now s k of None \<Rightarrow> -2 | Some (_, None) \<Rightarrow> -1 | Some (_, Some t) \<Rightarrow> t - now)"

text \<open>\<^verbatim>\<open>TTL\<close> rounds the remaining milliseconds to the nearest second.\<close>

definition TTL :: "int \<Rightarrow> ('k, 'j) redis \<Rightarrow> 'k \<Rightarrow> int" where
  "TTL now s k = (let p = PTTL now s k in if p < 0 then p else (p + 500) div 1000)"

definition list_at :: "int \<Rightarrow> ('k, 'j) redis \<Rightarrow> 'k \<Rightarrow> 'j sval list" where
  "list_at now s k = (case peek now s k of Some (RList l, _) \<Rightarrow> l | _ \<Rightarrow> [])"

definition hash_at :: "int \<Rightarrow> ('k, 'j) redis \<Rightarrow> 'k \<Rightarrow> 'j hash" where
  "hash_at now s k = (case peek now s k of Some (RHash h, _) \<Rightarrow> h | _ \<Rightarrow> [])"

definition zset_at :: "int \<Rightarrow> ('k, 'j) redis \<Rightarrow> 'k \<Rightarrow> zset" where
  "zset_at now s k = (case peek now s k of Some (RZSet z, _) \<Rightarrow> z | _ \<Rightarrow> [])"

definition SMEMBERS :: "int \<Rightarrow> ('k, 'j) redis \<Rightarrow> 'k \<Rightarrow> 'k list" where
  "SMEMBERS now s k = (case peek now s k of Some (RSet m, _) \<Rightarrow> m | _ \<Rightarrow> [])"

definition HGET :: "int \<Rightarrow> ('k, 'j) redis \<Rightarrow> 'k \<Rightarrow> jstr \<Rightarrow> 'j sval option" where
  "HGET now s k f = map_of (hash_at now s k) f"

definition HLEN :: "int \<Rightarrow> ('k, 'j) redis \<Rightarrow> 'k \<Rightarrow> nat" where
  "HLEN now s k = length (hash_at now s k)"

definition ZSCORE :: "int \<Rightarrow> ('k, 'j) redis \<Rightarrow> 'k \<Rightarrow> jstr \<Rightarrow> int option" where
  "ZSCORE now s k m = map_option fst (find (\<lambda>p. snd p = m) (zset_at now s k))"

definition ZCARD :: "int \<Rightarrow> ('k, 'j) redis \<Rightarrow> 'k \<Rightarrow> nat" where
  "ZCARD now s k = length (zset_at now s k)"

text \<open>\<^verbatim>\<open>ZRANGE k 0 n-1\<close>: the first \<open>n\<close> members in score order.\<close>

definition ZRANGE_first :: "int \<Rightarrow> ('k, 'j) redis \<Rightarrow> 'k \<Rightarrow> nat \<Rightarrow> jstr list" where
  "ZRANGE_first now s k n = map snd (take n (zset_at now s k))"

text \<open>\<^verbatim>\<open>ZRANGEBYSCORE k -inf x\<close>.\<close>

definition ZRANGEBYSCORE :: "int \<Rightarrow> ('k, 'j) redis \<Rightarrow> 'k \<Rightarrow> int \<Rightarrow> jstr list" where
  "ZRANGEBYSCORE now s k x = map snd (filter (\<lambda>p. fst p \<le> x) (zset_at now s k))"

text \<open>The score \<^verbatim>\<open>ZREVRANGE k 0 0 WITHSCORES\<close> returns, if any.\<close>

definition ZMAX :: "int \<Rightarrow> ('k, 'j) redis \<Rightarrow> 'k \<Rightarrow> int option" where
  "ZMAX now s k = (case zset_at now s k of [] \<Rightarrow> None | z \<Rightarrow> Some (fst (last z)))"

definition ZRANK :: "int \<Rightarrow> ('k, 'j) redis \<Rightarrow> 'k \<Rightarrow> jstr \<Rightarrow> nat option" where
  "ZRANK now s k m =
     (let z = map snd (zset_at now s k); i = length (takeWhile (\<lambda>x. x \<noteq> m) z)
      in if i < length z then Some i else None)"


section \<open>Writing\<close>

definition put :: "'k \<Rightarrow> ('k, 'j) cell \<Rightarrow> ('k, 'j) redis \<Rightarrow> ('k, 'j) redis" where
  "put k c s = s(k := Some c)"

definition DEL :: "'k \<Rightarrow> ('k, 'j) redis \<Rightarrow> ('k, 'j) redis" where
  "DEL k s = s(k := None)"

text \<open>\<^verbatim>\<open>SET k v\<close> drops the expiry; \<open>SETAT\<close> is \<^verbatim>\<open>SET k v PXAT t\<close>, and
  \<^verbatim>\<open>EX n\<close> and \<^verbatim>\<open>PX n\<close> are expiries relative to \<open>now\<close>.\<close>

definition SET :: "'k \<Rightarrow> 'j sval \<Rightarrow> ('k, 'j) redis \<Rightarrow> ('k, 'j) redis" where
  "SET k v = put k (RStr v, None)"

definition SETAT :: "int \<Rightarrow> 'k \<Rightarrow> 'j sval \<Rightarrow> ('k, 'j) redis \<Rightarrow> ('k, 'j) redis" where
  "SETAT t k v = put k (RStr v, Some t)"

definition SETEX :: "int \<Rightarrow> int \<Rightarrow> 'k \<Rightarrow> 'j sval \<Rightarrow> ('k, 'j) redis \<Rightarrow> ('k, 'j) redis" where
  "SETEX now seconds k v = SETAT (now + seconds * 1000) k v"

definition SETPX :: "int \<Rightarrow> int \<Rightarrow> 'k \<Rightarrow> 'j sval \<Rightarrow> ('k, 'j) redis \<Rightarrow> ('k, 'j) redis" where
  "SETPX now ms k v = SETAT (now + ms) k v"

text \<open>\<^verbatim>\<open>PEXPIREAT\<close>: no effect on a missing key; a time already reached deletes the key.\<close>

definition PEXPIREAT :: "int \<Rightarrow> 'k \<Rightarrow> int \<Rightarrow> ('k, 'j) redis \<Rightarrow> ('k, 'j) redis" where
  "PEXPIREAT now k t s =
     (case peek now s k of None \<Rightarrow> s
      | Some (v, _) \<Rightarrow> if t \<le> now then DEL k s else put k (v, Some t) s)"

definition PEXPIRE :: "int \<Rightarrow> 'k \<Rightarrow> int \<Rightarrow> ('k, 'j) redis \<Rightarrow> ('k, 'j) redis" where
  "PEXPIRE now k ms = PEXPIREAT now k (now + ms)"

definition EXPIRE :: "int \<Rightarrow> 'k \<Rightarrow> int \<Rightarrow> ('k, 'j) redis \<Rightarrow> ('k, 'j) redis" where
  "EXPIRE now k seconds = PEXPIREAT now k (now + seconds * 1000)"

text \<open>Replace the value of a key and keep its expiry; an empty collection deletes the key.\<close>

definition expiry_at :: "int \<Rightarrow> ('k, 'j) redis \<Rightarrow> 'k \<Rightarrow> int option" where
  "expiry_at now s k = (case peek now s k of None \<Rightarrow> None | Some (_, e) \<Rightarrow> e)"

definition counter_of :: "'j sval option \<Rightarrow> int" where
  "counter_of v = (case v of Some (NumV n) \<Rightarrow> n | _ \<Rightarrow> 0)"

definition INCR :: "int \<Rightarrow> 'k \<Rightarrow> ('k, 'j) redis \<Rightarrow> int \<times> ('k, 'j) redis" where
  "INCR now k s =
     (let n = counter_of (GET now s k) + 1 in (n, put k (RStr (NumV n), expiry_at now s k) s))"

definition store_list :: "int \<Rightarrow> 'k \<Rightarrow> 'j sval list \<Rightarrow> ('k, 'j) redis \<Rightarrow> ('k, 'j) redis" where
  "store_list now k l s = (if l = [] then DEL k s else put k (RList l, expiry_at now s k) s)"

definition store_hash :: "int \<Rightarrow> 'k \<Rightarrow> 'j hash \<Rightarrow> ('k, 'j) redis \<Rightarrow> ('k, 'j) redis" where
  "store_hash now k h s = (if h = [] then DEL k s else put k (RHash h, expiry_at now s k) s)"

definition store_zset :: "int \<Rightarrow> 'k \<Rightarrow> zset \<Rightarrow> ('k, 'j) redis \<Rightarrow> ('k, 'j) redis" where
  "store_zset now k z s = (if z = [] then DEL k s else put k (RZSet z, expiry_at now s k) s)"

definition store_set :: "int \<Rightarrow> 'k \<Rightarrow> 'k list \<Rightarrow> ('k, 'j) redis \<Rightarrow> ('k, 'j) redis" where
  "store_set now k m s = (if m = [] then DEL k s else put k (RSet m, expiry_at now s k) s)"

definition RPUSH :: "int \<Rightarrow> 'k \<Rightarrow> 'j sval \<Rightarrow> ('k, 'j) redis \<Rightarrow> ('k, 'j) redis" where
  "RPUSH now k v s = store_list now k (list_at now s k @ [v]) s"

definition LPUSH :: "int \<Rightarrow> 'k \<Rightarrow> 'j sval \<Rightarrow> ('k, 'j) redis \<Rightarrow> ('k, 'j) redis" where
  "LPUSH now k v s = store_list now k (v # list_at now s k) s"

definition LPOP :: "int \<Rightarrow> 'k \<Rightarrow> ('k, 'j) redis \<Rightarrow> 'j sval option \<times> ('k, 'j) redis" where
  "LPOP now k s = (case list_at now s k of [] \<Rightarrow> (None, s) | x # xs \<Rightarrow> (Some x, store_list now k xs s))"

text \<open>\<^verbatim>\<open>LREM k 0 v\<close>: removes every occurrence and returns how many there were.\<close>

definition LREM :: "int \<Rightarrow> 'k \<Rightarrow> 'j sval \<Rightarrow> ('k, 'j) redis \<Rightarrow> nat \<times> ('k, 'j) redis" where
  "LREM now k v s =
     (let l = list_at now s k; n = length (filter (\<lambda>x. x = v) l)
      in (n, if n = 0 then s else store_list now k (filter (\<lambda>x. x \<noteq> v) l) s))"

definition HSET :: "int \<Rightarrow> 'k \<Rightarrow> jstr \<Rightarrow> 'j sval \<Rightarrow> ('k, 'j) redis \<Rightarrow> ('k, 'j) redis" where
  "HSET now k f v s = store_hash now k (AList.update f v (hash_at now s k)) s"

definition HDEL :: "int \<Rightarrow> 'k \<Rightarrow> jstr \<Rightarrow> ('k, 'j) redis \<Rightarrow> ('k, 'j) redis" where
  "HDEL now k f s =
     (if HGET now s k f = None then s else store_hash now k (AList.delete f (hash_at now s k)) s)"

definition ZADD :: "int \<Rightarrow> 'k \<Rightarrow> int \<Rightarrow> jstr \<Rightarrow> ('k, 'j) redis \<Rightarrow> ('k, 'j) redis" where
  "ZADD now k score m s =
     store_zset now k (insort (score, m) (filter (\<lambda>p. snd p \<noteq> m) (zset_at now s k))) s"

definition ZREM :: "int \<Rightarrow> 'k \<Rightarrow> jstr \<Rightarrow> ('k, 'j) redis \<Rightarrow> ('k, 'j) redis" where
  "ZREM now k m s =
     (if m \<in> snd ` set (zset_at now s k)
      then store_zset now k (filter (\<lambda>p. snd p \<noteq> m) (zset_at now s k)) s else s)"

definition SADD :: "int \<Rightarrow> 'k \<Rightarrow> 'k \<Rightarrow> ('k, 'j) redis \<Rightarrow> ('k, 'j) redis" where
  "SADD now k m s = store_set now k (List.insert m (SMEMBERS now s k)) s"

definition SREM :: "int \<Rightarrow> 'k \<Rightarrow> 'k \<Rightarrow> ('k, 'j) redis \<Rightarrow> ('k, 'j) redis" where
  "SREM now k m s =
     (if m \<in> set (SMEMBERS now s k) then store_set now k (removeAll m (SMEMBERS now s k)) s else s)"


section \<open>Laws of the commands\<close>

text \<open>
  Every write touches one key. Two collections carry the component proofs: \<open>redis_frame\<close> (a
  write to \<open>k\<close> leaves every other key's cell, hence what any read at any time sees there) and
  \<open>redis_simps\<close> (what a read at the script's own time sees at the written key).
\<close>

named_theorems redis_frame \<open>cells of other keys are unchanged\<close>

lemmas redis_reads = EXISTS_def GET_def PTTL_def TTL_def list_at_def hash_at_def zset_at_def
  SMEMBERS_def HGET_def HLEN_def ZSCORE_def ZCARD_def ZRANGE_first_def ZRANGEBYSCORE_def ZMAX_def
  ZRANK_def expiry_at_def

lemmas redis_writes = SET_def SETAT_def SETEX_def SETPX_def PEXPIREAT_def PEXPIRE_def EXPIRE_def
  INCR_def store_list_def store_hash_def store_zset_def store_set_def RPUSH_def LPUSH_def LPOP_def
  LREM_def HSET_def HDEL_def ZADD_def ZREM_def SADD_def SREM_def

lemma put_apply [redis_frame]: "put k c s k' = (if k' = k then Some c else s k')"
  by (simp add: put_def)

lemma DEL_apply [redis_frame]: "DEL k s k' = (if k' = k then None else s k')"
  by (simp add: DEL_def)

lemma write_other [redis_frame]:
  assumes "k' \<noteq> k"
  shows "SET k v s k' = s k'" "SETAT t k v s k' = s k'" "SETEX now x k v s k' = s k'"
    "SETPX now x k v s k' = s k'" "PEXPIREAT now k t s k' = s k'" "PEXPIRE now k t s k' = s k'"
    "EXPIRE now k t s k' = s k'" "snd (INCR now k s) k' = s k'"
    "RPUSH now k v s k' = s k'" "LPUSH now k v s k' = s k'" "snd (LPOP now k s) k' = s k'"
    "snd (LREM now k v s) k' = s k'" "HSET now k f v s k' = s k'" "HDEL now k f s k' = s k'"
    "ZADD now k i m s k' = s k'" "ZREM now k m s k' = s k'"
    "SADD now k kk s k' = s k'" "SREM now k kk s k' = s k'"
    "store_list now k l s k' = s k'" "store_hash now k h s k' = s k'"
    "store_zset now k z s k' = s k'" "store_set now k ks s k' = s k'"
  using assms
  by (auto simp: redis_writes put_apply DEL_apply Let_def split: option.splits list.splits)

text \<open>Reads depend on the cell of their key only.\<close>

lemma peek_cong: "s k = s' k \<Longrightarrow> peek n s k = peek n s' k"
  by (simp add: peek_def)

lemma read_cong:
  assumes "s k = s' k"
  shows "EXISTS n s k = EXISTS n s' k" "GET n s k = GET n s' k" "PTTL n s k = PTTL n s' k"
    "TTL n s k = TTL n s' k" "list_at n s k = list_at n s' k" "hash_at n s k = hash_at n s' k"
    "zset_at n s k = zset_at n s' k" "SMEMBERS n s k = SMEMBERS n s' k" "HGET n s k f = HGET n s' k f"
    "HLEN n s k = HLEN n s' k" "ZSCORE n s k m = ZSCORE n s' k m" "ZCARD n s k = ZCARD n s' k"
    "ZRANGE_first n s k i = ZRANGE_first n s' k i" "ZRANGEBYSCORE n s k x = ZRANGEBYSCORE n s' k x"
    "ZMAX n s k = ZMAX n s' k" "ZRANK n s k m = ZRANK n s' k m" "expiry_at n s k = expiry_at n s' k"
proof -
  have "\<And>n. peek n s k = peek n s' k" using assms by (simp add: peek_def)
  then show "EXISTS n s k = EXISTS n s' k" "GET n s k = GET n s' k" "PTTL n s k = PTTL n s' k"
    "TTL n s k = TTL n s' k" "list_at n s k = list_at n s' k" "hash_at n s k = hash_at n s' k"
    "zset_at n s k = zset_at n s' k" "SMEMBERS n s k = SMEMBERS n s' k" "HGET n s k f = HGET n s' k f"
    "HLEN n s k = HLEN n s' k" "ZSCORE n s k m = ZSCORE n s' k m" "ZCARD n s k = ZCARD n s' k"
    "ZRANGE_first n s k i = ZRANGE_first n s' k i" "ZRANGEBYSCORE n s k x = ZRANGEBYSCORE n s' k x"
    "ZMAX n s k = ZMAX n s' k" "ZRANK n s k m = ZRANK n s' k m" "expiry_at n s k = expiry_at n s' k"
    by (simp_all add: redis_reads)
qed

lemma peek_put [redis_simps]:
  "peek n (put k c s) k' = (if k' = k then (if live n (snd c) then Some c else None) else peek n s k')"
  by (simp add: peek_def put_def)

lemma peek_DEL [redis_simps]: "peek n (DEL k s) k' = (if k' = k then None else peek n s k')"
  by (simp add: peek_def DEL_def)

lemma live_simps [simp]: "live n None" "live n (Some t) \<longleftrightarrow> n \<le> t"
  by (simp_all add: live_def)

lemma peek_live: "peek n s k = Some c \<Longrightarrow> live n (snd c)"
  by (auto simp: peek_def split: option.splits if_splits)

lemma live_expiry [simp]: "live n (expiry_at n s k)"
  using peek_live [of n s k] by (auto simp: expiry_at_def split: option.splits)

lemma live_mono: "live n' e \<Longrightarrow> n \<le> n' \<Longrightarrow> live n e"
  by (cases e) auto

lemma peek_mono: "peek n' s k = Some c \<Longrightarrow> n \<le> n' \<Longrightarrow> peek n s k = Some c"
  by (auto simp: peek_def dest: live_mono split: option.splits if_splits)

lemma GET_mono: "GET n' s k = Some v \<Longrightarrow> n \<le> n' \<Longrightarrow> GET n s k = Some v"
  by (auto simp: GET_def dest: peek_mono split: option.splits prod.splits rval.splits)

lemma GET_Some_cell:
  "GET n s k = Some v \<longleftrightarrow> (\<exists>e. s k = Some (RStr v, e) \<and> live n e)"
  by (auto simp: GET_def peek_def split: option.splits prod.splits rval.splits if_splits)

lemma GET_EXISTS: "GET n s k = Some v \<Longrightarrow> EXISTS n s k"
  by (auto simp: GET_def EXISTS_def split: option.splits)

text \<open>What is read back at the written key, at the time of the script.\<close>

lemma GET_SET [redis_simps]: "GET n (SET k v s) k' = (if k' = k then Some v else GET n s k')"
  by (simp add: GET_def SET_def peek_put)

lemma GET_SETAT [redis_simps]:
  "GET n (SETAT t k v s) k' = (if k' = k then (if n \<le> t then Some v else None) else GET n s k')"
  by (simp add: GET_def SETAT_def peek_put)

lemma GET_SETEX [redis_simps]:
  "GET n (SETEX now x k v s) k' =
     (if k' = k then (if n \<le> now + x * 1000 then Some v else None) else GET n s k')"
  by (simp add: SETEX_def GET_SETAT)

lemma GET_SETPX [redis_simps]:
  "GET n (SETPX now x k v s) k' =
     (if k' = k then (if n \<le> now + x then Some v else None) else GET n s k')"
  by (simp add: SETPX_def GET_SETAT)

lemma GET_DEL [redis_simps]: "GET n (DEL k s) k' = (if k' = k then None else GET n s k')"
  by (simp add: GET_def peek_DEL)

lemma EXISTS_DEL [redis_simps]: "EXISTS n (DEL k s) k' = (k' \<noteq> k \<and> EXISTS n s k')"
  by (simp add: EXISTS_def peek_DEL)

lemma EXISTS_SET [redis_simps]: "EXISTS n (SET k v s) k' = (k' = k \<or> EXISTS n s k')"
  by (simp add: EXISTS_def SET_def peek_put)

lemma EXISTS_SETAT [redis_simps]:
  "EXISTS n (SETAT t k v s) k' = (if k' = k then n \<le> t else EXISTS n s k')"
  by (simp add: EXISTS_def SETAT_def peek_put)

lemma EXISTS_SETEX [redis_simps]:
  "EXISTS n (SETEX now x k v s) k' = (if k' = k then n \<le> now + x * 1000 else EXISTS n s k')"
  by (simp add: SETEX_def EXISTS_SETAT)

lemma EXISTS_SETPX [redis_simps]:
  "EXISTS n (SETPX now x k v s) k' = (if k' = k then n \<le> now + x else EXISTS n s k')"
  by (simp add: SETPX_def EXISTS_SETAT)

lemma GET_PEXPIREAT_same [redis_simps]:
  "GET now (PEXPIREAT now k t s) k = (if t \<le> now then None else GET now s k)"
  by (auto simp: PEXPIREAT_def GET_def peek_put peek_DEL split: option.splits rval.splits)

lemma INCR_value: "INCR now k s = (n, s') \<Longrightarrow> GET now s' k = Some (NumV n)"
  by (auto simp: INCR_def Let_def GET_def peek_put)

lemma fst_INCR [redis_simps]: "fst (INCR now k s) = counter_of (GET now s k) + 1"
  by (simp add: INCR_def Let_def)

lemma list_at_store_list [redis_simps]: "list_at now (store_list now k l s) k = l"
  by (simp add: list_at_def store_list_def peek_put peek_DEL)

lemma hash_at_store_hash [redis_simps]: "hash_at now (store_hash now k h s) k = h"
  by (simp add: hash_at_def store_hash_def peek_put peek_DEL)

lemma zset_at_store_zset [redis_simps]: "zset_at now (store_zset now k z s) k = z"
  by (simp add: zset_at_def store_zset_def peek_put peek_DEL)

lemma SMEMBERS_store_set [redis_simps]: "SMEMBERS now (store_set now k m s) k = m"
  by (simp add: SMEMBERS_def store_set_def peek_put peek_DEL)

lemma list_at_RPUSH [redis_simps]: "list_at now (RPUSH now k v s) k = list_at now s k @ [v]"
  by (simp add: RPUSH_def list_at_store_list)

lemma list_at_LPUSH [redis_simps]: "list_at now (LPUSH now k v s) k = v # list_at now s k"
  by (simp add: LPUSH_def list_at_store_list)

lemma list_at_LREM [redis_simps]:
  "list_at now (snd (LREM now k v s)) k = filter (\<lambda>x. x \<noteq> v) (list_at now s k)"
proof (cases "\<exists>x \<in> set (list_at now s k). x = v")
  case True
  then have "filter (\<lambda>x. x = v) (list_at now s k) \<noteq> []" by (simp add: filter_empty_conv)
  then show ?thesis by (simp add: LREM_def Let_def list_at_store_list)
next
  case False
  then show ?thesis by (simp add: LREM_def Let_def filter_empty_conv filter_id_conv)
qed

lemma fst_LREM_pos: "0 < fst (LREM now k v s) \<longleftrightarrow> v \<in> set (list_at now s k)"
  by (auto simp: LREM_def Let_def filter_empty_conv)

lemma HGET_HSET [redis_simps]:
  "HGET now (HSET now k f v s) k f' = (if f' = f then Some v else HGET now s k f')"
  by (simp add: HGET_def HSET_def hash_at_store_hash update_conv)

lemma HGET_HDEL [redis_simps]:
  "HGET now (HDEL now k f s) k f' = (if f' = f then None else HGET now s k f')"
  by (auto simp: HDEL_def HGET_def hash_at_store_hash delete_conv)

lemma set_zset_ZADD [redis_simps]:
  "set (zset_at now (ZADD now k i m s) k) = insert (i, m) {p \<in> set (zset_at now s k). snd p \<noteq> m}"
  by (simp add: ZADD_def zset_at_store_zset set_insort_key)

lemma zset_at_ZREM [redis_simps]:
  "zset_at now (ZREM now k m s) k = filter (\<lambda>p. snd p \<noteq> m) (zset_at now s k)"
  by (auto simp: ZREM_def zset_at_store_zset image_iff filter_id_conv intro!: filter_True [symmetric])

lemma collection_PEXPIREAT [redis_simps]:
  "zset_at now (PEXPIREAT now k t s) k = (if t \<le> now then [] else zset_at now s k)"
  "hash_at now (PEXPIREAT now k t s) k = (if t \<le> now then [] else hash_at now s k)"
  "list_at now (PEXPIREAT now k t s) k = (if t \<le> now then [] else list_at now s k)"
  by (auto simp: PEXPIREAT_def zset_at_def hash_at_def list_at_def peek_put peek_DEL
      split: option.splits rval.splits)


text \<open>What a write at \<open>now\<close> leaves for reads at a later instant \<open>n\<close>: collections keep their
  expiry when their contents change, and lose or gain nothing else.\<close>

lemma live_later: "now \<le> n \<Longrightarrow> live n e \<Longrightarrow> live now e"
  by (cases e) auto

lemma peek_later_None: "now \<le> n \<Longrightarrow> peek now s k = None \<Longrightarrow> peek n s k = None"
  by (metis not_None_eq peek_mono)

lemma zset_at_store_later:
  "now \<le> n \<Longrightarrow> zset_at n (store_zset now k z s) k = (if live n (expiry_at now s k) then z else [])"
  by (simp add: zset_at_def store_zset_def peek_put peek_DEL)

lemma zset_at_later:
  "now \<le> n \<Longrightarrow> zset_at n s k = (if live n (expiry_at now s k) then zset_at now s k else [])"
  by (auto simp: zset_at_def expiry_at_def peek_def dest: live_later split: option.splits if_splits rval.splits)

lemma zset_at_ZREM_later:
  assumes "now \<le> n"
  shows "zset_at n (ZREM now k m s) k = filter (\<lambda>p. snd p \<noteq> m) (zset_at n s k)"
proof (cases "m \<in> snd ` set (zset_at now s k)")
  case True
  then show ?thesis
    by (simp add: ZREM_def zset_at_later [OF assms, of s k] zset_at_store_later [OF assms])
next
  case False
  then have "filter (\<lambda>p. snd p \<noteq> m) (zset_at n s k) = zset_at n s k"
    using zset_at_later [OF assms, of s k] by (auto intro!: filter_True)
  with False show ?thesis by (simp add: ZREM_def)
qed

lemma zset_at_PEXPIREAT_later:
  assumes "now \<le> n" "now < t"
  shows "zset_at n (PEXPIREAT now k t s) k = (if n \<le> t then zset_at now s k else [])"
  using assms
  by (auto simp: PEXPIREAT_def zset_at_def peek_put dest: peek_later_None split: option.splits rval.splits)

lemma GET_PEXPIREAT_later:
  assumes "now \<le> n" "now < t"
  shows "GET n (PEXPIREAT now k t s) k = (if n \<le> t then GET now s k else None)"
  using assms
  by (auto simp: PEXPIREAT_def GET_def peek_put dest: peek_later_None split: option.splits rval.splits)

lemma sorted_le_last: "sorted z \<Longrightarrow> p \<in> set z \<Longrightarrow> p \<le> last (z :: 'a :: linorder list)"
  by (induction z) auto

lemma insort_last:
  fixes x :: "'a :: linorder"
  shows "(\<And>y. y \<in> set z \<Longrightarrow> y < x) \<Longrightarrow> insort x z = z @ [x]"
  by (induction z) (auto simp: not_le [symmetric])

lemma sorted_filter_id: "sorted z \<Longrightarrow> sorted (filter P z)"
  using sorted_filter [of "\<lambda>x. x" z P] by simp

lemma ZMAX_ge:
  assumes "sorted (zset_at now s k)" "(d, i) \<in> set (zset_at now s k)"
  obtains m where "ZMAX now s k = Some m" "d \<le> m"
proof -
  from assms(2) have ne: "zset_at now s k \<noteq> []" by auto
  then have "ZMAX now s k = Some (fst (last (zset_at now s k)))"
    by (simp add: ZMAX_def split: list.splits)
  moreover have "(d, i) \<le> last (zset_at now s k)"
    using sorted_le_last [OF assms] .
  ultimately show ?thesis
    using that by (cases "last (zset_at now s k)") auto
qed

end
