(* ===== verification/BridgeTypes.thy ===== *)
theory BridgeTypes
  imports Json IsolationKeys RedisModel
begin

text \<open>
  Data of the remote code bridge: the records of \<^verbatim>\<open>service/src/bridge/store.ts\<close> and of the
  protocol it stores, the error codes, the Redis key families with one constructor per key
  function, and the pure helpers at the head of \<^verbatim>\<open>store.ts\<close>.

  Instants are milliseconds as \<open>int\<close>; an ISO time string and its \<^verbatim>\<open>Date.parse\<close> are the same
  instant. SHA-256 is symbolic: \<open>Sha256 s\<close> is the digest of \<open>s\<close>, equal digests have equal
  preimages.
\<close>

datatype digest = Sha256 jstr

section \<open>Error codes and records\<close>

datatype store_code =
    WORKER_OFFLINE | WORKER_UNAUTHORIZED | WORKER_BUSY | WORKER_QUEUE_FULL
  | WORKSPACE_QUEUE_TIMEOUT | ASSIGNMENT_EXPIRED | ASSIGNMENT_FENCED | ASSIGNMENT_NOT_FOUND
  | WORKER_FENCED | WORKER_QUARANTINED | WORKSPACE_QUARANTINED | WORKER_MISMATCH
  | ASSIGNMENT_INVALID | RESULT_INVALID

text \<open>What an operation throws: a \<^verbatim>\<open>BridgeStoreError\<close> with its code, or any other
  \<^verbatim>\<open>Error\<close> (an unavailable Redis, an invalid argument).\<close>

datatype bridge_error = StoreError store_code | PlainError

record worker_binding =
  bd_tenantId :: jstr
  bd_principalType :: jstr
  bd_principalId :: jstr

record registration =
  r_protocolVersion :: int
  r_workerId :: jstr
  r_incarnationId :: jstr
  r_capabilities :: json
  r_binding :: "worker_binding option"
  r_credentialId :: "jstr option"
  r_identityId :: "jstr option"

record ownership =
  assignmentId :: jstr
  workerId :: jstr
  incarnationId :: jstr
  workspaceFence :: "jstr option"
  workspaceLeaseSlot :: "nat option"
  generation :: int
  leaseTokenHash :: digest
  workerIdentityId :: "jstr option"
  expiresAt :: int
  runtimeSessionId :: "jstr option"
  durableRequestKey :: "jstr option"

datatype execution_kind = Sandbox | WorkspaceTool | WorkspaceProgrammatic

record assignment = ownership +
  protocolVersion :: int
  leaseToken :: jstr
  executionKind :: "execution_kind option"
  asgWorkspaceId :: "jstr option"
  request :: json

datatype outcome = Fulfilled json | Rejected jstr "jstr option"

record settlement =
  st_protocolVersion :: int
  st_generation :: int
  st_leaseToken :: jstr
  st_incarnationId :: jstr
  st_outcome :: outcome

definition is_rejected :: "settlement \<Rightarrow> bool" where
  "is_rejected s = (case st_outcome s of Rejected _ _ \<Rightarrow> True | Fulfilled _ \<Rightarrow> False)"

datatype request_state = Queued | Admitted | Completed | Failed | Cancelled

record durable_outcome =
  do_state :: request_state
  do_result :: "json option"
  do_error :: "(jstr \<times> jstr) option"
  do_settlement :: "settlement option"
  do_finishedAtMs :: int

record stored_request =
  rq_id :: jstr
  rq_key :: jstr
  rq_fingerprint :: digest
  rq_workerId :: jstr
  rq_tenantId :: jstr
  rq_requireTenantBinding :: bool
  rq_request :: json
  rq_registration :: registration
  rq_createdAtMs :: int
  rq_queueDeadlineAtMs :: int
  rq_executionTimeoutMs :: int
  rq_assignment :: "assignment option"
  rq_settlement :: "settlement option"
  rq_admittedAtMs :: "int option"
  rq_finishedAtMs :: "int option"
  rq_state :: request_state
  rq_cancelRequested :: bool
  rq_result :: "json option"
  rq_error :: "(jstr \<times> jstr) option"

text \<open>The JSON documents Redis holds, as the records they encode.\<close>

datatype bjson =
    JReg registration | JAsg assignment | JSet settlement | JOwn ownership
  | JReq stored_request | JOut durable_outcome | JDigest digest


section \<open>Keys\<close>

datatype bkey =
    WorkerKey jstr | StableIdentityKey jstr | CredentialIdentityKey jstr | PairingGenerationKey jstr
  | IncarnationKey jstr | RegGenerationKey jstr | RegGenerationIncarnationKey jstr | ReadyKey jstr
  | IncarnationFenceKey jstr jstr | QuarantineKey jstr jstr
  | WsQuarantineKey jstr digest | WsEpochKey jstr digest | WsLanesKey jstr digest
  | QueueKey jstr jstr "nat option" | LeaseClaimKey jstr jstr "nat option" | LeaseAckKey jstr jstr "nat option"
  | GenerationKey jstr | LockKey jstr | LockIncarnationKey jstr
  | AssignmentKey jstr | SettlementKey jstr | DeadlineKey jstr | CancellationKey jstr
  | FenceReceiptKey jstr | NoWorkspaceKey jstr
  | SlotsKey jstr | SlotCapacityKey jstr
  | AdmissionKey jstr | AdmissionDeadlinesKey jstr | AdmissionSequenceKey jstr | AdmissionWorkspacesKey jstr
  | RequestKey jstr | RequestClaimKey jstr | RequestCommittedKey jstr jstr | ActiveKey jstr

type_synonym bstore = "(bkey, bjson) redis"

definition tokenHash :: "jstr \<Rightarrow> digest" where
  "tokenHash token = Sha256 token"

definition workspaceQuarantineKey :: "jstr \<Rightarrow> jstr \<Rightarrow> bkey" where
  "workspaceQuarantineKey w runtimeSession = WsQuarantineKey w (Sha256 runtimeSession)"

definition workspaceEpochKey :: "jstr \<Rightarrow> jstr \<Rightarrow> bkey" where
  "workspaceEpochKey w runtimeSession = WsEpochKey w (Sha256 runtimeSession)"

definition workspaceLaneFenceIndexKey :: "jstr \<Rightarrow> jstr \<Rightarrow> bkey" where
  "workspaceLaneFenceIndexKey w runtimeSession = WsLanesKey w (Sha256 runtimeSession)"

text \<open>\<^verbatim>\<open>`${incarnationId}:${registrationGeneration}`\<close>: generations are positive, so the
  decimal rendering is that of a natural number.\<close>

definition workerReadyToken :: "jstr \<Rightarrow> int \<Rightarrow> jstr" where
  "workerReadyToken inc gen = inc @ js '':'' @ show_nat (nat gen)"


section \<open>Fences\<close>

definition NATIVE_WORKSPACE_FENCE_PREFIX :: jstr where
  "NATIVE_WORKSPACE_FENCE_PREFIX = js ''native-workspace:''"

definition workspaceFenceParent :: "jstr \<Rightarrow> jstr option" where
  "workspaceFenceParent fence =
     (if \<not> startsWith fence NATIVE_WORKSPACE_FENCE_PREFIX then None
      else map_option (\<lambda>p. NATIVE_WORKSPACE_FENCE_PREFIX @ p)
             (workspaceIsolationParent (sliceFrom fence (length NATIVE_WORKSPACE_FENCE_PREFIX))))"

definition assignmentWorkspace :: "'a ownership_scheme \<Rightarrow> jstr option" where
  "assignmentWorkspace a =
     (case workspaceFence a of Some f \<Rightarrow> Some f | None \<Rightarrow> runtimeSessionId a)"

definition workspaceAdmissionId :: "jstr \<Rightarrow> jstr option \<Rightarrow> jstr option \<Rightarrow> jstr" where
  "workspaceAdmissionId ws inst wt = workspaceIsolationKey ws inst wt"


section \<open>Deadlines\<close>

definition ceil_div :: "int \<Rightarrow> int \<Rightarrow> int" where
  "ceil_div a b = - ((- a) div b)"

definition assignmentTtlSeconds :: "int \<Rightarrow> int \<Rightarrow> int" where
  "assignmentTtlSeconds dateNow deadlineAtMs = max 1 (ceil_div (deadlineAtMs - dateNow) 1000 + 30)"

definition assignmentOutcomeTtlSeconds :: "int \<Rightarrow> 'a ownership_scheme \<Rightarrow> int" where
  "assignmentOutcomeTtlSeconds dateNow a =
     (case durableRequestKey a of None \<Rightarrow> assignmentTtlSeconds dateNow (expiresAt a)
      | Some _ \<Rightarrow> 24 * 60 * 60)"

definition assertDispatchActive :: "bool \<Rightarrow> int \<Rightarrow> int \<Rightarrow> (bridge_error, unit) result" where
  "assertDispatchActive aborted dateNow deadlineAtMs =
     (if aborted \<or> dateNow \<ge> deadlineAtMs then Err (StoreError ASSIGNMENT_EXPIRED) else Ok ())"

text \<open>An expired deadline before the enqueue attempt of workspace work is a queue timeout.\<close>

definition classifyPreEnqueueExpiry :: "bool \<Rightarrow> bool \<Rightarrow> bridge_error \<Rightarrow> bridge_error" where
  "classifyPreEnqueueExpiry isWorkspace aborted e =
     (if isWorkspace \<and> \<not> aborted \<and> e = StoreError ASSIGNMENT_EXPIRED
      then StoreError WORKSPACE_QUEUE_TIMEOUT else e)"

lemma ceil_div_ge: "0 < b \<Longrightarrow> a \<le> ceil_div a b * b"
proof -
  assume b: "0 < b"
  have "(- a) div b * b + (- a) mod b = - a" by (rule div_mult_mod_eq)
  moreover have "0 \<le> (- a) mod b" using b by simp
  ultimately have "(- a) div b * b \<le> - a" by linarith
  then show ?thesis by (simp add: ceil_div_def)
qed

lemma assignmentTtlSeconds_pos: "1 \<le> assignmentTtlSeconds now d"
  by (simp add: assignmentTtlSeconds_def)

lemma assignmentTtlSeconds_covers: "d + 30000 \<le> now + assignmentTtlSeconds now d * 1000"
proof -
  have "d - now \<le> ceil_div (d - now) 1000 * 1000" by (rule ceil_div_ge) simp
  moreover have "ceil_div (d - now) 1000 + 30 \<le> assignmentTtlSeconds now d"
    by (simp add: assignmentTtlSeconds_def)
  ultimately show ?thesis by linarith
qed

lemma startsWith_fence [simp]:
  "startsWith (NATIVE_WORKSPACE_FENCE_PREFIX @ k) NATIVE_WORKSPACE_FENCE_PREFIX"
  by simp

lemma workspaceFenceParent_native:
  "workspaceFenceParent (NATIVE_WORKSPACE_FENCE_PREFIX @ k) =
     map_option (\<lambda>p. NATIVE_WORKSPACE_FENCE_PREFIX @ p) (workspaceIsolationParent k)"
  by (simp add: workspaceFenceParent_def sliceFrom_def)

end
