(* ===== verification/Capabilities.thy ===== *)
theory Capabilities
  imports BridgeTypes
begin

text \<open>
  Capability matching of \<^verbatim>\<open>service/src/bridge/store.ts\<close>: whether a registered worker's
  advertised \<^verbatim>\<open>workspaceTools\<close> cover a workspace request or a programmatic execution, and
  the accessors that read an execution body. Capabilities, requests and bodies are JSON values, read
  with the operators the source uses.
\<close>

text \<open>Optional chaining \<^verbatim>\<open>v?.k\<close>, and \<^verbatim>\<open>v == null\<close>.\<close>

definition chain :: "json option \<Rightarrow> string \<Rightarrow> json option" where
  "chain v k = (case v of None \<Rightarrow> None | Some x \<Rightarrow> fld x k)"

definition nullish :: "json option \<Rightarrow> bool" where
  "nullish v \<longleftrightarrow> v = None \<or> v = Some JNull"

definition elems :: "json option \<Rightarrow> json list" where
  "elems v = (case v of Some (JArr l) \<Rightarrow> l | _ \<Rightarrow> [])"

definition arr_includes_opt :: "json option \<Rightarrow> json option \<Rightarrow> bool" where
  "arr_includes_opt xs v = (case v of None \<Rightarrow> False | Some x \<Rightarrow> arr_includes xs x)"

text \<open>\<^verbatim>\<open>isWorkspaceMutationOperation\<close>.\<close>

definition isWorkspaceMutationOperation :: "json option \<Rightarrow> bool" where
  "isWorkspaceMutationOperation operation \<longleftrightarrow>
     is_lit operation ''write_file'' \<or> is_lit operation ''edit_file''
     \<or> is_lit operation ''execute_command'' \<or> is_lit operation ''import_file''"

definition isWorkspaceMutation :: "json \<Rightarrow> bool" where
  "isWorkspaceMutation req = isWorkspaceMutationOperation (fld req ''operation'')"

definition find_workspace :: "json option \<Rightarrow> json option \<Rightarrow> json option" where
  "find_workspace capabilities wid =
     find (\<lambda>candidate. fld candidate ''id'' = wid) (elems (chain capabilities ''workspaces''))"

definition supports_edit :: "json option \<Rightarrow> json \<Rightarrow> bool" where
  "supports_edit capabilities req =
     (let mode = (if fld req ''edits'' = None then ''single'' else ''batch'');
          modes = chain capabilities ''editFileModes'';
          supportsMode = (if nullish modes then mode = ''single'' else arr_includes modes (JStr (js mode)));
          features = chain capabilities ''editFileFeatures'';
          supportsMatching = (fld req ''matching'' = None \<or> arr_includes features (JStr (js ''tolerant_match'')));
          supportsReplaceAll =
            (\<not> list_ex (\<lambda>e. fld e ''replaceAll'' \<noteq> None) (elems (fld req ''edits''))
             \<or> arr_includes features (JStr (js ''replace_all'')))
      in if is_lit (fld req ''operation'') ''preview_edit''
         then supportsMode \<and> supportsMatching \<and> supportsReplaceAll
         else supportsMode \<and> supportsMatching \<and> supportsReplaceAll
              \<and> (fld req ''expectedBaseSha256'' = None
                 \<or> arr_includes features (JStr (js ''expected_base_sha256''))))"

definition supportsWorkspaceTool :: "registration \<Rightarrow> json \<Rightarrow> bool" where
  "supportsWorkspaceTool reg req =
     (let capabilities = fld (r_capabilities reg) ''workspaceTools'';
          workspace = find_workspace capabilities (fld req ''workspaceId'');
          operation = fld req ''operation'';
          supportsOperation =
            (capabilities \<noteq> None
             \<and> arr_includes_opt (chain capabilities ''operations'') operation
             \<and> workspace \<noteq> None
             \<and> (nullish (chain workspace ''operations'')
                \<or> arr_includes_opt (chain workspace ''operations'') operation))
      in if \<not> supportsOperation then False
         else if fld req ''workspaceInstanceId'' \<noteq> None
              \<and> \<not> arr_includes (chain workspace ''workspaceInstances'') (JStr (js ''git_worktree'')) then False
         else if fld req ''worktree'' \<noteq> None
              \<and> \<not> arr_includes (chain workspace ''workspaceScopes'') (JStr (js ''git_linked_worktree'')) then False
         else if is_lit operation ''list_files'' \<and> fld req ''afterPath'' \<noteq> None
         then arr_includes (chain capabilities ''listFileFeatures'') (JStr (js ''after_path''))
         else if is_lit operation ''write_file''
         then let mode = (if fld req ''overwrite'' = Some (JBool False) then ''create'' else ''replace'');
                  modes = chain capabilities ''writeFileModes''
              in if fld req ''overwrite'' = None \<and> nullish modes then True
                 else arr_includes modes (JStr (js mode))
         else if is_lit operation ''preview_edit'' \<or> is_lit operation ''edit_file''
         then supports_edit capabilities req
         else True)"

definition supportsWorkspaceProgrammatic ::
  "registration \<Rightarrow> jstr \<Rightarrow> json option \<Rightarrow> jstr option \<Rightarrow> jstr option \<Rightarrow> bool" where
  "supportsWorkspaceProgrammatic reg wid language inst worktree =
     (let capabilities = fld (r_capabilities reg) ''workspaceTools'';
          workspace = find_workspace capabilities (Some (JStr wid))
      in workspace \<noteq> None
         \<and> (inst = None \<or> arr_includes (chain workspace ''workspaceInstances'') (JStr (js ''git_worktree'')))
         \<and> (worktree = None \<or> arr_includes (chain workspace ''workspaceScopes'') (JStr (js ''git_linked_worktree'')))
         \<and> arr_includes (chain capabilities ''operations'') (JStr (js ''execute_command''))
         \<and> (nullish (chain workspace ''operations'')
            \<or> arr_includes (chain workspace ''operations'') (JStr (js ''execute_command'')))
         \<and> arr_includes_opt (chain capabilities ''programmaticLanguages'') language)"

definition workspaceInstanceId :: "json \<Rightarrow> jstr option" where
  "workspaceInstanceId body = (if is_object body then str_of (fld body ''workspace_instance_id'') else None)"

definition workspaceWorktree :: "json \<Rightarrow> jstr option" where
  "workspaceWorktree body = (if is_object body then str_of (fld body ''workspace_worktree'') else None)"

text \<open>\<^verbatim>\<open>capabilities.workspaceLeaseSlots ?? 1\<close>, \<^verbatim>\<open>capabilities.requiresReadyConfirmation\<close>
  and \<^verbatim>\<open>capabilities.statefulWorkspace\<close>.\<close>

definition lease_slots :: "registration \<Rightarrow> int" where
  "lease_slots reg =
     (case fld (r_capabilities reg) ''workspaceLeaseSlots'' of Some (JInt n) \<Rightarrow> n | _ \<Rightarrow> 1)"

definition requires_ready :: "registration \<Rightarrow> bool" where
  "requires_ready reg \<longleftrightarrow> fld (r_capabilities reg) ''requiresReadyConfirmation'' = Some (JBool True)"

definition stateful_workspace :: "registration \<Rightarrow> bool" where
  "stateful_workspace reg \<longleftrightarrow> fld (r_capabilities reg) ''statefulWorkspace'' = Some (JBool True)"

end
