(* ===== verification/Text.thy ===== *)
theory Text
  imports Json
begin

text \<open>
  Strings as the validators of \<^verbatim>\<open>packages/code/src/protocol.ts\<close> see them: UTF-16 code units, their
  UTF-8 encoding (\<^verbatim>\<open>TextEncoder\<close>, \<^verbatim>\<open>Buffer.from\<close>), the round trip
  \<^verbatim>\<open>Buffer.from(s).toString('utf8')\<close>, \<^verbatim>\<open>trim\<close>, and the character classes of the regular
  expressions. What the Unicode character database decides (case folding, ignorable and unprintable
  code points) and the hexadecimal SHA-256 digest of the platform's crypto module are a parameter, the
  record \<open>host\<close>.
\<close>

section \<open>Surrogates and UTF-8\<close>

definition is_high :: "nat \<Rightarrow> bool" where "is_high c \<longleftrightarrow> 0xD800 \<le> c \<and> c \<le> 0xDBFF"
definition is_low :: "nat \<Rightarrow> bool" where "is_low c \<longleftrightarrow> 0xDC00 \<le> c \<and> c \<le> 0xDFFF"

definition code_point :: "nat \<Rightarrow> nat \<Rightarrow> nat" where
  "code_point hi lo = 0x10000 + (hi - 0xD800) * 0x400 + (lo - 0xDC00)"

definition utf8_2 :: "nat \<Rightarrow> nat list" where
  "utf8_2 c = [0xC0 + c div 0x40, 0x80 + c mod 0x40]"

definition utf8_3 :: "nat \<Rightarrow> nat list" where
  "utf8_3 c = [0xE0 + c div 0x1000, 0x80 + c div 0x40 mod 0x40, 0x80 + c mod 0x40]"

definition utf8_4 :: "nat \<Rightarrow> nat list" where
  "utf8_4 c = [0xF0 + c div 0x40000, 0x80 + c div 0x1000 mod 0x40, 0x80 + c div 0x40 mod 0x40, 0x80 + c mod 0x40]"

text \<open>A lone surrogate is encoded as U+FFFD.\<close>

fun utf8 :: "jstr \<Rightarrow> nat list" where
  "utf8 [] = []"
| "utf8 [c] = (if c < 0x80 then [c] else if c < 0x800 then utf8_2 c
               else if is_high c \<or> is_low c then utf8_3 0xFFFD else utf8_3 c)"
| "utf8 (c # d # cs) =
     (if is_high c \<and> is_low d then utf8_4 (code_point c d) @ utf8 cs
      else (if c < 0x80 then [c] else if c < 0x800 then utf8_2 c
            else if is_high c \<or> is_low c then utf8_3 0xFFFD else utf8_3 c) @ utf8 (d # cs))"

text \<open>Decoding of the sequences an encoder produces; other input yields U+FFFD per byte.\<close>

fun utf8_decode :: "nat list \<Rightarrow> jstr" where
  "utf8_decode [] = []"
| "utf8_decode (b # bs) =
     (if b < 0x80 then b # utf8_decode bs
      else if b < 0xE0 then
        (case bs of b1 # r \<Rightarrow> ((b - 0xC0) * 0x40 + (b1 - 0x80)) # utf8_decode r | _ \<Rightarrow> [0xFFFD])
      else if b < 0xF0 then
        (case bs of b1 # b2 # r \<Rightarrow>
           ((b - 0xE0) * 0x1000 + (b1 - 0x80) * 0x40 + (b2 - 0x80)) # utf8_decode r | _ \<Rightarrow> [0xFFFD])
      else
        (case bs of b1 # b2 # b3 # r \<Rightarrow>
           (let c = (b - 0xF0) * 0x40000 + (b1 - 0x80) * 0x1000 + (b2 - 0x80) * 0x40 + (b3 - 0x80) - 0x10000
            in (0xD800 + c div 0x400) # (0xDC00 + c mod 0x400) # utf8_decode r) | _ \<Rightarrow> [0xFFFD]))"

definition byteLength :: "jstr \<Rightarrow> int" where
  "byteLength s = int (length (utf8 s))"

text \<open>\<^verbatim>\<open>Buffer.from(s).toString('utf8') === s\<close>.\<close>

definition utf8_stable :: "jstr \<Rightarrow> bool" where
  "utf8_stable s \<longleftrightarrow> utf8_decode (utf8 s) = s"

text \<open>No lone surrogates: what the test means.\<close>

fun well_formed :: "jstr \<Rightarrow> bool" where
  "well_formed [] = True"
| "well_formed [c] = (\<not> is_high c \<and> \<not> is_low c)"
| "well_formed (c # d # cs) =
     (if is_high c then is_low d \<and> well_formed cs else \<not> is_low c \<and> well_formed (d # cs))"

text \<open>JavaScript code units.\<close>

definition units :: "jstr \<Rightarrow> bool" where
  "units s \<longleftrightarrow> list_all (\<lambda>c. c < 0x10000) s"

section \<open>Character classes\<close>

text \<open>White space and line terminators of ECMAScript, as \<^verbatim>\<open>trim\<close> removes them.\<close>

definition is_space :: "nat \<Rightarrow> bool" where
  "is_space c \<longleftrightarrow> 9 \<le> c \<and> c \<le> 13 \<or> c = 32 \<or> c = 0xA0 \<or> c = 0x1680 \<or> 0x2000 \<le> c \<and> c \<le> 0x200A
     \<or> c = 0x2028 \<or> c = 0x2029 \<or> c = 0x202F \<or> c = 0x205F \<or> c = 0x3000 \<or> c = 0xFEFF"

definition trim :: "jstr \<Rightarrow> jstr" where
  "trim s = rev (dropWhile is_space (rev (dropWhile is_space s)))"

definition has_nul_cr_lf :: "jstr \<Rightarrow> bool" where
  "has_nul_cr_lf s = list_ex (\<lambda>c. c = 0 \<or> c = 13 \<or> c = 10) s"

definition is_letter :: "nat \<Rightarrow> bool" where
  "is_letter c \<longleftrightarrow> 65 \<le> c \<and> c \<le> 90 \<or> 97 \<le> c \<and> c \<le> 122"

record host =
  h_lower :: "jstr \<Rightarrow> jstr"
  h_ignorable :: "nat \<Rightarrow> bool"
  h_unprintable :: "nat \<Rightarrow> bool"
  h_sha256 :: "jstr \<Rightarrow> jstr"

text \<open>The code points of a string with the units each is made of, as a regular expression with the
  \<^verbatim>\<open>u\<close> flag visits them.\<close>

fun code_points :: "jstr \<Rightarrow> (nat \<times> jstr) list" where
  "code_points [] = []"
| "code_points [c] = [(c, [c])]"
| "code_points (c # d # cs) =
     (if is_high c \<and> is_low d then (code_point c d, [c, d]) # code_points cs
      else (c, [c]) # code_points (d # cs))"

section \<open>Facts\<close>

lemmas surrogate_defs = is_high_def is_low_def code_point_def

lemma split_64: "(c :: nat) = c div 0x40 * 0x40 + c mod 0x40" "c div 0x1000 = c div 0x40 div 0x40"
    "c div 0x40000 = c div 0x40 div 0x40 div 0x40"
  by (simp_all add: div_mult2_eq [symmetric])

lemma decode_2:
  assumes "0x80 \<le> c" "c < 0x800" shows "utf8_decode (utf8_2 c @ r) = c # utf8_decode r"
proof -
  have "c div 0x40 < 32" using assms(2) by auto
  then show ?thesis by (simp add: utf8_2_def)
qed

lemma decode_3:
  assumes "c < 0x10000" shows "utf8_decode (utf8_3 c @ r) = c # utf8_decode r"
proof -
  have "c div 0x1000 < 16" using assms by auto
  moreover have "c div 0x1000 * 0x1000 + c div 0x40 mod 0x40 * 0x40 + c mod 0x40 = c"
    using split_64(1) [of c] split_64(1) [of "c div 0x40"] unfolding split_64(2) by linarith
  ultimately show ?thesis by (simp add: utf8_3_def)
qed

lemma decode_4:
  assumes "is_high c" "is_low d"
  shows "utf8_decode (utf8_4 (code_point c d) @ r) = c # d # utf8_decode r"
proof -
  define p where "p = code_point c d"
  have "p div 0x40000 * 0x40000 + p div 0x1000 mod 0x40 * 0x1000 + p div 0x40 mod 0x40 * 0x40 + p mod 0x40 = p"
    using split_64(1) [of p] split_64(1) [of "p div 0x40"] split_64(1) [of "p div 0x40 div 0x40"]
    unfolding split_64(2,3) by linarith
  moreover define u v where "u = c - 0xD800" and "v = d - 0xDC00"
  have cd: "c = 0xD800 + u" "d = 0xDC00 + v" "v < 0x400"
    using assms by (auto simp: u_def v_def is_high_def is_low_def)
  have "p - 0x10000 = u * 0x400 + v" by (simp add: p_def code_point_def u_def v_def)
  then have "0xD800 + (p - 0x10000) div 0x400 = c" "0xDC00 + (p - 0x10000) mod 0x400 = d"
    using cd by auto
  ultimately show ?thesis unfolding p_def [symmetric] by (simp add: utf8_4_def Let_def)
qed


text \<open>The round trip replaces exactly the lone surrogates.\<close>

definition scrub1 :: "nat \<Rightarrow> nat" where
  "scrub1 c = (if is_high c \<or> is_low c then 0xFFFD else c)"

fun scrub :: "jstr \<Rightarrow> jstr" where
  "scrub [] = []"
| "scrub [c] = [scrub1 c]"
| "scrub (c # d # cs) = (if is_high c \<and> is_low d then c # d # scrub cs else scrub1 c # scrub (d # cs))"

lemma decode_unit:
  assumes "c < 0x10000"
  shows "utf8_decode ((if c < 0x80 then [c] else if c < 0x800 then utf8_2 c
      else if is_high c \<or> is_low c then utf8_3 0xFFFD else utf8_3 c) @ r) = scrub1 c # utf8_decode r"
proof -
  have "c < 0x80 \<or> c < 0x800 \<Longrightarrow> \<not> is_high c \<and> \<not> is_low c" by (auto simp: surrogate_defs)
  with assms show ?thesis by (simp add: scrub1_def decode_2 decode_3)
qed

lemma decode_utf8: "units s \<Longrightarrow> utf8_decode (utf8 s) = scrub s"
proof (induction s rule: utf8.induct)
  case (2 c)
  then have "c < 0x10000" by (simp add: units_def)
  from decode_unit [OF this, of "[]"] show ?case
    unfolding utf8.simps scrub.simps append_Nil2 by (simp only: utf8_decode.simps(1))
next
  case (3 c d cs)
  then have u: "c < 0x10000" "units (d # cs)" "units cs" by (simp_all add: units_def)
  show ?case
  proof (cases "is_high c \<and> is_low d")
    case True
    then show ?thesis using 3 u by (simp add: decode_4)
  next
    case False
    with decode_unit [OF u(1), of "utf8 (d # cs)"] 3(2) [OF False u(2)] show ?thesis
      unfolding utf8.simps(3) scrub.simps(3) by (simp only: if_False)
  qed
qed simp

lemma scrub_id: "scrub s = s \<longleftrightarrow> well_formed s"
proof (induction s rule: well_formed.induct)
  case (3 c d cs)
  have "scrub1 c = c \<longleftrightarrow> \<not> is_high c \<and> \<not> is_low c" by (auto simp: scrub1_def surrogate_defs)
  moreover have "is_high c \<Longrightarrow> \<not> is_low c" by (auto simp: surrogate_defs)
  ultimately show ?case using 3 by auto
qed (auto simp: scrub1_def surrogate_defs)

lemma utf8_stable_iff: "units s \<Longrightarrow> utf8_stable s \<longleftrightarrow> well_formed s"
  by (simp add: utf8_stable_def decode_utf8 scrub_id)

lemma utf8_stable_inject: "utf8_stable s \<Longrightarrow> utf8_stable t \<Longrightarrow> utf8 s = utf8 t \<longleftrightarrow> s = t"
  unfolding utf8_stable_def by metis

lemma length_utf8:
  "length s \<le> length (utf8 s)" "length (utf8 s) \<le> 3 * length s"
  by (induction s rule: utf8.induct) (auto simp: utf8_2_def utf8_3_def utf8_4_def)

lemma byteLength_bounds: "int (length s) \<le> byteLength s" "byteLength s \<le> 3 * int (length s)"
  using length_utf8 [of s] by (auto simp: byteLength_def)

end
