(* ===== verification/Paths.thy ===== *)
theory Paths
  imports Text "HOL-Library.List_Lexorder"
begin

text \<open>
  Portable paths and artifact names of \<^verbatim>\<open>packages/code/src/protocol.ts\<close>: which relative paths a
  worker accepts, their normal form, the depth-first order of listings, containment in a requested
  directory, the aliases of \<^verbatim>\<open>.git\<close> an import must not write, and the artifact policy.
\<close>

definition BRIDGE_WORKSPACE_PATH_MAX_LENGTH :: nat where "BRIDGE_WORKSPACE_PATH_MAX_LENGTH = 4096"

definition SLASH :: nat where "SLASH = 47"

section \<open>Relative paths\<close>

definition has_drive :: "jstr \<Rightarrow> bool" where
  "has_drive s = (case s of a # b # _ \<Rightarrow> is_letter a \<and> b = 58 | _ \<Rightarrow> False)"

definition isSafePortableRelativePath :: "json option \<Rightarrow> bool" where
  "isSafePortableRelativePath v =
     (case v of Some (JStr s) \<Rightarrow>
        \<not> (length s = 0 \<or> BRIDGE_WORKSPACE_PATH_MAX_LENGTH < length s \<or> \<not> utf8_stable s
           \<or> 0 \<in> set s \<or> 92 \<in> set s \<or> startsWith s (js ''/'') \<or> has_drive s)
        \<and> list_all (\<lambda>segment. segment \<noteq> js ''..'') (split_on SLASH s)
      | _ \<Rightarrow> False)"

definition path_segments :: "jstr \<Rightarrow> jstr list" where
  "path_segments s = filter (\<lambda>segment. 0 < length segment \<and> segment \<noteq> js ''.'') (split_on SLASH s)"

definition normalizePortableRelativePath :: "jstr \<Rightarrow> jstr" where
  "normalizePortableRelativePath s =
     (let r = join_with [SLASH] (path_segments s) in if r = [] then js ''.'' else r)"

fun compare_bytes :: "nat list \<Rightarrow> nat list \<Rightarrow> int" where
  "compare_bytes (x # xs) (y # ys) = (if x \<noteq> y then int x - int y else compare_bytes xs ys)"
| "compare_bytes xs ys = int (length xs) - int (length ys)"

fun compare_segments :: "jstr list \<Rightarrow> jstr list \<Rightarrow> int" where
  "compare_segments (l # ls) (r # rs) =
     (let d = compare_bytes (utf8 l) (utf8 r) in if d \<noteq> 0 then d else compare_segments ls rs)"
| "compare_segments ls rs = int (length ls) - int (length rs)"

definition comparePortableRelativePaths :: "jstr \<Rightarrow> jstr \<Rightarrow> int" where
  "comparePortableRelativePaths left right = compare_segments (split_on SLASH left) (split_on SLASH right)"

definition isWithinRequestedPath :: "jstr \<Rightarrow> jstr option \<Rightarrow> bool" where
  "isWithinRequestedPath candidate requested =
     (case requested of None \<Rightarrow> True
      | Some r \<Rightarrow>
          (let normalizedCandidate = normalizePortableRelativePath candidate;
               normalizedRequested = normalizePortableRelativePath r
           in normalizedRequested = js ''.'' \<or> normalizedCandidate = normalizedRequested
              \<or> startsWith normalizedCandidate (normalizedRequested @ [SLASH])))"

section \<open>Imports\<close>

text \<open>\<^verbatim>\<open>.replace(/[. ]+$/, '')\<close>.\<close>

definition strip_dots :: "jstr \<Rightarrow> jstr" where
  "strip_dots s = rev (dropWhile (\<lambda>c. c = 46 \<or> c = 32) (rev s))"

definition remove_ignorable :: "host \<Rightarrow> jstr \<Rightarrow> jstr" where
  "remove_ignorable H s = concat (map snd (filter (\<lambda>p. \<not> h_ignorable H (fst p)) (code_points s)))"

definition isDotGitPathSegment :: "host \<Rightarrow> jstr \<Rightarrow> bool" where
  "isDotGitPathSegment H segment =
     (let folded = strip_dots (remove_ignorable H (h_lower H (hd (split_on 58 segment))))
      in folded = js ''.git'' \<or> folded = js ''git~1'')"

definition isWorkspaceImportFilePath :: "host \<Rightarrow> json option \<Rightarrow> bool" where
  "isWorkspaceImportFilePath H v =
     (if \<not> isSafePortableRelativePath v then False
      else case v of Some (JStr s) \<Rightarrow>
        (let segments = split_on SLASH s
         in last segments \<noteq> [] \<and> last segments \<noteq> js ''.'' \<and> \<not> list_ex (isDotGitPathSegment H) segments)
      | _ \<Rightarrow> False)"

section \<open>Artifact names\<close>

definition BRIDGE_ARTIFACT_EXTENSIONS :: "string list" where
  "BRIDGE_ARTIFACT_EXTENSIONS =
    [''.c'', ''.cs'', ''.cpp'', ''.go'', ''.java'', ''.js'', ''.kt'', ''.kts'', ''.lua'',
     ''.php'', ''.pl'', ''.ps1'', ''.py'', ''.r'', ''.rb'', ''.rs'', ''.scala'', ''.sh'',
     ''.sql'', ''.swift'', ''.ts'', ''.jsx'', ''.tsx'', ''.groovy'', ''.css'', ''.htm'', ''.html'',
     ''.less'', ''.sass'', ''.scss'', ''.svg'', ''.svelte'', ''.vue'', ''.adoc'', ''.asciidoc'', ''.md'',
     ''.rst'', ''.tex'', ''.txt'', ''.wiki'', ''.csv'', ''.json'', ''.bson'', ''.json5'', ''.jsonl'',
     ''.parquet'', ''.tsv'', ''.xml'', ''.yaml'', ''.yml'', ''.ics'', ''.ical'', ''.ifb'', ''.icalendar'',
     ''.conf'', ''.env'', ''.gitignore'', ''.ini'', ''.properties'', ''.toml'', ''.doc'', ''.docx'', ''.pdf'',
     ''.ppt'', ''.pptx'', ''.xls'', ''.xlsx'', ''.odt'', ''.ods'', ''.odp'', ''.rtf'', ''.avif'',
     ''.bmp'', ''.gif'', ''.ico'', ''.jpeg'', ''.jpg'', ''.png'', ''.tif'', ''.tiff'', ''.webp'',
     ''.eot'', ''.ttf'', ''.woff'', ''.woff2'', ''.7z'', ''.bz2'', ''.gz'', ''.gzip'', ''.rar'',
     ''.tar'', ''.zip'', ''.tf'', ''.tfvars'', ''.tfstate'', ''.hcl'', ''.dockerfile'', ''.Dockerfile'', ''.dockerignore'',
     ''.helmignore'', ''.helmfile'', ''.jenkinsfile'', ''.vagrantfile'', ''.eslintrc'', ''.prettierrc'', ''.editorconfig'', ''.nomad'', ''.bat'',
     ''.cmd'', ''.deb'', ''.log'', ''.rpm'', ''.vbs'']"

definition artifact_extension :: "jstr \<Rightarrow> bool" where
  "artifact_extension s = (s \<in> set (map js BRIDGE_ARTIFACT_EXTENSIONS))"

definition portableBasename :: "jstr \<Rightarrow> jstr" where
  "portableBasename name = sliceFrom name (nat (lastIndexOf name SLASH + 1))"

definition isSupportedBridgeArtifactName :: "host \<Rightarrow> jstr \<Rightarrow> bool" where
  "isSupportedBridgeArtifactName H name =
     (let basename = portableBasename name in
      if basename = js ''.dirkeep'' then True
      else
        let dot = lastIndexOf basename 46;
            extension = (if dot > 0 then h_lower H (sliceFrom basename (nat dot)) else []);
            dottedBasename = js ''.'' @ basename
        in (extension \<noteq> [] \<and> artifact_extension extension)
           \<or> artifact_extension basename
           \<or> artifact_extension (h_lower H basename)
           \<or> (extension = [] \<and> (artifact_extension dottedBasename \<or> artifact_extension (h_lower H dottedBasename))))"

definition BRIDGE_ARTIFACT_MEDIA_TYPES :: "(string \<times> string) list" where
  "BRIDGE_ARTIFACT_MEDIA_TYPES =
    [(''.avif'', ''image/avif''), (''.bmp'', ''image/bmp''),
     (''.bz2'', ''application/x-bzip2''), (''.c'', ''text/x-c''),
     (''.conf'', ''text/plain''), (''.cpp'', ''text/x-c++src''),
     (''.css'', ''text/css''), (''.csv'', ''text/csv''),
     (''.doc'', ''application/msword''), (''.docx'', ''application/vnd.openxmlformats-officedocument.wordprocessingml.document''),
     (''.gif'', ''image/gif''), (''.gz'', ''application/gzip''),
     (''.gzip'', ''application/gzip''), (''.htm'', ''text/html''),
     (''.html'', ''text/html''), (''.ico'', ''image/x-icon''),
     (''.ics'', ''text/calendar''), (''.ifb'', ''text/calendar''),
     (''.ical'', ''text/calendar''), (''.icalendar'', ''text/calendar''),
     (''.ini'', ''text/plain''), (''.java'', ''text/x-java-source''),
     (''.jpeg'', ''image/jpeg''), (''.jpg'', ''image/jpeg''),
     (''.js'', ''text/javascript''), (''.json'', ''application/json''),
     (''.json5'', ''application/json5''), (''.jsonl'', ''application/x-ndjson''),
     (''.jsx'', ''text/jsx''), (''.log'', ''text/plain''),
     (''.md'', ''text/markdown''), (''.odt'', ''application/vnd.oasis.opendocument.text''),
     (''.ods'', ''application/vnd.oasis.opendocument.spreadsheet''), (''.odp'', ''application/vnd.oasis.opendocument.presentation''),
     (''.parquet'', ''application/vnd.apache.parquet''), (''.pdf'', ''application/pdf''),
     (''.png'', ''image/png''), (''.ppt'', ''application/vnd.ms-powerpoint''),
     (''.pptx'', ''application/vnd.openxmlformats-officedocument.presentationml.presentation''), (''.py'', ''text/x-python''),
     (''.rst'', ''text/x-rst''), (''.rtf'', ''application/rtf''),
     (''.sh'', ''application/x-sh''), (''.sql'', ''application/sql''),
     (''.svg'', ''image/svg+xml''), (''.tar'', ''application/x-tar''),
     (''.tex'', ''application/x-tex''), (''.tif'', ''image/tiff''),
     (''.tiff'', ''image/tiff''), (''.toml'', ''application/toml''),
     (''.ts'', ''text/typescript''), (''.tsx'', ''text/tsx''),
     (''.tsv'', ''text/tab-separated-values''), (''.txt'', ''text/plain''),
     (''.webp'', ''image/webp''), (''.woff'', ''font/woff''),
     (''.woff2'', ''font/woff2''), (''.xls'', ''application/vnd.ms-excel''),
     (''.xlsx'', ''application/vnd.openxmlformats-officedocument.spreadsheetml.sheet''), (''.xml'', ''application/xml''),
     (''.yaml'', ''application/yaml''), (''.yml'', ''application/yaml''),
     (''.zip'', ''application/zip'')]"

text \<open>The table is a plain object: a name outside it but on \<^verbatim>\<open>Object.prototype\<close> would not give a
  string. The lookup is modelled on its own keys.\<close>

definition bridgeArtifactMediaType :: "host \<Rightarrow> jstr \<Rightarrow> jstr" where
  "bridgeArtifactMediaType H name =
     (let basename = h_lower H (portableBasename name);
          dot = lastIndexOf basename 46;
          extension = (if dot > 0 then sliceFrom basename (nat dot) else basename)
      in case map_of (map (\<lambda>p. (js (fst p), js (snd p))) BRIDGE_ARTIFACT_MEDIA_TYPES) extension of
           Some t \<Rightarrow> t
         | None \<Rightarrow> js ''application/octet-stream'')"


section \<open>Facts\<close>

lemma less_Nil_iff: "[] < (xs :: 'a :: linorder list) \<longleftrightarrow> xs \<noteq> []"
  by (cases xs) auto

lemma compare_bytes_order:
  "(compare_bytes xs ys < 0 \<longleftrightarrow> xs < ys) \<and> (compare_bytes xs ys = 0 \<longleftrightarrow> xs = ys)"
  by (induction xs ys rule: compare_bytes.induct) (auto simp: neq_Nil_conv less_Nil_iff)

lemma compare_segments_order:
  "(compare_segments ls rs < 0 \<longleftrightarrow> map utf8 ls < map utf8 rs) \<and> (compare_segments ls rs = 0 \<longleftrightarrow> map utf8 ls = map utf8 rs)"
proof (induction ls rs rule: compare_segments.induct)
  case (1 l ls r rs)
  then show ?case using compare_bytes_order [of "utf8 l" "utf8 r"] by (auto simp: Let_def)
qed (auto simp: less_Nil_iff)

text \<open>The position of a path in a depth-first listing.\<close>

definition path_key :: "jstr \<Rightarrow> nat list list" where
  "path_key s = map utf8 (split_on SLASH s)"

lemma compare_paths_order:
  "comparePortableRelativePaths l r < 0 \<longleftrightarrow> path_key l < path_key r"
  "comparePortableRelativePaths l r = 0 \<longleftrightarrow> path_key l = path_key r"
  using compare_segments_order by (simp_all add: comparePortableRelativePaths_def path_key_def)

lemma compare_paths_le: "comparePortableRelativePaths l r \<le> 0 \<longleftrightarrow> path_key l \<le> path_key r"
  using compare_paths_order [of l r] by (auto simp: order_le_less)

lemma well_formed_split: "well_formed (p @ SLASH # q) \<longleftrightarrow> well_formed p \<and> well_formed q"
proof -
  have nosur: "\<not> is_high SLASH" "\<not> is_low SLASH" by (simp_all add: SLASH_def surrogate_defs)
  then have tail: "well_formed (SLASH # q) = well_formed q" by (cases q) auto
  show ?thesis
  proof (induction p rule: well_formed.induct)
    case (2 c)
    then show ?case using nosur tail by (auto simp: surrogate_defs)
  next
    case (3 c d cs)
    then show ?case by simp
  qed (simp add: tail)
qed

lemma path_segments_props: "p \<in> set (path_segments s) \<Longrightarrow> SLASH \<notin> set p \<and> p \<noteq> [] \<and> p \<noteq> js ''.''"
  by (auto simp: path_segments_def dest: split_on_no_sep)

lemma join_eq_Nil: "\<forall>p \<in> set ps. p \<noteq> [] \<Longrightarrow> join_with [c] ps = [] \<longleftrightarrow> ps = []"
  by (cases "([c], ps)" rule: join_with.cases) auto

lemma split_normalized:
  "path_segments s \<noteq> [] \<Longrightarrow> split_on SLASH (normalizePortableRelativePath s) = path_segments s"
  using path_segments_props [of _ s] join_eq_Nil [of "path_segments s" SLASH] split_join [of "path_segments s" SLASH]
  by (auto simp: normalizePortableRelativePath_def Let_def)

lemma normalized_root: "normalizePortableRelativePath s = js ''.'' \<longleftrightarrow> path_segments s = []"
proof
  assume dot: "normalizePortableRelativePath s = js ''.''"
  show "path_segments s = []"
  proof (rule ccontr)
    assume ne: "path_segments s \<noteq> []"
    have "split_on SLASH (js ''.'') = [js ''.'']" by (simp add: js_def SLASH_def)
    with split_normalized [OF ne] dot have "path_segments s = [js ''.'']" by simp
    with path_segments_props [of "js ''.''" s] show False by simp
  qed
qed (simp add: normalizePortableRelativePath_def)

lemma path_segments_normalize: "path_segments (normalizePortableRelativePath s) = path_segments s"
proof (cases "path_segments s = []")
  case True
  then have "normalizePortableRelativePath s = js ''.''" by (simp add: normalized_root)
  then show ?thesis using True by (simp add: path_segments_def js_def SLASH_def)
next
  case False
  have "filter (\<lambda>p. 0 < length p \<and> p \<noteq> js ''.'') (path_segments s) = path_segments s"
    by (simp add: path_segments_def)
  then show ?thesis
    by (subst path_segments_def) (simp only: split_normalized [OF False])
qed

lemma normalize_idem: "normalizePortableRelativePath (normalizePortableRelativePath s) = normalizePortableRelativePath s"
  unfolding normalizePortableRelativePath_def [of "normalizePortableRelativePath s"] path_segments_normalize
  by (simp add: normalizePortableRelativePath_def)

lemma join_append:
  "rs \<noteq> [] \<Longrightarrow> cs \<noteq> [] \<Longrightarrow> join_with [c] (rs @ cs) = join_with [c] rs @ c # join_with [c] cs"
  by (induction "[c]" rs rule: join_with.induct) (auto simp: neq_Nil_conv)

lemma split_on_append:
  "split_on c (a @ c # b) = split_on c a @ split_on c b"
  by (induction a) (auto split: list.splits)

text \<open>Containment is the prefix order on segments.\<close>

lemma within_iff_prefix:
  "isWithinRequestedPath candidate (Some r) \<longleftrightarrow> prefix (path_segments r) (path_segments candidate)"
proof (cases "path_segments r = []")
  case True
  then show ?thesis by (simp add: isWithinRequestedPath_def Let_def normalized_root)
next
  case R: False
  let ?nr = "normalizePortableRelativePath r" and ?nc = "normalizePortableRelativePath candidate"
  have nr: "?nr \<noteq> js ''.''" using R by (simp add: normalized_root)
  have eq: "?nc = ?nr \<longleftrightarrow> path_segments candidate = path_segments r"
    by (metis path_segments_normalize normalizePortableRelativePath_def)
  have "startsWith ?nc (?nr @ [SLASH]) \<longleftrightarrow> strict_prefix (path_segments r) (path_segments candidate)"
  proof
    assume "startsWith ?nc (?nr @ [SLASH])"
    then obtain t where t: "?nc = ?nr @ SLASH # t" by (auto elim: startsWithE)
    then have s: "split_on SLASH ?nc = path_segments r @ split_on SLASH t"
      by (simp add: split_on_append split_normalized [OF R])
    have "path_segments candidate \<noteq> []"
    proof
      assume "path_segments candidate = []"
      then have "?nc = js ''.''" by (simp add: normalized_root)
      with t show False by (cases ?nr) (auto simp: js_def SLASH_def)
    qed
    with s show "strict_prefix (path_segments r) (path_segments candidate)"
      by (simp add: split_normalized strict_prefix_def)
  next
    assume "strict_prefix (path_segments r) (path_segments candidate)"
    then obtain z zs where z: "path_segments candidate = path_segments r @ z # zs"
      by (rule strict_prefixE')
    then have "?nc = ?nr @ SLASH # join_with [SLASH] (z # zs)"
      using join_append [OF R, of "z # zs" SLASH] R path_segments_props [of _ r] join_eq_Nil [of "path_segments r" SLASH]
      by (auto simp: normalizePortableRelativePath_def Let_def)
    then show "startsWith ?nc (?nr @ [SLASH])" by (simp add: startsWith_iff_prefix prefix_def)
  qed
  with nr eq show ?thesis by (auto simp: isWithinRequestedPath_def Let_def prefix_order.le_less)
qed

section \<open>Properties\<close>

lemmas path_eval = isSafePortableRelativePath_def path_segments_def path_key_def utf8_stable_def
  is_high_def is_low_def js_def SLASH_def BRIDGE_WORKSPACE_PATH_MAX_LENGTH_def startsWith_def has_drive_def is_letter_def

text \<open>What a file system does with a relative path: a stack of directory names below the root; \<open>None\<close>
  when \<^verbatim>\<open>..\<close> would leave the root.\<close>

fun resolve :: "jstr list \<Rightarrow> jstr list \<Rightarrow> jstr list option" where
  "resolve st [] = Some st"
| "resolve st (x # xs) =
     (if x = [] \<or> x = js ''.'' then resolve st xs
      else if x = js ''..'' then (if st = [] then None else resolve (butlast st) xs)
      else resolve (st @ [x]) xs)"

lemma resolve_no_parent:
  "list_all (\<lambda>x. x \<noteq> js ''..'') xs \<Longrightarrow> resolve st xs = Some (st @ filter (\<lambda>x. 0 < length x \<and> x \<noteq> js ''.'') xs)"
  by (induction xs arbitrary: st) auto

text \<open>
  C38. An accepted path stays below the root: it is relative (no leading slash, no drive letter), has no
  NUL and no backslash, resolving it never leaves the root, and it resolves to the segments of its
  normal form, which is accepted again and is its own normal form.
\<close>

theorem safe_path_confined:
  assumes "isSafePortableRelativePath (Some (JStr s))"
  shows "resolve [] (split_on SLASH s) = Some (path_segments s)
    \<and> \<not> startsWith s [SLASH] \<and> \<not> has_drive s \<and> 0 \<notin> set s \<and> 92 \<notin> set s
    \<and> path_segments (normalizePortableRelativePath s) = path_segments s
    \<and> normalizePortableRelativePath (normalizePortableRelativePath s) = normalizePortableRelativePath s"
proof -
  have "js ''/'' = [SLASH]" by (simp add: js_def SLASH_def)
  moreover have "resolve [] (split_on SLASH s) = Some (path_segments s)"
    using assms resolve_no_parent [of "split_on SLASH s" "[]"]
    by (simp add: isSafePortableRelativePath_def path_segments_def)
  ultimately show ?thesis
    using assms by (simp add: isSafePortableRelativePath_def path_segments_normalize normalize_idem)
qed

theorem safe_path_confined_witness:
  "resolve [] (split_on SLASH (js ''a/./b//c'')) = Some [js ''a'', js ''b'', js ''c'']"
proof -
  have "isSafePortableRelativePath (Some (JStr (js ''a/./b//c'')))"
    by (simp add: path_eval)
  moreover have "path_segments (js ''a/./b//c'') = [js ''a'', js ''b'', js ''c'']"
    by (simp add: path_eval)
  ultimately show ?thesis using safe_path_confined by simp
qed

text \<open>
  Containment in a requested directory is the prefix order on path segments: \<^verbatim>\<open>a/bc\<close> is not within
  \<^verbatim>\<open>a/b\<close>, and redundant slashes and dots do not matter.
\<close>

theorem requested_containment:
  "isWithinRequestedPath candidate (Some r) \<longleftrightarrow> prefix (path_segments r) (path_segments candidate)"
  by (rule within_iff_prefix)

lemma utf8_append_slash: "utf8 (p @ SLASH # q) = utf8 p @ SLASH # utf8 q"
proof -
  have s: "SLASH < 0x80" "\<not> is_high SLASH" "\<not> is_low SLASH" by (simp_all add: SLASH_def surrogate_defs)
  have head: "utf8 (SLASH # q) = SLASH # utf8 q" using s by (cases q) auto
  show ?thesis
  proof (induction p rule: utf8.induct)
    case (2 c)
    then show ?case using s head by simp
  next
    case (3 c d cs)
    then show ?case by simp
  qed (simp add: head)
qed

lemma utf8_join: "utf8 (join_with [SLASH] ps) = join_with [SLASH] (map utf8 ps)"
  by (induction "[SLASH]" ps rule: join_with.induct) (simp_all add: utf8_append_slash)

lemma path_key_utf8: "join_with [SLASH] (path_key s) = utf8 s"
  using utf8_join [of "split_on SLASH s"] by (simp add: path_key_def join_split)

text \<open>
  C39. Listings have one order: comparing two paths is the lexicographic order on their segments'
  UTF-8 bytes, so it is a total order in which a directory sorts right before its contents, and two
  accepted paths compare equal only when they are the same string.
\<close>

theorem listing_order:
  "(comparePortableRelativePaths l r < 0 \<longleftrightarrow> path_key l < path_key r)
   \<and> (comparePortableRelativePaths l r > 0 \<longleftrightarrow> path_key r < path_key l)
   \<and> (comparePortableRelativePaths l r = 0 \<longleftrightarrow> path_key l = path_key r)
   \<and> (utf8_stable l \<and> utf8_stable r \<longrightarrow> (comparePortableRelativePaths l r = 0 \<longleftrightarrow> l = r))"
proof -
  have "path_key l = path_key r \<Longrightarrow> utf8 l = utf8 r" by (metis path_key_utf8)
  then have "utf8_stable l \<and> utf8_stable r \<Longrightarrow> path_key l = path_key r \<longleftrightarrow> l = r"
    using utf8_stable_inject by blast
  moreover have "comparePortableRelativePaths l r > 0 \<longleftrightarrow> path_key r < path_key l"
    using compare_paths_order [of l r]
    by (cases rule: linorder_cases [of "path_key l" "path_key r"]) (auto dest: order.asym)
  ultimately show ?thesis using compare_paths_order [of l r] by blast
qed

theorem listing_order_witness:
  "comparePortableRelativePaths (js ''a/b'') (js ''a-b'') < 0"
proof -
  have "utf8_stable (js ''a/b'') \<and> utf8_stable (js ''a-b'')" by (simp add: path_eval)
  moreover have "path_key (js ''a/b'') < path_key (js ''a-b'')" by (simp add: path_eval)
  ultimately show ?thesis using listing_order [of "js ''a/b''" "js ''a-b''"] by blast
qed


end
