(* ===== verification/Validators.thy ===== *)
theory Validators
  imports Paths IsolationKeys
begin

text \<open>
  The validators of \<^verbatim>\<open>packages/code/src/protocol.ts\<close> that guard the wire: workspace tool requests,
  the results a worker returns for them, the capabilities a worker registers, and programmatic
  executions. All are predicates on JSON values.
\<close>

section \<open>Limits and shared tests\<close>

definition BRIDGE_WORKSPACE_QUERY_MAX_LENGTH :: nat where "BRIDGE_WORKSPACE_QUERY_MAX_LENGTH = 4096"
definition BRIDGE_WORKSPACE_READ_MAX_BYTES :: int where "BRIDGE_WORKSPACE_READ_MAX_BYTES = 1024 * 1024"
definition BRIDGE_WORKSPACE_WRITE_MAX_BYTES :: int where "BRIDGE_WORKSPACE_WRITE_MAX_BYTES = 1024 * 1024"
definition BRIDGE_WORKSPACE_EDIT_MAX_EDITS :: nat where "BRIDGE_WORKSPACE_EDIT_MAX_EDITS = 100"
definition BRIDGE_WORKSPACE_READ_MAX_LINES :: int where "BRIDGE_WORKSPACE_READ_MAX_LINES = 500"
definition BRIDGE_WORKSPACE_SEARCH_MAX_RESULTS :: int where "BRIDGE_WORKSPACE_SEARCH_MAX_RESULTS = 200"
definition BRIDGE_WORKSPACE_SEARCH_TEXT_MAX_LENGTH :: int where "BRIDGE_WORKSPACE_SEARCH_TEXT_MAX_LENGTH = 2000"
definition BRIDGE_WORKSPACE_LIST_MAX_RESULTS :: int where "BRIDGE_WORKSPACE_LIST_MAX_RESULTS = 500"
definition BRIDGE_WORKSPACE_COMMAND_MAX_BYTES :: int where "BRIDGE_WORKSPACE_COMMAND_MAX_BYTES = 32 * 1024"
definition BRIDGE_WORKSPACE_COMMAND_MAX_TIMEOUT_MS :: int where "BRIDGE_WORKSPACE_COMMAND_MAX_TIMEOUT_MS = 5 * 60000"
definition BRIDGE_WORKSPACE_COMMAND_DEFAULT_OUTPUT_BYTES :: int where
  "BRIDGE_WORKSPACE_COMMAND_DEFAULT_OUTPUT_BYTES = 256 * 1024"
definition BRIDGE_WORKSPACE_COMMAND_MAX_OUTPUT_BYTES :: int where
  "BRIDGE_WORKSPACE_COMMAND_MAX_OUTPUT_BYTES = 1024 * 1024"
definition BRIDGE_WORKSPACE_COMMAND_SIGNAL_MAX_LENGTH :: nat where "BRIDGE_WORKSPACE_COMMAND_SIGNAL_MAX_LENGTH = 32"
definition BRIDGE_WORKSPACE_IMPORT_FILE_HANDLE_MAX_LENGTH :: nat where
  "BRIDGE_WORKSPACE_IMPORT_FILE_HANDLE_MAX_LENGTH = 32768"
definition BRIDGE_WORKSPACE_IMPORT_FILE_GRANT_MAX_LENGTH :: nat where
  "BRIDGE_WORKSPACE_IMPORT_FILE_GRANT_MAX_LENGTH = 256 * 1024"
definition REPOSITORY_INSTRUCTION_MAX_BYTES :: int where "REPOSITORY_INSTRUCTION_MAX_BYTES = 32 * 1024"

text \<open>\<^verbatim>\<open>v === undefined || P v\<close>, and \<^verbatim>\<open>v ?? d\<close> for numbers.\<close>

definition absent_or :: "(json option \<Rightarrow> bool) \<Rightarrow> json option \<Rightarrow> bool" where
  "absent_or P v \<longleftrightarrow> v = None \<or> P v"

definition int_or :: "int \<Rightarrow> json option \<Rightarrow> int" where
  "int_or d v = (case v of Some (JInt n) \<Rightarrow> n | _ \<Rightarrow> d)"

definition string_with :: "(jstr \<Rightarrow> bool) \<Rightarrow> json option \<Rightarrow> bool" where
  "string_with P v = (case v of Some (JStr s) \<Rightarrow> P s | _ \<Rightarrow> False)"

definition is_num :: "json option \<Rightarrow> int \<Rightarrow> bool" where
  "is_num v n \<longleftrightarrow> v = Some (JInt n)"

definition safe_int_from :: "int \<Rightarrow> json option \<Rightarrow> bool" where
  "safe_int_from lo v = safe_int_between lo MAX_SAFE_INTEGER v"

fun includes_str :: "jstr \<Rightarrow> jstr \<Rightarrow> bool" where
  "includes_str [] q = (q = [])"
| "includes_str (x # xs) q = (startsWith (x # xs) q \<or> includes_str xs q)"

text \<open>\<^verbatim>\<open>/^[A-Za-z0-9][A-Za-z0-9_-]{0,63}$/\<close>: environment action names.\<close>

definition is_action_name :: "jstr \<Rightarrow> bool" where
  "is_action_name s = (case s of [] \<Rightarrow> False
     | c # cs \<Rightarrow> is_alnum c \<and> length cs \<le> 63 \<and> list_all (\<lambda>d. is_alnum d \<or> d = 95 \<or> d = 45) cs)"

text \<open>\<^verbatim>\<open>/^SIG[A-Z0-9]+$/\<close>.\<close>

definition is_signal_name :: "jstr \<Rightarrow> bool" where
  "is_signal_name s \<longleftrightarrow> startsWith s (js ''SIG'') \<and> 3 < length s
     \<and> list_all (\<lambda>c. 65 \<le> c \<and> c \<le> 90 \<or> 48 \<le> c \<and> c \<le> 57) (drop 3 s)"

text \<open>\<^verbatim>\<open>/^[A-Za-z0-9_.-]+\/[A-Za-z0-9_.-]+$/\<close>: owner and repository.\<close>

definition is_repo_name :: "jstr \<Rightarrow> bool" where
  "is_repo_name s = (case split_on SLASH s of
       [a, b] \<Rightarrow> a \<noteq> [] \<and> b \<noteq> [] \<and> list_all (\<lambda>c. is_alnum c \<or> c = 95 \<or> c = 46 \<or> c = 45) (a @ b)
     | _ \<Rightarrow> False)"

section \<open>Git state of a lane\<close>

definition boundedBranch :: "host \<Rightarrow> json option \<Rightarrow> jstr option" where
  "boundedBranch H v =
     (case v of Some (JStr s) \<Rightarrow>
        if 0 < length s \<and> length s \<le> 256
           \<and> \<not> list_ex (\<lambda>p. fst p \<le> 31 \<or> fst p = 127 \<or> h_unprintable H (fst p)) (code_points s)
        then Some s else None
      | _ \<Rightarrow> None)"

definition boundedHead :: "json option \<Rightarrow> jstr option" where
  "boundedHead v =
     (case v of Some (JStr s) \<Rightarrow>
        if (length s = 40 \<or> length s = 64) \<and> list_all is_hex s then Some s else None
      | _ \<Rightarrow> None)"

definition isWorkspaceLaneGit :: "host \<Rightarrow> json \<Rightarrow> bool" where
  "isWorkspaceLaneGit H value \<longleftrightarrow>
     is_object value \<and> \<not> is_array value \<and> length (object_keys value) = 2
     \<and> js ''branch'' \<in> set (object_keys value) \<and> js ''head'' \<in> set (object_keys value)
     \<and> (fld value ''branch'' = Some JNull
        \<or> (fld value ''branch'' \<noteq> None \<and> map_option JStr (boundedBranch H (fld value ''branch'')) = fld value ''branch''))
     \<and> (fld value ''head'' = Some JNull
        \<or> (fld value ''head'' \<noteq> None \<and> map_option JStr (boundedHead (fld value ''head'')) = fld value ''head''))"

section \<open>Requests\<close>

definition WORKSPACE_READ_REQUEST_KEYS :: "string list" where
  "WORKSPACE_READ_REQUEST_KEYS = [''instructionSha256'', ''protocolVersion'', ''operation'', ''workspaceId'',
     ''workspaceInstanceId'', ''worktree'', ''path'', ''startLine'', ''maxLines'']"
definition WORKSPACE_SEARCH_REQUEST_KEYS :: "string list" where
  "WORKSPACE_SEARCH_REQUEST_KEYS = [''protocolVersion'', ''operation'', ''workspaceId'', ''workspaceInstanceId'',
     ''worktree'', ''query'', ''path'', ''maxResults'']"
definition WORKSPACE_LIST_REQUEST_KEYS :: "string list" where
  "WORKSPACE_LIST_REQUEST_KEYS = [''protocolVersion'', ''operation'', ''workspaceId'', ''workspaceInstanceId'',
     ''worktree'', ''path'', ''maxResults'', ''afterPath'']"
definition WORKSPACE_WRITE_REQUEST_KEYS :: "string list" where
  "WORKSPACE_WRITE_REQUEST_KEYS = [''protocolVersion'', ''operation'', ''workspaceId'', ''workspaceInstanceId'',
     ''worktree'', ''path'', ''content'', ''overwrite'']"
definition WORKSPACE_EDIT_REQUEST_KEYS :: "string list" where
  "WORKSPACE_EDIT_REQUEST_KEYS = [''protocolVersion'', ''operation'', ''workspaceId'', ''workspaceInstanceId'',
     ''worktree'', ''path'', ''oldText'', ''newText'', ''edits'', ''expectedBaseSha256'', ''matching'']"
definition WORKSPACE_PREVIEW_EDIT_REQUEST_KEYS :: "string list" where
  "WORKSPACE_PREVIEW_EDIT_REQUEST_KEYS = [''protocolVersion'', ''operation'', ''workspaceId'',
     ''workspaceInstanceId'', ''worktree'', ''path'', ''oldText'', ''newText'', ''edits'', ''matching'']"
definition WORKSPACE_TEXT_EDIT_KEYS :: "string list" where
  "WORKSPACE_TEXT_EDIT_KEYS = [''oldText'', ''newText'', ''replaceAll'']"
definition WORKSPACE_EDIT_MATCH_KEYS :: "string list" where
  "WORKSPACE_EDIT_MATCH_KEYS = [''strategy'', ''occurrences'']"
definition WORKSPACE_COMMAND_REQUEST_KEYS :: "string list" where
  "WORKSPACE_COMMAND_REQUEST_KEYS = [''environmentAction'', ''protocolVersion'', ''operation'', ''workspaceId'',
     ''workspaceInstanceId'', ''worktree'', ''command'', ''cwd'', ''timeoutMs'', ''maxOutputBytes'']"
definition WORKSPACE_IMPORT_REQUEST_KEYS :: "string list" where
  "WORKSPACE_IMPORT_REQUEST_KEYS = [''protocolVersion'', ''operation'', ''workspaceId'', ''workspaceInstanceId'',
     ''worktree'', ''path'', ''source'', ''bytes'', ''sha256'', ''overwrite'', ''egressGrant'']"
definition WORKSPACE_IMPORT_SOURCE_KEYS :: "string list" where
  "WORKSPACE_IMPORT_SOURCE_KEYS = [''storage_session_id'', ''id'']"

definition isWorkspaceImportFileHandle :: "json option \<Rightarrow> bool" where
  "isWorkspaceImportFileHandle v =
     string_with (\<lambda>s. 0 < length s \<and> length s \<le> BRIDGE_WORKSPACE_IMPORT_FILE_HANDLE_MAX_LENGTH
       \<and> \<not> has_nul_cr_lf s) v"

definition isWorkspaceImportFileRequestShape :: "host \<Rightarrow> json \<Rightarrow> bool" where
  "isWorkspaceImportFileRequestShape H request \<longleftrightarrow>
     hasOnlyKeys request WORKSPACE_IMPORT_REQUEST_KEYS
     \<and> isWorkspaceImportFilePath H (fld request ''path'')
     \<and> (case fld request ''source'' of None \<Rightarrow> False
        | Some source \<Rightarrow>
            is_object source \<and> \<not> is_array source \<and> hasOnlyKeys source WORKSPACE_IMPORT_SOURCE_KEYS
            \<and> isWorkspaceImportFileHandle (fld source ''storage_session_id'')
            \<and> isWorkspaceImportFileHandle (fld source ''id''))
     \<and> safe_int_from 0 (fld request ''bytes'')
     \<and> string_with is_hex64 (fld request ''sha256'')
     \<and> absent_or is_boolean (fld request ''overwrite'')
     \<and> absent_or (string_with (\<lambda>g. 0 < length g \<and> length g \<le> BRIDGE_WORKSPACE_IMPORT_FILE_GRANT_MAX_LENGTH
          \<and> \<not> has_nul_cr_lf g)) (fld request ''egressGrant'')"

definition single_edit :: "json \<Rightarrow> json" where
  "single_edit request =
     JObj ((case fld request ''oldText'' of None \<Rightarrow> [] | Some v \<Rightarrow> [(js ''oldText'', v)])
           @ (case fld request ''newText'' of None \<Rightarrow> [] | Some v \<Rightarrow> [(js ''newText'', v)]))"

text \<open>The loop over the edits, carrying \<^verbatim>\<open>totalBytes\<close>.\<close>

fun valid_edits :: "bool \<Rightarrow> json list \<Rightarrow> int \<Rightarrow> bool" where
  "valid_edits hasBatch [] totalBytes = True"
| "valid_edits hasBatch (edit # edits) totalBytes =
     (if \<not> is_object edit \<or> \<not> hasOnlyKeys edit WORKSPACE_TEXT_EDIT_KEYS then False
      else case (str_of (fld edit ''oldText''), str_of (fld edit ''newText'')) of
        (Some old, Some new) \<Rightarrow>
          if length old = 0 \<or> \<not> utf8_stable old \<or> \<not> utf8_stable new
             \<or> \<not> absent_or is_boolean (fld edit ''replaceAll'')
          then False
          else
            let oldBytes = byteLength old; newBytes = byteLength new;
                total = totalBytes + (oldBytes + newBytes)
            in if (hasBatch \<and> BRIDGE_WORKSPACE_WRITE_MAX_BYTES < total)
                  \<or> (\<not> hasBatch \<and> (BRIDGE_WORKSPACE_WRITE_MAX_BYTES < oldBytes
                                     \<or> BRIDGE_WORKSPACE_WRITE_MAX_BYTES < newBytes))
               then False
               else valid_edits hasBatch edits total
      | _ \<Rightarrow> False)"

definition isValidWorkspaceEditRequest :: "json \<Rightarrow> bool" where
  "isValidWorkspaceEditRequest request =
     (let hasBatch = (fld request ''edits'' \<noteq> None) in
      if hasBatch \<and> (fld request ''oldText'' \<noteq> None \<or> fld request ''newText'' \<noteq> None) then False
      else if fld request ''matching'' \<noteq> None \<and> \<not> is_lit (fld request ''matching'') ''exact''
              \<and> \<not> is_lit (fld request ''matching'') ''tolerant'' then False
      else case (if hasBatch then fld request ''edits'' else Some (JArr [single_edit request])) of
        Some (JArr edits) \<Rightarrow>
          if length edits < 1 \<or> BRIDGE_WORKSPACE_EDIT_MAX_EDITS < length edits then False
          else valid_edits hasBatch edits 0
      | _ \<Rightarrow> False)"


text \<open>\<^verbatim>\<open>isWorkspaceToolRequest\<close>: the part every operation shares, then one test per operation.\<close>

definition valid_request_scope :: "json \<Rightarrow> bool" where
  "valid_request_scope request \<longleftrightarrow>
     is_num (fld request ''protocolVersion'') 1
     \<and> string_with isValidBridgeWorkerId (fld request ''workspaceId'')
     \<and> absent_or (string_with is_hex64) (fld request ''workspaceInstanceId'')
     \<and> absent_or (string_with isValidLinkedWorktreeName) (fld request ''worktree'')"

definition valid_read_request :: "json \<Rightarrow> bool" where
  "valid_read_request request =
     (if fld request ''instructionSha256'' \<noteq> None
      then hasOnlyKeys request WORKSPACE_READ_REQUEST_KEYS
           \<and> string_with is_hex64 (fld request ''instructionSha256'')
           \<and> (is_lit (fld request ''path'') ''AGENTS.md'' \<or> is_lit (fld request ''path'') ''CLAUDE.md'')
           \<and> fld request ''startLine'' = None \<and> fld request ''maxLines'' = None
      else hasOnlyKeys request WORKSPACE_READ_REQUEST_KEYS
           \<and> isSafePortableRelativePath (fld request ''path'')
           \<and> absent_or (safe_int_from 1) (fld request ''startLine'')
           \<and> absent_or (safe_int_between 1 BRIDGE_WORKSPACE_READ_MAX_LINES) (fld request ''maxLines''))"

definition valid_search_request :: "json \<Rightarrow> bool" where
  "valid_search_request request \<longleftrightarrow>
     hasOnlyKeys request WORKSPACE_SEARCH_REQUEST_KEYS
     \<and> string_with (\<lambda>q. 0 < length q \<and> length q \<le> BRIDGE_WORKSPACE_QUERY_MAX_LENGTH \<and> utf8_stable q
          \<and> byteLength q \<le> BRIDGE_WORKSPACE_SEARCH_TEXT_MAX_LENGTH
          \<and> 0 \<notin> set q \<and> 10 \<notin> set q \<and> 13 \<notin> set q) (fld request ''query'')
     \<and> absent_or isSafePortableRelativePath (fld request ''path'')
     \<and> absent_or (safe_int_between 1 BRIDGE_WORKSPACE_SEARCH_MAX_RESULTS) (fld request ''maxResults'')"

definition valid_list_request :: "json \<Rightarrow> bool" where
  "valid_list_request request \<longleftrightarrow>
     hasOnlyKeys request WORKSPACE_LIST_REQUEST_KEYS
     \<and> absent_or isSafePortableRelativePath (fld request ''path'')
     \<and> absent_or (\<lambda>v. isSafePortableRelativePath v
          \<and> string_with (\<lambda>a. normalizePortableRelativePath a = a
               \<and> isWithinRequestedPath a (str_of (fld request ''path''))) v) (fld request ''afterPath'')
     \<and> absent_or (safe_int_between 1 BRIDGE_WORKSPACE_LIST_MAX_RESULTS) (fld request ''maxResults'')"

definition valid_write_request :: "json \<Rightarrow> bool" where
  "valid_write_request request \<longleftrightarrow>
     hasOnlyKeys request WORKSPACE_WRITE_REQUEST_KEYS
     \<and> isSafePortableRelativePath (fld request ''path'')
     \<and> string_with (\<lambda>c. utf8_stable c \<and> byteLength c \<le> BRIDGE_WORKSPACE_WRITE_MAX_BYTES) (fld request ''content'')
     \<and> absent_or is_boolean (fld request ''overwrite'')"

definition valid_preview_request :: "json \<Rightarrow> bool" where
  "valid_preview_request request \<longleftrightarrow>
     hasOnlyKeys request WORKSPACE_PREVIEW_EDIT_REQUEST_KEYS
     \<and> isSafePortableRelativePath (fld request ''path'') \<and> isValidWorkspaceEditRequest request"

definition valid_edit_request :: "json \<Rightarrow> bool" where
  "valid_edit_request request \<longleftrightarrow>
     hasOnlyKeys request WORKSPACE_EDIT_REQUEST_KEYS
     \<and> isSafePortableRelativePath (fld request ''path'')
     \<and> absent_or (string_with is_hex64) (fld request ''expectedBaseSha256'')
     \<and> isValidWorkspaceEditRequest request"

definition valid_environment_action :: "json option \<Rightarrow> bool" where
  "valid_environment_action v =
     (case v of None \<Rightarrow> False
      | Some a \<Rightarrow> is_object a \<and> length (object_keys a) = 2
          \<and> string_with is_action_name (fld a ''name'') \<and> string_with is_hex64 (fld a ''fingerprint''))"

definition valid_command_request :: "json \<Rightarrow> bool" where
  "valid_command_request request \<longleftrightarrow>
     absent_or valid_environment_action (fld request ''environmentAction'')
     \<and> hasOnlyKeys request WORKSPACE_COMMAND_REQUEST_KEYS
     \<and> string_with (\<lambda>c. 0 < length (trim c) \<and> utf8_stable c \<and> 0 \<notin> set c
          \<and> byteLength c \<le> BRIDGE_WORKSPACE_COMMAND_MAX_BYTES) (fld request ''command'')
     \<and> absent_or isSafePortableRelativePath (fld request ''cwd'')
     \<and> absent_or (safe_int_between 1 BRIDGE_WORKSPACE_COMMAND_MAX_TIMEOUT_MS) (fld request ''timeoutMs'')
     \<and> absent_or (safe_int_between 1 BRIDGE_WORKSPACE_COMMAND_MAX_OUTPUT_BYTES) (fld request ''maxOutputBytes'')"

definition isWorkspaceToolRequest :: "host \<Rightarrow> json \<Rightarrow> bool" where
  "isWorkspaceToolRequest H request =
     (if \<not> is_object request then False
      else if \<not> valid_request_scope request then False
      else
        let operation = fld request ''operation'' in
        if is_lit operation ''read_file'' then valid_read_request request
        else if is_lit operation ''search_text'' then valid_search_request request
        else if is_lit operation ''list_files'' then valid_list_request request
        else if is_lit operation ''write_file'' then valid_write_request request
        else if is_lit operation ''preview_edit'' then valid_preview_request request
        else if is_lit operation ''edit_file'' then valid_edit_request request
        else if is_lit operation ''execute_command'' then valid_command_request request
        else if is_lit operation ''import_file'' then isWorkspaceImportFileRequestShape H request
        else False)"

definition isBridgeWorkspaceImportFileRequest :: "host \<Rightarrow> json \<Rightarrow> bool" where
  "isBridgeWorkspaceImportFileRequest H value \<longleftrightarrow>
     isWorkspaceToolRequest H value \<and> is_lit (fld value ''operation'') ''import_file''
     \<and> fld value ''egressGrant'' = None"

definition isRelayedWorkspaceImportFileRequest :: "host \<Rightarrow> json \<Rightarrow> bool" where
  "isRelayedWorkspaceImportFileRequest H value \<longleftrightarrow>
     isWorkspaceToolRequest H value \<and> is_lit (fld value ''operation'') ''import_file''
     \<and> fld value ''egressGrant'' \<noteq> None"

section \<open>Results\<close>

definition WORKSPACE_IMPORT_RESULT_KEYS :: "string list" where
  "WORKSPACE_IMPORT_RESULT_KEYS = [''protocolVersion'', ''operation'', ''workspaceId'', ''path'', ''created'',
     ''unchanged'', ''bytesWritten'', ''sha256'']"
definition WORKSPACE_READ_RESULT_KEYS :: "string list" where
  "WORKSPACE_READ_RESULT_KEYS = [''protocolVersion'', ''operation'', ''workspaceId'', ''path'', ''content'',
     ''startLine'', ''endLine'', ''truncated'', ''nextStartLine'']"
definition WORKSPACE_SEARCH_RESULT_KEYS :: "string list" where
  "WORKSPACE_SEARCH_RESULT_KEYS = [''protocolVersion'', ''operation'', ''workspaceId'', ''matches'', ''truncated'']"
definition WORKSPACE_LIST_RESULT_KEYS :: "string list" where
  "WORKSPACE_LIST_RESULT_KEYS = [''protocolVersion'', ''operation'', ''workspaceId'', ''paths'', ''truncated'',
     ''nextAfterPath'']"
definition WORKSPACE_WRITE_RESULT_KEYS :: "string list" where
  "WORKSPACE_WRITE_RESULT_KEYS = [''protocolVersion'', ''operation'', ''workspaceId'', ''path'', ''created'',
     ''bytesWritten'']"
definition WORKSPACE_EDIT_RESULT_KEYS :: "string list" where
  "WORKSPACE_EDIT_RESULT_KEYS = [''protocolVersion'', ''operation'', ''workspaceId'', ''path'', ''replacements'',
     ''bytesWritten'', ''matches'']"
definition WORKSPACE_PREVIEW_EDIT_RESULT_KEYS :: "string list" where
  "WORKSPACE_PREVIEW_EDIT_RESULT_KEYS = [''protocolVersion'', ''operation'', ''workspaceId'', ''path'', ''content'',
     ''hasUtf8Bom'', ''baseSha256'', ''replacements'', ''bytesWritten'', ''matches'']"
definition WORKSPACE_COMMAND_RESULT_KEYS :: "string list" where
  "WORKSPACE_COMMAND_RESULT_KEYS = [''protocolVersion'', ''operation'', ''workspaceId'', ''exitCode'', ''signal'',
     ''stdout'', ''stderr'', ''truncated'', ''timedOut'', ''laneGit'']"
definition WORKSPACE_SEARCH_MATCH_KEYS :: "string list" where
  "WORKSPACE_SEARCH_MATCH_KEYS = [''path'', ''line'', ''column'', ''text'']"

definition edit_list :: "json \<Rightarrow> json list" where
  "edit_list request = (case fld request ''edits'' of Some (JArr es) \<Rightarrow> es | _ \<Rightarrow> [])"

definition workspaceEditRequestReportsMatches :: "json \<Rightarrow> bool" where
  "workspaceEditRequestReportsMatches request \<longleftrightarrow>
     fld request ''matching'' \<noteq> None \<or> list_ex (\<lambda>e. fld e ''replaceAll'' \<noteq> None) (edit_list request)"

definition edit_strategy :: "json option \<Rightarrow> bool" where
  "edit_strategy v \<longleftrightarrow> is_lit v ''exact'' \<or> is_lit v ''line-trimmed'' \<or> is_lit v ''whitespace-normalized''
     \<or> is_lit v ''indentation-flexible''"

definition valid_edit_match :: "json \<Rightarrow> json \<Rightarrow> json \<Rightarrow> bool" where
  "valid_edit_match request edit match \<longleftrightarrow>
     is_object match \<and> hasOnlyKeys match WORKSPACE_EDIT_MATCH_KEYS
     \<and> edit_strategy (fld match ''strategy'')
     \<and> (is_lit (fld request ''matching'') ''tolerant'' \<or> is_lit (fld match ''strategy'') ''exact'')
     \<and> safe_int_from 1 (fld match ''occurrences'')
     \<and> (fld edit ''replaceAll'' = Some (JBool True) \<or> is_num (fld match ''occurrences'') 1)"

text \<open>The default list has one edit, which carries no \<^verbatim>\<open>replaceAll\<close>.\<close>

definition isValidWorkspaceEditMatches :: "json \<Rightarrow> json option \<Rightarrow> bool" where
  "isValidWorkspaceEditMatches request matches =
     (if \<not> workspaceEditRequestReportsMatches request then matches = None
      else
        let edits = (case fld request ''edits'' of Some (JArr es) \<Rightarrow> es | _ \<Rightarrow> [JObj []])
        in case matches of Some (JArr ms) \<Rightarrow>
             length ms = length edits \<and> list_all (\<lambda>(e, m). valid_edit_match request e m) (zip edits ms)
           | _ \<Rightarrow> False)"


definition valid_read_result :: "host \<Rightarrow> json \<Rightarrow> json \<Rightarrow> bool" where
  "valid_read_result H request result =
     (if fld request ''instructionSha256'' \<noteq> None then
        hasOnlyKeys result WORKSPACE_READ_RESULT_KEYS \<and> fld result ''path'' = fld request ''path''
        \<and> (case fld result ''content'' of Some (JStr content) \<Rightarrow>
              byteLength content \<le> REPOSITORY_INSTRUCTION_MAX_BYTES
              \<and> Some (JStr (h_sha256 H content)) = fld request ''instructionSha256''
              \<and> is_num (fld result ''startLine'') 1
              \<and> is_num (fld result ''endLine'') (int (length (split_on 10 content)))
            | _ \<Rightarrow> False)
        \<and> fld result ''nextStartLine'' = None
      else
        let startLine = int_or 1 (fld request ''startLine'');
            maxLines = int_or 200 (fld request ''maxLines'');
            endLine = int_or 0 (fld result ''endLine'');
            endSafe = is_safe_integer (fld result ''endLine'');
            reportedLineCount = (if endSafe \<and> startLine - 1 \<le> endLine then endLine - startLine + 1 else -1)
        in hasOnlyKeys result WORKSPACE_READ_RESULT_KEYS
           \<and> fld result ''path'' = fld request ''path''
           \<and> isSafePortableRelativePath (fld result ''path'')
           \<and> (case fld result ''content'' of Some (JStr content) \<Rightarrow>
                 byteLength content \<le> BRIDGE_WORKSPACE_READ_MAX_BYTES
                 \<and> is_num (fld result ''startLine'') startLine
                 \<and> endSafe \<and> startLine - 1 \<le> endLine \<and> endLine < startLine + maxLines
                 \<and> 0 \<le> reportedLineCount \<and> reportedLineCount \<le> maxLines
                 \<and> (length content \<noteq> 0 \<or> reportedLineCount \<le> 1)
                 \<and> (if length content = 0 then reportedLineCount else int (length (split_on 10 content)))
                     = reportedLineCount
                 \<and> (if fld result ''truncated'' = Some (JBool True)
                     then is_safe_integer (fld result ''nextStartLine'')
                          \<and> int_or 0 (fld result ''nextStartLine'') = endLine + 1
                          \<and> startLine < int_or 0 (fld result ''nextStartLine'')
                     else fld result ''nextStartLine'' = None)
               | _ \<Rightarrow> False))"

text \<open>The loop over the listed paths, carrying \<^verbatim>\<open>normalizedPaths\<close> and \<^verbatim>\<open>previousPath\<close>.\<close>

fun valid_listed :: "jstr option \<Rightarrow> bool \<Rightarrow> json list \<Rightarrow> jstr list \<Rightarrow> jstr option \<Rightarrow> bool" where
  "valid_listed requested enforces [] normalizedPaths previousPath = True"
| "valid_listed requested enforces (v # vs) normalizedPaths previousPath =
     (case v of JStr path \<Rightarrow>
        if \<not> isSafePortableRelativePath (Some v) \<or> \<not> isWithinRequestedPath path requested then False
        else
          let normalizedPath = normalizePortableRelativePath path in
          if normalizedPath \<in> set normalizedPaths
             \<or> (enforces \<and> (normalizedPath \<noteq> path
                  \<or> (case previousPath of None \<Rightarrow> False
                     | Some prev \<Rightarrow> comparePortableRelativePaths normalizedPath prev \<le> 0)))
          then False
          else valid_listed requested enforces vs (normalizedPath # normalizedPaths) (Some normalizedPath)
      | _ \<Rightarrow> False)"

definition enforcesPaginationContract :: "json option \<Rightarrow> bool" where
  "enforcesPaginationContract capabilities =
     (case capabilities of None \<Rightarrow> True
      | Some c \<Rightarrow> arr_includes (fld c ''listFileFeatures'') (JStr (js ''after_path'')))"

definition valid_list_result :: "json \<Rightarrow> json \<Rightarrow> json option \<Rightarrow> bool" where
  "valid_list_result request result capabilities =
     (let maxResults = int_or 100 (fld request ''maxResults'') in
      case fld result ''paths'' of
        Some (JArr paths) \<Rightarrow>
          if \<not> hasOnlyKeys result WORKSPACE_LIST_RESULT_KEYS \<or> maxResults < int (length paths) then False
          else
            let normalizedAfterPath = map_option normalizePortableRelativePath (str_of (fld request ''afterPath''));
                enforces = enforcesPaginationContract capabilities
            in if \<not> valid_listed (str_of (fld request ''path'')) enforces paths [] normalizedAfterPath then False
               else if \<not> enforces then fld result ''nextAfterPath'' = None
               else if fld result ''truncated'' \<noteq> Some (JBool True) then fld result ''nextAfterPath'' = None
               else 0 < length paths \<and> fld result ''nextAfterPath'' = Some (last paths)
      | _ \<Rightarrow> False)"

definition valid_write_result :: "json \<Rightarrow> json \<Rightarrow> bool" where
  "valid_write_result request result \<longleftrightarrow>
     hasOnlyKeys result WORKSPACE_WRITE_RESULT_KEYS \<and> fld result ''path'' = fld request ''path''
     \<and> is_boolean (fld result ''created'')
     \<and> (fld request ''overwrite'' \<noteq> Some (JBool False) \<or> fld result ''created'' = Some (JBool True))
     \<and> is_safe_integer (fld result ''bytesWritten'')
     \<and> (case fld request ''content'' of Some (JStr content) \<Rightarrow> is_num (fld result ''bytesWritten'') (byteLength content)
         | _ \<Rightarrow> False)"

definition valid_import_result :: "json \<Rightarrow> json \<Rightarrow> bool" where
  "valid_import_result request result =
     (if \<not> hasOnlyKeys result WORKSPACE_IMPORT_RESULT_KEYS \<or> fld result ''path'' \<noteq> fld request ''path''
         \<or> fld result ''sha256'' \<noteq> fld request ''sha256'' \<or> \<not> is_boolean (fld result ''created'')
         \<or> \<not> absent_or is_boolean (fld result ''unchanged'') \<or> \<not> is_safe_integer (fld result ''bytesWritten'')
      then False
      else if fld result ''unchanged'' = Some (JBool True)
      then fld result ''created'' = Some (JBool False) \<and> is_num (fld result ''bytesWritten'') 0
      else fld result ''bytesWritten'' = fld request ''bytes''
           \<and> (fld request ''overwrite'' = Some (JBool True) \<or> fld result ''created'' = Some (JBool True)))"

definition replacement_count :: "json \<Rightarrow> int" where
  "replacement_count request = (case fld request ''edits'' of Some (JArr es) \<Rightarrow> int (length es) | _ \<Rightarrow> 1)"

definition valid_edit_result :: "json \<Rightarrow> json \<Rightarrow> bool" where
  "valid_edit_result request result \<longleftrightarrow>
     hasOnlyKeys result WORKSPACE_EDIT_RESULT_KEYS \<and> fld result ''path'' = fld request ''path''
     \<and> is_num (fld result ''replacements'') (replacement_count request)
     \<and> safe_int_between 0 BRIDGE_WORKSPACE_WRITE_MAX_BYTES (fld result ''bytesWritten'')
     \<and> isValidWorkspaceEditMatches request (fld result ''matches'')"

definition valid_preview_result :: "json \<Rightarrow> json \<Rightarrow> bool" where
  "valid_preview_result request result \<longleftrightarrow>
     hasOnlyKeys result WORKSPACE_PREVIEW_EDIT_RESULT_KEYS \<and> fld result ''path'' = fld request ''path''
     \<and> (case (fld result ''content'', fld result ''hasUtf8Bom'') of
           (Some (JStr content), Some (JBool bom)) \<Rightarrow>
             utf8_stable content
             \<and> string_with is_hex64 (fld result ''baseSha256'')
             \<and> is_num (fld result ''replacements'') (replacement_count request)
             \<and> is_safe_integer (fld result ''bytesWritten'')
             \<and> is_num (fld result ''bytesWritten'') (byteLength content + (if bom then 3 else 0))
             \<and> int_or 0 (fld result ''bytesWritten'') \<le> BRIDGE_WORKSPACE_WRITE_MAX_BYTES
             \<and> isValidWorkspaceEditMatches request (fld result ''matches'')
         | _ \<Rightarrow> False)"

definition valid_command_result :: "host \<Rightarrow> json \<Rightarrow> json \<Rightarrow> bool" where
  "valid_command_result H request result =
     (let outputLimit = int_or BRIDGE_WORKSPACE_COMMAND_DEFAULT_OUTPUT_BYTES (fld request ''maxOutputBytes'');
          exitNull = (fld result ''exitCode'' = Some JNull)
      in hasOnlyKeys result WORKSPACE_COMMAND_RESULT_KEYS
         \<and> (case (fld result ''stdout'', fld result ''stderr'') of
              (Some (JStr stdout), Some (JStr stderr)) \<Rightarrow>
                utf8_stable stdout \<and> utf8_stable stderr \<and> byteLength stdout + byteLength stderr \<le> outputLimit
            | _ \<Rightarrow> False)
         \<and> (exitNull \<or> safe_int_between 0 255 (fld result ''exitCode''))
         \<and> absent_or (string_with (\<lambda>s. length s \<le> BRIDGE_WORKSPACE_COMMAND_SIGNAL_MAX_LENGTH \<and> is_signal_name s))
             (fld result ''signal'')
         \<and> is_boolean (fld result ''truncated'') \<and> is_boolean (fld result ''timedOut'')
         \<and> absent_or (\<lambda>v. case v of None \<Rightarrow> False | Some g \<Rightarrow> isWorkspaceLaneGit H g) (fld result ''laneGit'')
         \<and> (if exitNull then fld result ''timedOut'' = Some (JBool True) \<or> fld result ''signal'' \<noteq> None
            else fld result ''timedOut'' = Some (JBool False) \<and> fld result ''signal'' = None))"

definition valid_search_match :: "json \<Rightarrow> json \<Rightarrow> bool" where
  "valid_search_match request match \<longleftrightarrow>
     is_object match \<and> hasOnlyKeys match WORKSPACE_SEARCH_MATCH_KEYS
     \<and> isSafePortableRelativePath (fld match ''path'')
     \<and> string_with (\<lambda>p. isWithinRequestedPath p (str_of (fld request ''path''))) (fld match ''path'')
     \<and> safe_int_from 1 (fld match ''line'') \<and> safe_int_from 1 (fld match ''column'')
     \<and> string_with (\<lambda>t. int (length t) \<le> BRIDGE_WORKSPACE_SEARCH_TEXT_MAX_LENGTH
          \<and> (case fld request ''query'' of Some (JStr q) \<Rightarrow> includes_str t q | _ \<Rightarrow> False)) (fld match ''text'')"

definition valid_search_result :: "json \<Rightarrow> json \<Rightarrow> bool" where
  "valid_search_result request result =
     (case fld result ''matches'' of
        Some (JArr matches) \<Rightarrow>
          hasOnlyKeys result WORKSPACE_SEARCH_RESULT_KEYS
          \<and> int (length matches) \<le> int_or 50 (fld request ''maxResults'')
          \<and> list_all (valid_search_match request) matches
      | _ \<Rightarrow> False)"

definition isWorkspaceToolResult :: "host \<Rightarrow> json \<Rightarrow> json \<Rightarrow> json option \<Rightarrow> bool" where
  "isWorkspaceToolResult H request result capabilities =
     (let operation = fld request ''operation'';
          reading = (is_lit operation ''read_file'' \<or> is_lit operation ''search_text'' \<or> is_lit operation ''list_files'')
      in if \<not> is_object result then False
         else if \<not> is_num (fld result ''protocolVersion'') 1 \<or> fld result ''operation'' \<noteq> operation
                 \<or> fld result ''workspaceId'' \<noteq> fld request ''workspaceId''
                 \<or> (reading \<and> \<not> is_boolean (fld result ''truncated''))
         then False
         else if is_lit operation ''read_file'' then valid_read_result H request result
         else if is_lit operation ''list_files'' then valid_list_result request result capabilities
         else if is_lit operation ''write_file'' then valid_write_result request result
         else if is_lit operation ''import_file'' then valid_import_result request result
         else if is_lit operation ''edit_file'' then valid_edit_result request result
         else if is_lit operation ''preview_edit'' then valid_preview_result request result
         else if is_lit operation ''execute_command'' then valid_command_result H request result
         else valid_search_result request result)"


section \<open>Capabilities\<close>

definition BRIDGE_WORKSPACE_MAX_COUNT :: nat where "BRIDGE_WORKSPACE_MAX_COUNT = 32"
definition BRIDGE_WORKSPACE_NAME_MAX_LENGTH :: nat where "BRIDGE_WORKSPACE_NAME_MAX_LENGTH = 128"
definition BRIDGE_SANDBOX_PROFILE_MAX_LENGTH :: nat where "BRIDGE_SANDBOX_PROFILE_MAX_LENGTH = 128"
definition BRIDGE_RUNTIME_MAX_COUNT :: nat where "BRIDGE_RUNTIME_MAX_COUNT = 32"
definition BRIDGE_RUNTIME_MAX_LENGTH :: nat where "BRIDGE_RUNTIME_MAX_LENGTH = 64"

definition isRepositoryInstructionDescriptor :: "json \<Rightarrow> bool" where
  "isRepositoryInstructionDescriptor value \<longleftrightarrow>
     is_object value \<and> hasOnlyKeys value [''path'', ''bytes'', ''sha256'', ''truncated'']
     \<and> (is_lit (fld value ''path'') ''AGENTS.md'' \<or> is_lit (fld value ''path'') ''CLAUDE.md'')
     \<and> safe_int_between 0 REPOSITORY_INSTRUCTION_MAX_BYTES (fld value ''bytes'')
     \<and> string_with is_hex64 (fld value ''sha256'') \<and> is_boolean (fld value ''truncated'')"

definition isValidCodeEnvironmentDescriptor :: "json \<Rightarrow> bool" where
  "isValidCodeEnvironmentDescriptor value \<longleftrightarrow>
     is_object value \<and> hasOnlyKeys value [''fingerprint'', ''repo'', ''ref'', ''actions'']
     \<and> string_with is_hex64 (fld value ''fingerprint'')
     \<and> absent_or (string_with (\<lambda>r. length r \<le> 256 \<and> is_repo_name r)) (fld value ''repo'')
     \<and> absent_or (string_with (\<lambda>r. 0 < length (trim r) \<and> length r \<le> 256 \<and> \<not> has_nul_cr_lf r)) (fld value ''ref'')
     \<and> (case fld value ''actions'' of
          Some (JArr actions) \<Rightarrow>
            length actions \<le> 32 \<and> list_all (\<lambda>n. string_with is_action_name (Some n)) actions \<and> distinct actions
        | _ \<Rightarrow> False)"

definition workspace_operations :: "string list" where
  "workspace_operations = [''read_file'', ''search_text'', ''list_files'', ''write_file'', ''preview_edit'',
     ''edit_file'', ''execute_command'', ''import_file'']"

definition lits :: "string list \<Rightarrow> json list" where
  "lits xs = map (\<lambda>x. JStr (js x)) xs"

text \<open>An optional array of \<open>lo\<close> to \<open>hi\<close> distinct members of \<open>allowed\<close>, only when \<open>needs\<close> holds.\<close>

definition mode_list :: "nat \<Rightarrow> nat \<Rightarrow> bool \<Rightarrow> json list \<Rightarrow> json option \<Rightarrow> bool" where
  "mode_list lo hi needs allowed v =
     (case v of None \<Rightarrow> True
      | Some (JArr xs) \<Rightarrow> lo \<le> length xs \<and> length xs \<le> hi \<and> needs \<and> list_all (\<lambda>x. x \<in> set allowed) xs \<and> distinct xs
      | _ \<Rightarrow> False)"

text \<open>An optional array with exactly the one given member.\<close>

definition single_flag :: "bool \<Rightarrow> string \<Rightarrow> json option \<Rightarrow> bool" where
  "single_flag needs flag v =
     (case v of None \<Rightarrow> True | Some x \<Rightarrow> x = JArr [JStr (js flag)] \<and> needs)"

definition valid_feature_sets :: "json list \<Rightarrow> json \<Rightarrow> bool" where
  "valid_feature_sets operations capabilities =
     (let has = (\<lambda>op. JStr (js op) \<in> set operations) in
      mode_list 1 2 (has ''write_file'') (lits [''replace'', ''create'']) (fld capabilities ''writeFileModes'')
      \<and> mode_list 1 2 (has ''edit_file'' \<or> has ''preview_edit'') (lits [''single'', ''batch''])
          (fld capabilities ''editFileModes'')
      \<and> mode_list 1 3 (has ''edit_file'' \<or> has ''preview_edit'')
          (lits [''expected_base_sha256'', ''tolerant_match'', ''replace_all'']) (fld capabilities ''editFileFeatures'')
      \<and> (arr_includes (fld capabilities ''editFileFeatures'') (JStr (js ''expected_base_sha256''))
           \<longrightarrow> has ''edit_file'')
      \<and> single_flag (has ''list_files'') ''after_path'' (fld capabilities ''listFileFeatures'')
      \<and> single_flag (has ''execute_command'') ''lane_git'' (fld capabilities ''commandResultFeatures'')
      \<and> single_flag (has ''execute_command'') ''bash'' (fld capabilities ''programmaticLanguages''))"

definition valid_descriptor :: "json list \<Rightarrow> json \<Rightarrow> bool" where
  "valid_descriptor operations descriptor \<longleftrightarrow>
     hasOnlyKeys descriptor [''id'', ''name'', ''operations'', ''workspaceInstances'', ''workspaceScopes'',
       ''instructions'', ''environment'']
     \<and> string_with isValidBridgeWorkerId (fld descriptor ''id'')
     \<and> single_flag True ''git_worktree'' (fld descriptor ''workspaceInstances'')
     \<and> single_flag True ''git_linked_worktree'' (fld descriptor ''workspaceScopes'')
     \<and> (case fld descriptor ''instructions'' of None \<Rightarrow> True
        | Some (JArr is) \<Rightarrow> length is \<le> 1 \<and> list_all isRepositoryInstructionDescriptor is
        | _ \<Rightarrow> False)
     \<and> (case fld descriptor ''environment'' of None \<Rightarrow> True | Some e \<Rightarrow> isValidCodeEnvironmentDescriptor e)
     \<and> absent_or (string_with (\<lambda>n. 0 < length (trim n) \<and> length n \<le> BRIDGE_WORKSPACE_NAME_MAX_LENGTH))
         (fld descriptor ''name'')
     \<and> mode_list 1 (length operations) True operations (fld descriptor ''operations'')"

text \<open>\<^verbatim>\<open>capabilities.workspaces.every\<close>, carrying \<^verbatim>\<open>workspaceIds\<close>.\<close>

fun valid_descriptors :: "json list \<Rightarrow> json list \<Rightarrow> json option list \<Rightarrow> bool" where
  "valid_descriptors operations [] workspaceIds = True"
| "valid_descriptors operations (d # ds) workspaceIds =
     (is_object d \<and> valid_descriptor operations d \<and> fld d ''id'' \<notin> set workspaceIds
      \<and> valid_descriptors operations ds (fld d ''id'' # workspaceIds))"

definition isValidBridgeWorkspaceToolCapabilities :: "json \<Rightarrow> bool" where
  "isValidBridgeWorkspaceToolCapabilities capabilities \<longleftrightarrow>
     is_object capabilities \<and> is_num (fld capabilities ''protocolVersion'') 1
     \<and> (case (fld capabilities ''operations'', fld capabilities ''workspaces'') of
          (Some (JArr operations), Some (JArr workspaces)) \<Rightarrow>
            1 \<le> length operations \<and> length operations \<le> 8
            \<and> list_all (\<lambda>x. x \<in> set (lits workspace_operations)) operations \<and> distinct operations
            \<and> 1 \<le> length workspaces \<and> length workspaces \<le> BRIDGE_WORKSPACE_MAX_COUNT
            \<and> valid_feature_sets operations capabilities
            \<and> valid_descriptors operations workspaces []
        | _ \<Rightarrow> False)"

definition isValidBridgeWorkerCapabilities :: "json \<Rightarrow> bool" where
  "isValidBridgeWorkerCapabilities capabilities \<longleftrightarrow>
     is_object capabilities
     \<and> absent_or (safe_int_between 1 8) (fld capabilities ''workspaceLeaseSlots'')
     \<and> is_boolean (fld capabilities ''statefulWorkspace'')
     \<and> string_with (\<lambda>p. 0 < length (trim p) \<and> length p \<le> BRIDGE_SANDBOX_PROFILE_MAX_LENGTH)
         (fld capabilities ''sandboxProfile'')
     \<and> (case fld capabilities ''runtimes'' of
          Some (JArr runtimes) \<Rightarrow>
            length runtimes \<le> BRIDGE_RUNTIME_MAX_COUNT
            \<and> list_all (\<lambda>r. string_with (\<lambda>n. 0 < length n \<and> length n \<le> BRIDGE_RUNTIME_MAX_LENGTH) (Some r)) runtimes
        | _ \<Rightarrow> False)
     \<and> absent_or (string_with is_hex64) (fld capabilities ''policyDigest'')
     \<and> absent_or is_boolean (fld capabilities ''requiresReadyConfirmation'')
     \<and> (case fld capabilities ''workspaceTools'' of None \<Rightarrow> True
        | Some t \<Rightarrow> isValidBridgeWorkspaceToolCapabilities t)"

section \<open>Properties\<close>

lemma absent_or_Some: "absent_or (string_with P) v \<longleftrightarrow> v = None \<or> (\<exists>s. v = Some (JStr s) \<and> P s)"
  by (auto simp: absent_or_def string_with_def split: option.splits json.splits)

lemma string_with_iff: "string_with P v \<longleftrightarrow> (\<exists>s. v = Some (JStr s) \<and> P s)"
  by (auto simp: string_with_def split: option.splits json.splits)

lemma safe_path_iff:
  "isSafePortableRelativePath v \<Longrightarrow> \<exists>s. v = Some (JStr s) \<and> utf8_stable s"
  by (auto simp: isSafePortableRelativePath_def split: option.splits json.splits)

lemma int_or_JInt [simp]: "int_or d (Some (JInt n)) = n"
  by (simp add: int_or_def)

text \<open>The isolation key a request is scheduled under.\<close>

definition request_key :: "json \<Rightarrow> jstr" where
  "request_key request =
     workspaceIsolationKey (case str_of (fld request ''workspaceId'') of Some w \<Rightarrow> w | None \<Rightarrow> [])
       (str_of (fld request ''workspaceInstanceId'')) (str_of (fld request ''worktree''))"

lemma accepted_ids:
  assumes "isWorkspaceToolRequest H request"
  shows "\<exists>w. fld request ''workspaceId'' = Some (JStr w) \<and>
    valid_ids w (str_of (fld request ''workspaceInstanceId'')) (str_of (fld request ''worktree''))"
proof -
  have "valid_request_scope request" using assms by (simp add: isWorkspaceToolRequest_def split: if_splits)
  then show ?thesis
    by (auto simp: valid_request_scope_def string_with_iff absent_or_Some valid_ids_def)
qed

text \<open>
  C35. Validation makes scheduling sound: two accepted workspace requests are scheduled under the same
  isolation key exactly when they name the same workspace, instance and linked worktree.
\<close>

theorem accepted_requests_keyed_apart:
  assumes "isWorkspaceToolRequest H r" "isWorkspaceToolRequest H r'"
  shows "request_key r = request_key r' \<longleftrightarrow>
    fld r ''workspaceId'' = fld r' ''workspaceId''
    \<and> str_of (fld r ''workspaceInstanceId'') = str_of (fld r' ''workspaceInstanceId'')
    \<and> str_of (fld r ''worktree'') = str_of (fld r' ''worktree'')"
proof -
  obtain w where w: "fld r ''workspaceId'' = Some (JStr w)"
    "valid_ids w (str_of (fld r ''workspaceInstanceId'')) (str_of (fld r ''worktree''))"
    using accepted_ids [OF assms(1)] by blast
  obtain w' where w': "fld r' ''workspaceId'' = Some (JStr w')"
    "valid_ids w' (str_of (fld r' ''workspaceInstanceId'')) (str_of (fld r' ''worktree''))"
    using accepted_ids [OF assms(2)] by blast
  show ?thesis using isolation_key_inject [OF w(2) w'(2)] w(1) w'(1) by (auto simp: request_key_def)
qed

text \<open>Accepted batches.\<close>

fun edit_bytes :: "json \<Rightarrow> int" where
  "edit_bytes e = (case (str_of (fld e ''oldText''), str_of (fld e ''newText'')) of
      (Some old, Some new) \<Rightarrow> byteLength old + byteLength new | _ \<Rightarrow> 0)"

lemma valid_edits_bytes:
  assumes "valid_edits True es t" "t \<le> BRIDGE_WORKSPACE_WRITE_MAX_BYTES"
  shows "t + sum_list (map edit_bytes es) \<le> BRIDGE_WORKSPACE_WRITE_MAX_BYTES \<and>
    (\<forall>e \<in> set es. \<exists>old new. fld e ''oldText'' = Some (JStr old) \<and> old \<noteq> [] \<and> fld e ''newText'' = Some (JStr new)
       \<and> utf8_stable old \<and> utf8_stable new)"
  using assms
proof (induction es arbitrary: t)
  case (Cons e es)
  from Cons.prems(1) obtain old new where f: "fld e ''oldText'' = Some (JStr old)" "fld e ''newText'' = Some (JStr new)"
    by (auto split: if_splits option.splits)
  with Cons.prems(1) have ok: "old \<noteq> []" "utf8_stable old" "utf8_stable new"
    "t + (byteLength old + byteLength new) \<le> BRIDGE_WORKSPACE_WRITE_MAX_BYTES"
    "valid_edits True es (t + (byteLength old + byteLength new))"
    by (auto simp: Let_def split: if_splits)
  from Cons.IH [OF ok(5,4)] f ok show ?case by (auto simp: algebra_simps)
qed simp

text \<open>
  An accepted batch edit has one to a hundred edits, none with an empty search text or a lone
  surrogate, whose old and new texts together are at most one mebibyte of UTF-8.
\<close>

theorem accepted_batch_bounded:
  assumes "isWorkspaceToolRequest H r" "is_lit (fld r ''operation'') ''edit_file''"
    "fld r ''edits'' = Some (JArr es)"
  shows "1 \<le> length es \<and> length es \<le> BRIDGE_WORKSPACE_EDIT_MAX_EDITS
    \<and> sum_list (map edit_bytes es) \<le> BRIDGE_WORKSPACE_WRITE_MAX_BYTES
    \<and> (\<forall>e \<in> set es. \<exists>old new. fld e ''oldText'' = Some (JStr old) \<and> old \<noteq> [] \<and> fld e ''newText'' = Some (JStr new)
         \<and> utf8_stable old \<and> utf8_stable new)"
proof -
  have "valid_edit_request r"
    using assms(1,2) by (auto simp: isWorkspaceToolRequest_def is_lit_def Let_def split: if_splits)
  then have "isValidWorkspaceEditRequest r" by (simp add: valid_edit_request_def)
  then have v: "1 \<le> length es" "length es \<le> BRIDGE_WORKSPACE_EDIT_MAX_EDITS" "valid_edits True es 0"
    using assms(3) by (auto simp: isValidWorkspaceEditRequest_def Let_def Suc_le_eq split: if_splits)
  have "(0::int) \<le> BRIDGE_WORKSPACE_WRITE_MAX_BYTES" by (simp add: BRIDGE_WORKSPACE_WRITE_MAX_BYTES_def)
  from valid_edits_bytes [OF v(3) this] v show ?thesis by simp
qed

text \<open>
  A page of an accepted file read accounts for its lines: the returned text has exactly the lines
  from the requested start to the reported end, at most as many as asked for; and a truncated page
  names the line after the last returned one, past the requested start.
\<close>

theorem accepted_read_lines:
  assumes "isWorkspaceToolResult H r v c" "is_lit (fld r ''operation'') ''read_file''"
    "fld r ''instructionSha256'' = None"
  shows "\<exists>content e. fld v ''content'' = Some (JStr content) \<and> fld v ''endLine'' = Some (JInt e)
    \<and> int_or 1 (fld r ''startLine'') - 1 \<le> e
    \<and> e - int_or 1 (fld r ''startLine'') + 1 \<le> int_or 200 (fld r ''maxLines'')
    \<and> (content \<noteq> [] \<longrightarrow> int (length (split_on 10 content)) = e - int_or 1 (fld r ''startLine'') + 1)
    \<and> byteLength content \<le> BRIDGE_WORKSPACE_READ_MAX_BYTES
    \<and> (fld v ''truncated'' = Some (JBool True) \<longrightarrow>
         fld v ''nextStartLine'' = Some (JInt (e + 1)) \<and> int_or 1 (fld r ''startLine'') < e + 1)"
proof -
  have "valid_read_result H r v"
    using assms(1,2) by (auto simp: isWorkspaceToolResult_def Let_def split: if_splits)
  note v = this [unfolded valid_read_result_def Let_def, simplified assms(3)]
  obtain content where c: "fld v ''content'' = Some (JStr content)"
  proof (cases "fld v ''content''")
    case (Some x)
    with v that show thesis by (cases x) simp_all
  qed (use v in simp)
  note v = v [unfolded c, simplified]
  from v obtain e where e: "fld v ''endLine'' = Some (JInt e)" by (auto simp: is_safe_integer_iff)
  define S M where "S = int_or 1 (fld r ''startLine'')" and "M = int_or 200 (fld r ''maxLines'')"
  note v = v [unfolded e S_def [symmetric] M_def [symmetric] int_or_JInt]
  have ok: "is_safe_integer (Some (JInt e)) \<and> S - 1 \<le> e" using v by blast
  note v = v [unfolded eqTrueI [OF ok] if_True]
  have len: "content \<noteq> [] \<Longrightarrow> int (length (split_on 10 content)) = e - S + 1" using v by simp
  have t: "fld v ''nextStartLine'' = Some (JInt (e + 1)) \<and> S < e + 1" if "fld v ''truncated'' = Some (JBool True)"
    using v that by (auto simp only: is_safe_integer_iff if_True int_or_JInt simp_thms)
  have "byteLength content \<le> BRIDGE_WORKSPACE_READ_MAX_BYTES" "e - S + 1 \<le> M" using v by blast+
  with c e t len ok show ?thesis unfolding S_def [symmetric] M_def [symmetric]
    by (intro exI [of _ content] exI [of _ e]) blast
qed




text \<open>A listing of two files after a cursor, a write of a batch of edits and a read of one line.\<close>

definition demo_req :: "string \<Rightarrow> (string \<times> json) list \<Rightarrow> json" where
  "demo_req op fs = JObj (map (\<lambda>(k, v). (js k, v))
     ((''protocolVersion'', JInt 1) # (''operation'', JStr (js op)) # (''workspaceId'', JStr (js ''r'')) # fs))"

definition demo_list_req :: json where
  "demo_list_req = demo_req ''list_files'' [(''afterPath'', JStr (js ''a''))]"
definition demo_list_res :: json where
  "demo_list_res = demo_req ''list_files'' [(''paths'', JArr [JStr (js ''b''), JStr (js ''c'')]),
     (''truncated'', JBool True), (''nextAfterPath'', JStr (js ''c''))]"
definition demo_read_req :: json where
  "demo_read_req = demo_req ''read_file'' [(''path'', JStr (js ''a''))]"
definition demo_read_res :: json where
  "demo_read_res = demo_req ''read_file'' [(''path'', JStr (js ''a'')), (''content'', JStr (js ''x'')),
     (''startLine'', JInt 1), (''endLine'', JInt 1), (''truncated'', JBool True), (''nextStartLine'', JInt 2)]"
definition demo_edit_req :: json where
  "demo_edit_req = demo_req ''edit_file'' [(''path'', JStr (js ''a'')),
     (''edits'', JArr [JObj [(js ''oldText'', JStr (js ''x'')), (js ''newText'', JStr (js ''yz''))]])]"

lemmas demo_eval = demo_req_def demo_list_req_def demo_list_res_def demo_read_req_def demo_read_res_def demo_edit_req_def
  is_lit_def is_num_def string_with_def absent_or_def hasOnlyKeys_def list_all_iff

lemma demo_fields:
  "fld demo_list_res ''paths'' = Some (JArr [JStr (js ''b''), JStr (js ''c'')])"
  "fld demo_read_req ''instructionSha256'' = None"
  "fld demo_edit_req ''edits'' = Some (JArr [JObj [(js ''oldText'', JStr (js ''x'')), (js ''newText'', JStr (js ''yz''))]])"
  "is_lit (fld demo_list_req ''operation'') ''list_files''" "is_lit (fld demo_read_req ''operation'') ''read_file''"
  "is_lit (fld demo_edit_req ''operation'') ''edit_file''"
  by (simp_all add: demo_eval)

lemma demo_name: "isValidBridgeWorkerId (js ''r'')"
  by (simp add: isValidBridgeWorkerId_def BRIDGE_WORKER_ID_PATTERN_def matches_name_pattern_def is_alnum_def js_def)

lemma demo_paths:
  "isSafePortableRelativePath (Some (JStr (js ''a'')))" "isSafePortableRelativePath (Some (JStr (js ''b'')))"
  "isSafePortableRelativePath (Some (JStr (js ''c'')))"
  "normalizePortableRelativePath (js ''a'') = js ''a''" "normalizePortableRelativePath (js ''b'') = js ''b''"
  "normalizePortableRelativePath (js ''c'') = js ''c''"
  "comparePortableRelativePaths (js ''b'') (js ''a'') = 1" "comparePortableRelativePaths (js ''c'') (js ''b'') = 1"
  by (simp_all add: path_eval normalizePortableRelativePath_def comparePortableRelativePaths_def)

lemma demo_texts:
  "utf8_stable (js ''x'')" "utf8_stable (js ''yz'')" "byteLength (js ''x'') = 1" "byteLength (js ''yz'') = 2"
  "split_on 10 (js ''x'') = [js ''x'']"
  by (simp_all add: path_eval byteLength_def)

lemma demo_accepted:
  "isWorkspaceToolResult H demo_list_req demo_list_res None"
  "isWorkspaceToolResult H demo_read_req demo_read_res None"
  "isWorkspaceToolRequest H demo_edit_req" "isWorkspaceToolRequest H demo_read_req"
  subgoal
    by (simp add: isWorkspaceToolResult_def valid_list_result_def demo_eval enforcesPaginationContract_def
        WORKSPACE_LIST_RESULT_KEYS_def int_or_def demo_paths isWithinRequestedPath_def Let_def)
  subgoal
    by (simp add: isWorkspaceToolResult_def valid_read_result_def demo_eval WORKSPACE_READ_RESULT_KEYS_def
        int_or_def demo_paths demo_texts Let_def MAX_SAFE_INTEGER_def BRIDGE_WORKSPACE_READ_MAX_BYTES_def)
  subgoal
    by (simp add: isWorkspaceToolRequest_def valid_request_scope_def valid_edit_request_def demo_eval demo_name
        WORKSPACE_EDIT_REQUEST_KEYS_def demo_paths demo_texts Let_def isValidWorkspaceEditRequest_def
        WORKSPACE_TEXT_EDIT_KEYS_def BRIDGE_WORKSPACE_EDIT_MAX_EDITS_def BRIDGE_WORKSPACE_WRITE_MAX_BYTES_def)
  subgoal
    by (simp add: isWorkspaceToolRequest_def valid_request_scope_def valid_read_request_def demo_eval demo_name
        WORKSPACE_READ_REQUEST_KEYS_def demo_paths Let_def)
  done

theorem accepted_requests_keyed_apart_witness: "request_key demo_edit_req = request_key demo_read_req"
  using accepted_requests_keyed_apart [OF demo_accepted(3) demo_accepted(4)] by (simp add: demo_eval)

theorem accepted_batch_bounded_witness:
  "fld demo_edit_req ''edits'' = Some (JArr [JObj [(js ''oldText'', JStr (js ''x'')), (js ''newText'', JStr (js ''yz''))]])
   \<and> sum_list (map edit_bytes [JObj [(js ''oldText'', JStr (js ''x'')), (js ''newText'', JStr (js ''yz''))]])
       \<le> BRIDGE_WORKSPACE_WRITE_MAX_BYTES"
  using accepted_batch_bounded [OF demo_accepted(3) demo_fields(6) demo_fields(3)] demo_fields(3) by blast

theorem accepted_read_lines_witness: "\<exists>e. fld demo_read_res ''nextStartLine'' = Some (JInt (e + 1)) \<and> 1 < e + 1"
proof -
  have "fld demo_read_res ''truncated'' = Some (JBool True)" "fld demo_read_req ''startLine'' = None"
    by (simp_all add: demo_eval)
  then show ?thesis
    using accepted_read_lines [OF demo_accepted(2) demo_fields(5) demo_fields(2)] by (auto simp: int_or_def)
qed



end
