(* ===== verification/Programmatic.thy ===== *)
theory Programmatic
  imports Validators
begin

text \<open>
  Programmatic executions in a workspace: \<^verbatim>\<open>isBridgeWorkspaceProgrammaticRequest\<close> of
  \<^verbatim>\<open>packages/code/src/protocol.ts\<close>. The header and body limits, then the loop over the files with
  its set of names and its count of inline bytes, then the check that no file is a directory of
  another.
\<close>

definition BRIDGE_WORKSPACE_PROGRAMMATIC_MAX_FILES :: nat where "BRIDGE_WORKSPACE_PROGRAMMATIC_MAX_FILES = 100"
definition BRIDGE_WORKSPACE_PROGRAMMATIC_TRANSFER_TIMEOUT_MS :: int where
  "BRIDGE_WORKSPACE_PROGRAMMATIC_TRANSFER_TIMEOUT_MS = 30000"
definition BRIDGE_WORKSPACE_PROGRAMMATIC_MAX_FILE_BYTES :: int where
  "BRIDGE_WORKSPACE_PROGRAMMATIC_MAX_FILE_BYTES = 10 * 1024 * 1024"
definition BRIDGE_WORKSPACE_PROGRAMMATIC_MAX_HISTORY_BYTES :: int where
  "BRIDGE_WORKSPACE_PROGRAMMATIC_MAX_HISTORY_BYTES = 40000000"
definition BRIDGE_WORKSPACE_PROGRAMMATIC_MAX_TOTAL_BYTES :: int where
  "BRIDGE_WORKSPACE_PROGRAMMATIC_MAX_TOTAL_BYTES = 100 * 1024 * 1024"

definition programmaticTransferReserveMs :: "int \<Rightarrow> int" where
  "programmaticTransferReserveMs jobTimeoutMs = max 1 (jobTimeoutMs div 3)"

fun object_values :: "json \<Rightarrow> json list" where
  "object_values (JObj fs) = map snd fs"
| "object_values (JArr xs) = xs"
| "object_values _ = []"

text \<open>\<^verbatim>\<open>/^[A-Za-z0-9_-]{1,128}$/\<close>.\<close>

definition is_execution_id :: "jstr \<Rightarrow> bool" where
  "is_execution_id s \<longleftrightarrow> 1 \<le> length s \<and> length s \<le> 128 \<and> list_all (\<lambda>c. is_alnum c \<or> c = 95 \<or> c = 45) s"

text \<open>A handle: one to 32768 units without NUL, CR or LF.\<close>

definition is_handle :: "jstr \<Rightarrow> bool" where
  "is_handle s \<longleftrightarrow> 0 < length s \<and> length s \<le> 32768 \<and> \<not> has_nul_cr_lf s"

definition valid_programmatic_body :: "json \<Rightarrow> bool" where
  "valid_programmatic_body body \<longleftrightarrow>
     is_lit (fld body ''language'') ''bash''
     \<and> string_with (\<lambda>v. 0 < length v \<and> length v \<le> BRIDGE_RUNTIME_MAX_LENGTH) (fld body ''version'')
     \<and> absent_or (string_with is_hex64) (fld body ''workspace_instance_id'')
     \<and> absent_or (string_with isValidLinkedWorktreeName) (fld body ''workspace_worktree'')
     \<and> absent_or (string_with is_execution_id) (fld body ''execution_id'')
     \<and> absent_or (safe_int_between 0 256) (fld body ''replay_tool_count'')
     \<and> absent_or (safe_int_between 0 (int BRIDGE_WORKSPACE_PROGRAMMATIC_MAX_FILES)) (fld body ''max_output_files'')
     \<and> absent_or (safe_int_between 1 BRIDGE_WORKSPACE_PROGRAMMATIC_MAX_FILE_BYTES) (fld body ''max_output_file_bytes'')
     \<and> string_with is_handle (fld body ''session_id'')
     \<and> absent_or (string_with is_handle) (fld body ''output_session_id'')
     \<and> absent_or (string_with (\<lambda>g. 0 < length g \<and> length g \<le> 256 * 1024)) (fld body ''egress_grant'')
     \<and> absent_or (safe_int_between 1 BRIDGE_WORKSPACE_PROGRAMMATIC_TRANSFER_TIMEOUT_MS) (fld body ''transfer_timeout_ms'')
     \<and> absent_or (safe_int_between 1 BRIDGE_WORKSPACE_COMMAND_MAX_TIMEOUT_MS) (fld body ''run_timeout'')"

definition valid_file_name :: "host \<Rightarrow> jstr \<Rightarrow> jstr list \<Rightarrow> bool" where
  "valid_file_name H name names \<longleftrightarrow>
     isSafePortableRelativePath (Some (JStr name)) \<and> name \<noteq> js ''.''
     \<and> h_lower H (portableBasename name) \<noteq> js ''_ptc_pending_result.json''
     \<and> normalizePortableRelativePath name = name \<and> name \<notin> set names"

definition valid_remote_file :: "json \<Rightarrow> bool" where
  "valid_remote_file file \<longleftrightarrow>
     string_with is_handle (fld file ''id'') \<and> string_with is_handle (fld file ''storage_session_id'')
     \<and> hasOnlyKeys file [''name'', ''id'', ''storage_session_id'', ''input_cache_key'']
     \<and> absent_or (string_with is_hex64) (fld file ''input_cache_key'')"

text \<open>One file of the loop: its name and its inline bytes, or \<open>None\<close> where the loop returns.\<close>

definition scan_file :: "host \<Rightarrow> json \<Rightarrow> jstr list \<Rightarrow> (jstr \<times> int) option" where
  "scan_file H file names =
     (if \<not> is_object file then None
      else case str_of (fld file ''name'') of
        None \<Rightarrow> None
      | Some name \<Rightarrow>
          if \<not> valid_file_name H name names then None
          else
            (case str_of (fld file ''content'') of
               Some content \<Rightarrow>
                 if \<not> hasOnlyKeys file [''name'', ''content'']
                    \<or> (if name = js ''_ptc_history.json'' then BRIDGE_WORKSPACE_PROGRAMMATIC_MAX_HISTORY_BYTES
                       else BRIDGE_WORKSPACE_PROGRAMMATIC_MAX_FILE_BYTES) < byteLength content
                 then None
                 else Some (name, byteLength content)
             | None \<Rightarrow> if \<not> valid_remote_file file then None else Some (name, 0)))"

fun scan_files :: "host \<Rightarrow> json list \<Rightarrow> jstr list \<Rightarrow> int \<Rightarrow> (jstr list \<times> int) option" where
  "scan_files H [] names inlineBytes = Some (names, inlineBytes)"
| "scan_files H (file # files) names inlineBytes =
     (case scan_file H file names of
        None \<Rightarrow> None
      | Some (name, bytes) \<Rightarrow> scan_files H files (names @ [name]) (inlineBytes + bytes))"

text \<open>The directories above a name, as the inner loop builds them.\<close>

fun ancestors_from :: "jstr \<Rightarrow> jstr list \<Rightarrow> jstr list" where
  "ancestors_from ancestor [] = []"
| "ancestors_from ancestor [s] = []"
| "ancestors_from ancestor (s # t # rest) =
     (let a = (if ancestor \<noteq> [] then ancestor @ [SLASH] @ s else s) in a # ancestors_from a (t # rest))"

definition ancestors :: "jstr \<Rightarrow> jstr list" where
  "ancestors name = ancestors_from [] (split_on SLASH name)"

definition isBridgeWorkspaceProgrammaticRequest :: "host \<Rightarrow> json \<Rightarrow> bool" where
  "isBridgeWorkspaceProgrammaticRequest H request =
     (if \<not> is_object request then False
      else case (fld request ''headers'', fld request ''body'') of
        (Some headers, Some body) \<Rightarrow>
          if \<not> is_object headers \<or> \<not> list_all (\<lambda>v. is_string (Some v)) (object_values headers)
             \<or> \<not> is_object body \<or> \<not> valid_programmatic_body body
          then False
          else (case fld body ''files'' of
              Some (JArr files) \<Rightarrow>
                if length files < 1 \<or> BRIDGE_WORKSPACE_PROGRAMMATIC_MAX_FILES < length files then False
                else (case scan_files H files [] 0 of
                    None \<Rightarrow> False
                  | Some (names, inlineBytes) \<Rightarrow>
                      if list_ex (\<lambda>name. list_ex (\<lambda>a. a \<in> set names) (ancestors name)) names then False
                      else js ''main.sh'' \<in> set names
                           \<and> inlineBytes \<le> BRIDGE_WORKSPACE_PROGRAMMATIC_MAX_TOTAL_BYTES)
            | _ \<Rightarrow> False)
      | _ \<Rightarrow> False)"

section \<open>Facts\<close>

text \<open>The names a scan accepts: distinct, safe and in normal form.\<close>

definition plain_names :: "jstr list \<Rightarrow> bool" where
  "plain_names names \<longleftrightarrow> distinct names \<and>
     (\<forall>x \<in> set names. isSafePortableRelativePath (Some (JStr x)) \<and> normalizePortableRelativePath x = x \<and> x \<noteq> js ''.'')"

lemma scan_file_name:
  assumes "scan_file H file names = Some (name, b)" "plain_names names"
  shows "plain_names (names @ [name])" "0 \<le> b"
proof -
  from assms(1) have "valid_file_name H name names \<and> 0 \<le> b"
    by (auto simp: scan_file_def byteLength_def split: if_splits option.splits)
  with assms(2) show "plain_names (names @ [name])" "0 \<le> b" by (auto simp: plain_names_def valid_file_name_def)
qed

lemma scan_files_names:
  "scan_files H files names n = Some (names', n') \<Longrightarrow> plain_names names \<Longrightarrow>
     plain_names names' \<and> length names' = length names + length files \<and> n \<le> n'"
proof (induction files arbitrary: names n)
  case (Cons x xs)
  then obtain name b where f: "scan_file H x names = Some (name, b)"
    "scan_files H xs (names @ [name]) (n + b) = Some (names', n')" by (auto split: option.splits)
  from Cons.IH [OF f(2) scan_file_name(1) [OF f(1) Cons.prems(2)]] scan_file_name(2) [OF f(1) Cons.prems(2)]
  show ?case by simp
qed simp

lemma ancestors_from_iff:
  assumes "\<forall>s \<in> set segs. s \<noteq> []"
  shows "set (ancestors_from a segs) =
    {x. \<exists>p r. segs = p @ r \<and> p \<noteq> [] \<and> r \<noteq> [] \<and> x = (if a = [] then join_with [SLASH] p else a @ [SLASH] @ join_with [SLASH] p)}"
  using assms
proof (induction a segs rule: ancestors_from.induct)
  case (1 a)
  then show ?case by simp
next
  case (2 a s)
  then show ?case by (auto simp: Cons_eq_append_conv)
next
  case (3 a s t rest)
  let ?a = "if a \<noteq> [] then a @ [SLASH] @ s else s"
  have ne: "?a \<noteq> []" using 3(2) by simp
  have IH: "set (ancestors_from ?a (t # rest)) =
     {x. \<exists>p r. t # rest = p @ r \<and> p \<noteq> [] \<and> r \<noteq> [] \<and> x = ?a @ [SLASH] @ join_with [SLASH] p}"
    using 3(1) [OF refl] 3(2) ne by simp
  have j: "join_with [SLASH] (s # p) = s @ [SLASH] @ join_with [SLASH] p" if "p \<noteq> []" for p
    using that by (cases p) auto
  show ?case
  proof (intro set_eqI iffI)
    fix x assume "x \<in> set (ancestors_from a (s # t # rest))"
    then consider "x = ?a" | p r where "t # rest = p @ r" "p \<noteq> []" "r \<noteq> []" "x = ?a @ [SLASH] @ join_with [SLASH] p"
      using IH by (auto simp: Let_def)
    then show "x \<in> {x. \<exists>p r. s # t # rest = p @ r \<and> p \<noteq> [] \<and> r \<noteq> [] \<and>
        x = (if a = [] then join_with [SLASH] p else a @ [SLASH] @ join_with [SLASH] p)}"
    proof cases
      case 1
      then show ?thesis by (intro CollectI exI [of _ "[s]"] exI [of _ "t # rest"]) auto
    next
      case (2 p r)
      then show ?thesis by (intro CollectI exI [of _ "s # p"] exI [of _ r]) (auto simp: j)
    qed
  next
    fix x assume "x \<in> {x. \<exists>p r. s # t # rest = p @ r \<and> p \<noteq> [] \<and> r \<noteq> [] \<and>
        x = (if a = [] then join_with [SLASH] p else a @ [SLASH] @ join_with [SLASH] p)}"
    then obtain p r where p: "s # t # rest = p @ r" "p \<noteq> []" "r \<noteq> []"
      "x = (if a = [] then join_with [SLASH] p else a @ [SLASH] @ join_with [SLASH] p)" by blast
    then obtain q where q: "p = s # q" "t # rest = q @ r" by (cases p) auto
    show "x \<in> set (ancestors_from a (s # t # rest))"
    proof (cases "q = []")
      case True
      then show ?thesis using p(4) q(1) by (auto simp: Let_def)
    next
      case False
      then have "x = ?a @ [SLASH] @ join_with [SLASH] q" using p(4) q(1) j [OF False] by auto
      then have "x \<in> set (ancestors_from ?a (t # rest))" using IH q(2) False p(3) by auto
      then show ?thesis by (simp add: Let_def)
    qed
  qed
qed


definition inline_bytes :: "json \<Rightarrow> int" where
  "inline_bytes f = (case str_of (fld f ''content'') of Some c \<Rightarrow> byteLength c | None \<Rightarrow> 0)"

lemma scan_files_sum:
  "scan_files H files names n = Some (names', n') \<Longrightarrow>
     n' = n + sum_list (map inline_bytes files) \<and>
     (\<exists>new. names' = names @ new \<and> map (\<lambda>f. str_of (fld f ''name'')) files = map Some new)"
proof (induction files arbitrary: names n)
  case (Cons x xs)
  then obtain name b where f: "scan_file H x names = Some (name, b)"
    "scan_files H xs (names @ [name]) (n + b) = Some (names', n')" by (auto split: option.splits)
  from f(1) have "b = inline_bytes x" "str_of (fld x ''name'') = Some name"
    by (auto simp: scan_file_def inline_bytes_def split: if_splits option.splits)
  with Cons.IH [OF f(2)] show ?case by auto
qed simp

lemma plain_segments:
  assumes "plain_names names" "x \<in> set names"
  shows "split_on SLASH x = path_segments x" "\<forall>s \<in> set (split_on SLASH x). s \<noteq> []"
proof -
  from assms have n: "normalizePortableRelativePath x = x" "x \<noteq> js ''.''" by (auto simp: plain_names_def)
  then have "path_segments x \<noteq> []" using normalized_root [of x] by auto
  from split_normalized [OF this] n(1) show "split_on SLASH x = path_segments x" by simp
  with path_segments_props show "\<forall>s \<in> set (split_on SLASH x). s \<noteq> []" by auto
qed

lemma ancestor_of_prefix:
  assumes "plain_names names" "x \<in> set names" "y \<in> set names" "x \<noteq> y" "prefix (split_on SLASH x) (split_on SLASH y)"
  shows "x \<in> set (ancestors y)"
proof -
  from assms(5) obtain r where r: "split_on SLASH y = split_on SLASH x @ r" by (rule prefixE)
  have "r \<noteq> []"
  proof
    assume "r = []"
    with r have "split_on SLASH y = split_on SLASH x" by simp
    then have "x = y" by (metis join_split)
    with assms(4) show False by simp
  qed
  then show ?thesis
    unfolding ancestors_def ancestors_from_iff [OF plain_segments(2) [OF assms(1,3)]]
    using r by (intro CollectI exI [of _ "split_on SLASH x"] exI [of _ r]) (simp add: join_split)
qed

text \<open>
  C37. The files of an accepted programmatic execution can be laid out in one directory: the names are
  distinct safe paths in normal form, none is a directory above another, \<^verbatim>\<open>main.sh\<close> is among them, and
  the inline contents together are at most a hundred mebibytes.
\<close>

theorem accepted_files_do_not_shadow:
  assumes "isBridgeWorkspaceProgrammaticRequest H r" "fld r ''body'' = Some b" "fld b ''files'' = Some (JArr files)"
  shows "\<exists>names. map (\<lambda>f. str_of (fld f ''name'')) files = map Some names \<and> distinct names
    \<and> js ''main.sh'' \<in> set names
    \<and> (\<forall>x \<in> set names. isSafePortableRelativePath (Some (JStr x)) \<and> normalizePortableRelativePath x = x)
    \<and> (\<forall>x \<in> set names. \<forall>y \<in> set names. x \<noteq> y \<longrightarrow> \<not> prefix (split_on SLASH x) (split_on SLASH y))
    \<and> sum_list (map inline_bytes files) \<le> BRIDGE_WORKSPACE_PROGRAMMATIC_MAX_TOTAL_BYTES"
proof -
  obtain names n where sc: "scan_files H files [] 0 = Some (names, n)"
    and anc: "\<not> list_ex (\<lambda>name. list_ex (\<lambda>a. a \<in> set names) (ancestors name)) names"
    and main: "js ''main.sh'' \<in> set names" and n: "n \<le> BRIDGE_WORKSPACE_PROGRAMMATIC_MAX_TOTAL_BYTES"
    using assms by (auto simp: isBridgeWorkspaceProgrammaticRequest_def split: if_splits option.splits)
  have plain: "plain_names names" using scan_files_names [OF sc] by (simp add: plain_names_def)
  from scan_files_sum [OF sc] have s: "n = sum_list (map inline_bytes files)"
    "map (\<lambda>f. str_of (fld f ''name'')) files = map Some names" by auto
  have "\<not> prefix (split_on SLASH x) (split_on SLASH y)" if "x \<in> set names" "y \<in> set names" "x \<noteq> y" for x y
    using ancestor_of_prefix [OF plain that] anc that by (auto simp: list_ex_iff)
  with plain s main n show ?thesis by (intro exI [of _ names]) (auto simp: plain_names_def)
qed

definition demo_program :: json where
  "demo_program = JObj [(js ''headers'', JObj []), (js ''body'', JObj [(js ''language'', JStr (js ''bash'')),
     (js ''version'', JStr (js ''5'')), (js ''session_id'', JStr (js ''s'')),
     (js ''files'', JArr [JObj [(js ''name'', JStr (js ''main.sh'')), (js ''content'', JStr (js ''x''))]])])]"

definition demo_host :: host where
  "demo_host = \<lparr>h_lower = id, h_ignorable = (\<lambda>_. False), h_unprintable = (\<lambda>_. False), h_sha256 = id\<rparr>"

lemma demo_main:
  "isSafePortableRelativePath (Some (JStr (js ''main.sh'')))" "normalizePortableRelativePath (js ''main.sh'') = js ''main.sh''"
  "ancestors (js ''main.sh'') = []" "portableBasename (js ''main.sh'') = js ''main.sh''" "is_handle (js ''s'')"
  by (simp_all add: path_eval normalizePortableRelativePath_def ancestors_def portableBasename_def lastIndexOf_def
      sliceFrom_def is_handle_def has_nul_cr_lf_def)

theorem accepted_files_do_not_shadow_witness:
  "isBridgeWorkspaceProgrammaticRequest demo_host demo_program
   \<and> sum_list (map inline_bytes [JObj [(js ''name'', JStr (js ''main.sh'')), (js ''content'', JStr (js ''x''))]])
       \<le> BRIDGE_WORKSPACE_PROGRAMMATIC_MAX_TOTAL_BYTES"
proof -
  have ok: "isBridgeWorkspaceProgrammaticRequest demo_host demo_program"
    by (simp add: isBridgeWorkspaceProgrammaticRequest_def demo_program_def valid_programmatic_body_def demo_eval
        BRIDGE_RUNTIME_MAX_LENGTH_def demo_main demo_texts scan_file_def valid_file_name_def demo_host_def
        BRIDGE_WORKSPACE_PROGRAMMATIC_MAX_FILES_def BRIDGE_WORKSPACE_PROGRAMMATIC_MAX_FILE_BYTES_def
        BRIDGE_WORKSPACE_PROGRAMMATIC_MAX_TOTAL_BYTES_def)
  have "fld demo_program ''body'' = Some (JObj [(js ''language'', JStr (js ''bash'')), (js ''version'', JStr (js ''5'')),
      (js ''session_id'', JStr (js ''s'')), (js ''files'', JArr [JObj [(js ''name'', JStr (js ''main.sh'')),
      (js ''content'', JStr (js ''x''))]])])" by (simp add: demo_program_def)
  from accepted_files_do_not_shadow [OF ok this] ok show ?thesis by auto
qed

end
