(* ===== verification/Admission.thy ===== *)
theory Admission
  imports BridgeTypes
begin

text \<open>
  The bounded FIFO admission queue of \<^verbatim>\<open>service/src/bridge/admission.ts\<close>, one Lua script per
  operation on four keys: the order (a sorted set scored by an increasing sequence), the deadlines,
  the sequence counter and the workspaces. \<open>dateNow\<close> is the API replica's clock, passed to the
  scripts as an argument; \<open>now\<close> is the Redis clock of the script.
\<close>

definition ADMISSION_CAPACITY :: nat where
  "ADMISSION_CAPACITY = 32"

section \<open>Operations\<close>

fun state_text :: "request_state \<Rightarrow> jstr" where
  "state_text Queued = js ''queued''"
| "state_text Admitted = js ''admitted''"
| "state_text Completed = js ''completed''"
| "state_text Failed = js ''failed''"
| "state_text Cancelled = js ''cancelled''"

record guard =
  g_key :: jstr
  g_token :: jstr

text \<open>\<^verbatim>\<open>durableAdmissionFence\<close>: the guard lines every durable admission script begins with.
  The claim key of a request key is \<^verbatim>\<open>`${key}:claim`\<close>.\<close>

definition durableAdmissionFence :: "int \<Rightarrow> bstore \<Rightarrow> guard \<Rightarrow> bool" where
  "durableAdmissionFence now s g \<longleftrightarrow>
     GET now s (RequestClaimKey (g_key g)) = Some (Txt (g_token g))
     \<and> HGET now s (RequestKey (g_key g)) (js ''state'') = Some (Txt (state_text Queued))
     \<and> HGET now s (RequestKey (g_key g)) (js ''cancelRequested'') \<noteq> Some (Txt (js ''1''))
     \<and> (case HGET now s (RequestKey (g_key g)) (js ''queueDeadlineAtMs'') of
          Some (NumV d) \<Rightarrow> \<not> d \<le> now | _ \<Rightarrow> False)"

text \<open>The loop at the head of every script: forget each entry whose deadline has passed.\<close>

definition forget :: "int \<Rightarrow> jstr \<Rightarrow> jstr \<Rightarrow> bstore \<Rightarrow> bstore" where
  "forget now w i s =
     HDEL now (AdmissionWorkspacesKey w) i
       (ZREM now (AdmissionDeadlinesKey w) i (ZREM now (AdmissionKey w) i s))"

definition drop_expired :: "int \<Rightarrow> jstr \<Rightarrow> int \<Rightarrow> bstore \<Rightarrow> bstore" where
  "drop_expired now w dateNow s =
     fold (forget now w) (ZRANGEBYSCORE now s (AdmissionDeadlinesKey w) dateNow) s"

text \<open>Refresh the expiry of the four keys from the latest deadline.\<close>

definition touch_admission :: "int \<Rightarrow> jstr \<Rightarrow> bstore \<Rightarrow> bstore" where
  "touch_admission now w s =
     (case ZMAX now s (AdmissionDeadlinesKey w) of None \<Rightarrow> s
      | Some latest \<Rightarrow>
          fold (\<lambda>k. PEXPIREAT now k (latest + 30000))
            [AdmissionKey w, AdmissionDeadlinesKey w, AdmissionSequenceKey w, AdmissionWorkspacesKey w] s)"

definition push_admission :: "int \<Rightarrow> jstr \<Rightarrow> jstr \<Rightarrow> int \<Rightarrow> jstr option \<Rightarrow> bstore \<Rightarrow> bstore" where
  "push_admission now w i deadlineAtMs ws s =
     (let (seq, s1) = INCR now (AdmissionSequenceKey w) s;
          s2 = ZADD now (AdmissionKey w) seq i s1;
          s3 = ZADD now (AdmissionDeadlinesKey w) deadlineAtMs i s2;
          x = (case ws of None \<Rightarrow> [] | Some v \<Rightarrow> v);
          s4 = (if x \<noteq> [] then HSET now (AdmissionWorkspacesKey w) i (Txt x) s3 else s3)
      in touch_admission now w s4)"

definition enter :: "int \<Rightarrow> int \<Rightarrow> jstr \<Rightarrow> jstr \<Rightarrow> int \<Rightarrow> jstr option \<Rightarrow> bstore \<Rightarrow> bool \<times> bstore" where
  "enter now dateNow w i deadlineAtMs ws s =
     (let s1 = drop_expired now w dateNow s in
      if ZSCORE now s1 (AdmissionKey w) i \<noteq> None then (True, s1)
      else if ADMISSION_CAPACITY \<le> ZCARD now s1 (AdmissionKey w) then (False, s1)
      else (True, push_admission now w i deadlineAtMs ws s1))"

datatype submission = Accepted | Existing | Conflict | Full

definition submit ::
  "int \<Rightarrow> int \<Rightarrow> jstr \<Rightarrow> jstr \<Rightarrow> int \<Rightarrow> jstr option \<Rightarrow> jstr \<Rightarrow> jstr \<Rightarrow> digest \<Rightarrow> stored_request \<Rightarrow> int
   \<Rightarrow> bstore \<Rightarrow> submission \<times> bstore" where
  "submit now dateNow w i deadlineAtMs ws key scope fingerprint rec retentionMs s =
     (case HGET now s (RequestKey key) (js ''fingerprint'') of
        Some f \<Rightarrow> (if f = Json (JDigest fingerprint) then Existing else Conflict, s)
      | None \<Rightarrow>
          let s1 = drop_expired now w dateNow s in
          if ADMISSION_CAPACITY \<le> ZCARD now s1 (AdmissionKey w) then (Full, s1)
          else
            let s2 = push_admission now w i deadlineAtMs ws s1;
                s3 = HSET now (RequestKey key) (js ''record'') (Json (JReq rec)) s2;
                s4 = HSET now (RequestKey key) (js ''fingerprint'') (Json (JDigest fingerprint)) s3;
                s5 = HSET now (RequestKey key) (js ''state'') (Txt (state_text Queued)) s4;
                s6 = HSET now (RequestKey key) (js ''queueDeadlineAtMs'') (NumV deadlineAtMs) s5;
                s7 = PEXPIRE now (RequestKey key) retentionMs s6;
                s8 = ZADD now (ActiveKey scope) dateNow key s7
            in (Accepted, s8))"

definition position :: "int \<Rightarrow> jstr \<Rightarrow> jstr \<Rightarrow> bstore \<Rightarrow> nat option" where
  "position now w i s = map_option Suc (ZRANK now s (AdmissionKey w) i)"

definition isHead :: "int \<Rightarrow> int \<Rightarrow> jstr \<Rightarrow> jstr \<Rightarrow> bstore \<Rightarrow> bool \<times> bstore" where
  "isHead now dateNow w i s =
     (let s1 = drop_expired now w dateNow s
      in (ZRANGE_first now s1 (AdmissionKey w) 1 = [i], s1))"

definition leave :: "int \<Rightarrow> jstr \<Rightarrow> jstr \<Rightarrow> bstore \<Rightarrow> bstore" where
  "leave now w i s = forget now w i s"


section \<open>The queue a worker's keys represent\<close>

text \<open>Its waiting ids in admission order, and the ids whose deadline has passed.\<close>

definition waiting :: "int \<Rightarrow> jstr \<Rightarrow> bstore \<Rightarrow> jstr list" where
  "waiting now w s = map snd (zset_at now s (AdmissionKey w))"

definition expired_ids :: "int \<Rightarrow> jstr \<Rightarrow> int \<Rightarrow> bstore \<Rightarrow> jstr set" where
  "expired_ids now w dateNow s =
     {i. \<exists>d. (d, i) \<in> set (zset_at now s (AdmissionDeadlinesKey w)) \<and> d \<le> dateNow}"

text \<open>What a worker's admission keys keep: both sets are sorted, the order set lists each id once,
  and at every later instant at which the order set is still alive, so is the sequence counter, which
  has passed every sequence in the set.\<close>

definition seq_inv :: "int \<Rightarrow> jstr \<Rightarrow> bstore \<Rightarrow> bool" where
  "seq_inv n w s \<longleftrightarrow>
     sorted (zset_at n s (AdmissionKey w))
     \<and> sorted (zset_at n s (AdmissionDeadlinesKey w))
     \<and> distinct (waiting n w s)
     \<and> (\<forall>p \<in> set (zset_at n s (AdmissionKey w)).
          fst p \<le> counter_of (GET n s (AdmissionSequenceKey w)))"

definition admission_inv :: "int \<Rightarrow> jstr \<Rightarrow> bstore \<Rightarrow> bool" where
  "admission_inv now w s \<longleftrightarrow> (\<forall>n \<ge> now. seq_inv n w s)"

lemma zset_at_other [redis_simps]:
  assumes "k' \<noteq> k"
  shows "zset_at n (ZREM now k m s) k' = zset_at n s k'"
    "zset_at n (HDEL now k f s) k' = zset_at n s k'"
    "zset_at n (ZADD now k x m s) k' = zset_at n s k'"
    "zset_at n (HSET now k f v s) k' = zset_at n s k'"
    "zset_at n (PEXPIREAT now k t s) k' = zset_at n s k'"
    "zset_at n (snd (INCR now k s)) k' = zset_at n s k'"
  using assms by (auto intro!: read_cong redis_frame)

lemma GET_other [redis_simps]:
  assumes "k' \<noteq> k"
  shows "GET n (ZREM now k m s) k' = GET n s k'"
    "GET n (HDEL now k f s) k' = GET n s k'"
    "GET n (ZADD now k x m s) k' = GET n s k'"
    "GET n (HSET now k f v s) k' = GET n s k'"
    "GET n (PEXPIREAT now k t s) k' = GET n s k'"
    "GET n (snd (INCR now k s)) k' = GET n s k'"
  using assms by (auto intro!: read_cong redis_frame)

lemma admission_inv_at: "admission_inv now w s \<Longrightarrow> seq_inv now w s"
  by (simp add: admission_inv_def)

lemma forget_zsets:
  assumes "now \<le> n"
  shows "zset_at n (forget now w i s) (AdmissionKey w) =
      filter (\<lambda>p. snd p \<noteq> i) (zset_at n s (AdmissionKey w))"
    "zset_at n (forget now w i s) (AdmissionDeadlinesKey w) =
      filter (\<lambda>p. snd p \<noteq> i) (zset_at n s (AdmissionDeadlinesKey w))"
  using assms by (simp_all add: forget_def redis_simps zset_at_ZREM_later)

lemma fold_forget_zsets:
  assumes "now \<le> n"
  shows "zset_at n (fold (forget now w) ids s) (AdmissionKey w) =
      filter (\<lambda>p. snd p \<notin> set ids) (zset_at n s (AdmissionKey w))"
    "zset_at n (fold (forget now w) ids s) (AdmissionDeadlinesKey w) =
      filter (\<lambda>p. snd p \<notin> set ids) (zset_at n s (AdmissionDeadlinesKey w))"
  by (induction ids arbitrary: s) (simp_all add: forget_zsets [OF assms] conj_commute)

lemma forget_frame:
  "k \<noteq> AdmissionKey w \<Longrightarrow> k \<noteq> AdmissionDeadlinesKey w \<Longrightarrow> k \<noteq> AdmissionWorkspacesKey w \<Longrightarrow>
     forget now w i s k = s k"
  by (simp add: forget_def redis_frame)

lemma fold_forget_frame:
  "k \<noteq> AdmissionKey w \<Longrightarrow> k \<noteq> AdmissionDeadlinesKey w \<Longrightarrow> k \<noteq> AdmissionWorkspacesKey w \<Longrightarrow>
     fold (forget now w) ids s k = s k"
  by (induction ids arbitrary: s) (simp_all add: forget_frame)

lemma drop_expired_frame:
  "k \<noteq> AdmissionKey w \<Longrightarrow> k \<noteq> AdmissionDeadlinesKey w \<Longrightarrow> k \<noteq> AdmissionWorkspacesKey w \<Longrightarrow>
     drop_expired now w dateNow s k = s k"
  by (simp add: drop_expired_def fold_forget_frame)

lemma waiting_fold_forget:
  "now \<le> n \<Longrightarrow> waiting n w (fold (forget now w) ids s) = filter (\<lambda>i. i \<notin> set ids) (waiting n w s)"
  by (simp add: waiting_def fold_forget_zsets filter_map comp_def)

lemma waiting_leave: "waiting now w (leave now w i s) = filter (\<lambda>j. j \<noteq> i) (waiting now w s)"
  by (simp add: leave_def waiting_def forget_zsets filter_map comp_def)

lemma set_ZRANGEBYSCORE:
  "set (ZRANGEBYSCORE now s (AdmissionDeadlinesKey w) dateNow) = expired_ids now w dateNow s"
  by (force simp: ZRANGEBYSCORE_def expired_ids_def)

lemma waiting_drop_expired:
  "waiting now w (drop_expired now w dateNow s) =
     filter (\<lambda>i. i \<notin> expired_ids now w dateNow s) (waiting now w s)"
  by (simp add: drop_expired_def waiting_fold_forget set_ZRANGEBYSCORE)

lemma seq_inv_forget:
  assumes "seq_inv n w s" "now \<le> n" shows "seq_inv n w (fold (forget now w) ids s)"
proof -
  let ?s = "fold (forget now w) ids s"
  have "GET n ?s (AdmissionSequenceKey w) = GET n s (AdmissionSequenceKey w)"
    by (rule read_cong) (simp add: fold_forget_frame)
  with assms show ?thesis
    by (auto simp: seq_inv_def fold_forget_zsets waiting_fold_forget sorted_filter_id)
qed

lemma admission_inv_forget: "admission_inv now w s \<Longrightarrow> admission_inv now w (fold (forget now w) ids s)"
  by (simp add: admission_inv_def seq_inv_forget)

lemma admission_inv_drop_expired:
  "admission_inv now w s \<Longrightarrow> admission_inv now w (drop_expired now w dateNow s)"
  by (simp add: drop_expired_def admission_inv_forget)

lemma admission_inv_leave: "admission_inv now w s \<Longrightarrow> admission_inv now w (leave now w i s)"
  using admission_inv_forget [of now w s "[i]"] by (simp add: leave_def)


lemma touch_admission_later:
  assumes "now \<le> n" "ZMAX now s (AdmissionDeadlinesKey w) = Some m" "now < m + 30000"
  shows "zset_at n (touch_admission now w s) (AdmissionKey w) =
      (if n \<le> m + 30000 then zset_at now s (AdmissionKey w) else [])"
    "zset_at n (touch_admission now w s) (AdmissionDeadlinesKey w) =
      (if n \<le> m + 30000 then zset_at now s (AdmissionDeadlinesKey w) else [])"
    "GET n (touch_admission now w s) (AdmissionSequenceKey w) =
      (if n \<le> m + 30000 then GET now s (AdmissionSequenceKey w) else None)"
  using assms
  by (simp_all add: touch_admission_def zset_at_PEXPIREAT_later GET_PEXPIREAT_later redis_simps)

lemma touch_admission_frame:
  "k \<notin> {AdmissionKey w, AdmissionDeadlinesKey w, AdmissionSequenceKey w, AdmissionWorkspacesKey w} \<Longrightarrow>
     touch_admission now w s k = s k"
  by (simp add: touch_admission_def redis_frame split: option.splits)

lemma push_admission_frame:
  "k \<notin> {AdmissionKey w, AdmissionDeadlinesKey w, AdmissionSequenceKey w, AdmissionWorkspacesKey w} \<Longrightarrow>
     push_admission now w i d ws s k = s k"
  by (simp add: push_admission_def Let_def touch_admission_frame redis_frame INCR_def)

lemma push_admission_spec:
  assumes inv: "admission_inv now w s" and new: "i \<notin> set (waiting now w s)"
    and time: "now < d + 30000"
  shows "waiting now w (push_admission now w i d ws s) = waiting now w s @ [i]"
    and "admission_inv now w (push_admission now w i d ws s)"
proof -
  let ?K = "AdmissionKey w" and ?D = "AdmissionDeadlinesKey w" and ?Q = "AdmissionSequenceKey w"
  let ?c = "counter_of (GET now s ?Q)"
  define s3 where "s3 = ZADD now ?D d i (ZADD now ?K (?c + 1) i (snd (INCR now ?Q s)))"
  define x where "x = (case ws of None \<Rightarrow> [] | Some v \<Rightarrow> v)"
  define s4 where "s4 = (if x \<noteq> [] then HSET now (AdmissionWorkspacesKey w) i (Txt x) s3 else s3)"
  have push: "push_admission now w i d ws s = touch_admission now w s4"
    by (simp add: push_admission_def Let_def s4_def s3_def x_def INCR_def)
  from inv have at: "seq_inv now w s" by (rule admission_inv_at)
  have fresh: "filter (\<lambda>p. snd p \<noteq> i) (zset_at now s ?K) = zset_at now s ?K"
    using new by (auto simp: waiting_def intro!: filter_True)
  have order: "zset_at now s4 ?K = zset_at now s ?K @ [(?c + 1, i)]"
  proof -
    have "insort (?c + 1, i) (zset_at now s ?K) = zset_at now s ?K @ [(?c + 1, i)]"
      using at by (intro insort_last) (force simp: seq_inv_def)
    with fresh show ?thesis
      by (simp add: s4_def s3_def redis_simps ZADD_def [of now ?K])
  qed
  have dl: "zset_at now s4 ?D = insort (d, i) (filter (\<lambda>p. snd p \<noteq> i) (zset_at now s ?D))"
    by (simp add: s4_def s3_def redis_simps ZADD_def [of now ?D])
  have cnt: "GET now s4 ?Q = Some (NumV (?c + 1))"
    using INCR_value [of now ?Q s "?c + 1" "snd (INCR now ?Q s)"]
    by (simp add: s4_def s3_def redis_simps) (simp add: INCR_def Let_def)
  have sdl: "sorted (zset_at now s4 ?D)"
    using at unfolding dl seq_inv_def by (intro sorted_insort [THEN iffD2] sorted_filter_id) auto
  obtain m where m: "ZMAX now s4 ?D = Some m" "d \<le> m"
    by (rule ZMAX_ge [OF sdl, of d i]) (simp_all add: dl set_insort_key)
  with time have t: "now < m + 30000" by linarith
  note later = touch_admission_later [OF _ m(1) t]
  show "waiting now w (push_admission now w i d ws s) = waiting now w s @ [i]"
    using later [of now] t unfolding push waiting_def by (simp add: order)
  have "seq_inv n w (touch_admission now w s4)" if n: "now \<le> n" for n
  proof (cases "n \<le> m + 30000")
    case True
    with later [OF n] at new sdl show ?thesis
      by (auto simp: seq_inv_def waiting_def order cnt counter_of_def sorted_append intro: order_trans)
  next
    case False
    with later [OF n] show ?thesis by (simp add: seq_inv_def waiting_def)
  qed
  then show "admission_inv now w (push_admission now w i d ws s)"
    unfolding push admission_inv_def by simp
qed


lemma ZSCORE_iff: "ZSCORE now s (AdmissionKey w) i \<noteq> None \<longleftrightarrow> i \<in> set (waiting now w s)"
proof -
  have "find (\<lambda>p. snd p = i) z \<noteq> None \<longleftrightarrow> i \<in> snd ` set z" for z :: zset
    by (induction z) auto
  then show ?thesis by (auto simp: ZSCORE_def waiting_def)
qed

lemma ZCARD_waiting: "ZCARD now s (AdmissionKey w) = length (waiting now w s)"
  by (simp add: ZCARD_def waiting_def)


section \<open>The interface of an admission queue\<close>

text \<open>What a client relies on: entering drops the lapsed entries and appends at the end while there
  is room, leaving removes one entry and nothing else reorders the queue.\<close>

definition before :: "'i \<Rightarrow> 'i \<Rightarrow> 'i list \<Rightarrow> bool" where
  "before a b q \<longleftrightarrow> (\<exists>xs ys. q = xs @ ys \<and> a \<in> set xs \<and> b \<in> set ys)"

lemma before_filter:
  assumes "before a b q" "P a" "P b" shows "before a b (filter P q)"
proof -
  obtain xs ys where "q = xs @ ys" "a \<in> set xs" "b \<in> set ys"
    using assms(1) by (auto simp: before_def)
  then have "filter P q = filter P xs @ filter P ys" "a \<in> set (filter P xs)" "b \<in> set (filter P ys)"
    using assms by auto
  then show ?thesis unfolding before_def by blast
qed

lemma before_append: "before a b q \<Longrightarrow> before a b (q @ r)"
  unfolding before_def by (metis append.assoc set_append Un_iff)

lemma before_not_head: "before a b q \<Longrightarrow> distinct q \<Longrightarrow> q = h # r \<Longrightarrow> b \<noteq> h"
  by (auto simp: before_def Cons_eq_append_conv)

locale admission_queue =
  fixes queue :: "'t \<Rightarrow> 's \<Rightarrow> 'i list"
    and lapsed :: "'t \<Rightarrow> 's \<Rightarrow> 'i set"
    and enter_op :: "'t \<Rightarrow> 'i \<Rightarrow> 's \<Rightarrow> bool \<times> 's"
    and leave_op :: "'t \<Rightarrow> 'i \<Rightarrow> 's \<Rightarrow> 's"
    and inv :: "'t \<Rightarrow> 's \<Rightarrow> bool"
    and cap :: nat
  assumes enter_queue: "inv t s \<Longrightarrow> queue t (snd (enter_op t i s)) =
      (let q = filter (\<lambda>j. j \<notin> lapsed t s) (queue t s)
       in if i \<in> set q \<or> cap \<le> length q then q else q @ [i])"
    and enter_result: "inv t s \<Longrightarrow> fst (enter_op t i s) \<longleftrightarrow> i \<in> set (queue t (snd (enter_op t i s)))"
    and leave_queue: "inv t s \<Longrightarrow> queue t (leave_op t i s) = filter (\<lambda>j. j \<noteq> i) (queue t s)"
    and inv_enter: "inv t s \<Longrightarrow> inv t (snd (enter_op t i s))"
    and inv_leave: "inv t s \<Longrightarrow> inv t (leave_op t i s)"
    and inv_distinct: "inv t s \<Longrightarrow> distinct (queue t s)"
begin

lemma enter_bounded:
  assumes "inv t s" "length (queue t s) \<le> cap"
  shows "length (queue t (snd (enter_op t i s))) \<le> cap"
proof -
  have "length (filter (\<lambda>j. j \<notin> lapsed t s) (queue t s)) \<le> cap"
    using assms(2) by (rule order_trans [OF length_filter_le])
  with assms(1) show ?thesis by (auto simp: enter_queue Let_def)
qed

lemma enter_keeps_order:
  assumes "inv t s" "before a b (queue t s)" "a \<notin> lapsed t s" "b \<notin> lapsed t s"
  shows "before a b (queue t (snd (enter_op t i s)))"
  using before_filter [OF assms(2), of "\<lambda>j. j \<notin> lapsed t s"] assms
  by (auto simp: enter_queue Let_def intro: before_append)

lemma leave_keeps_order:
  assumes "inv t s" "before a b (queue t s)" "a \<noteq> i" "b \<noteq> i"
  shows "before a b (queue t (leave_op t i s))"
  using before_filter [OF assms(2), of "\<lambda>j. j \<noteq> i"] assms by (simp add: leave_queue)

lemma enter_behind:
  assumes "inv t s" "fst (enter_op t i s)" "i \<notin> set (queue t s)" "a \<in> set (queue t s)" "a \<notin> lapsed t s"
  shows "before a i (queue t (snd (enter_op t i s)))"
proof -
  let ?q = "filter (\<lambda>j. j \<notin> lapsed t s) (queue t s)"
  from assms have "queue t (snd (enter_op t i s)) = ?q @ [i]"
    using enter_result [OF assms(1), of i] by (auto simp: enter_queue Let_def split: if_splits)
  moreover have "a \<in> set ?q" using assms by simp
  ultimately show ?thesis unfolding before_def by (metis list.set_intros(1))
qed

lemma later_never_head:
  assumes "inv t s" "before a b (queue t s)" "queue t s = h # r"
  shows "b \<noteq> h"
  using before_not_head [OF assms(2) inv_distinct [OF assms(1)] assms(3)] .

end

text \<open>The scripts provide the interface, for each worker; the environment is the Redis clock, the
  replica's clock, the caller's deadline (not thirty seconds past) and its workspace.\<close>

type_synonym adm_env = "int \<times> int \<times> int \<times> jstr option"

definition adm_queue :: "jstr \<Rightarrow> adm_env \<Rightarrow> bstore \<Rightarrow> jstr list" where
  "adm_queue w t s = (case t of (now, dateNow, d, ws) \<Rightarrow> waiting now w s)"

definition adm_lapsed :: "jstr \<Rightarrow> adm_env \<Rightarrow> bstore \<Rightarrow> jstr set" where
  "adm_lapsed w t s = (case t of (now, dateNow, d, ws) \<Rightarrow> expired_ids now w dateNow s)"

definition adm_enter :: "jstr \<Rightarrow> adm_env \<Rightarrow> jstr \<Rightarrow> bstore \<Rightarrow> bool \<times> bstore" where
  "adm_enter w t i s = (case t of (now, dateNow, d, ws) \<Rightarrow> enter now dateNow w i d ws s)"

definition adm_leave :: "jstr \<Rightarrow> adm_env \<Rightarrow> jstr \<Rightarrow> bstore \<Rightarrow> bstore" where
  "adm_leave w t i s = (case t of (now, dateNow, d, ws) \<Rightarrow> leave now w i s)"

definition adm_inv :: "jstr \<Rightarrow> adm_env \<Rightarrow> bstore \<Rightarrow> bool" where
  "adm_inv w t s = (case t of (now, dateNow, d, ws) \<Rightarrow> admission_inv now w s \<and> now < d + 30000)"

lemma enter_spec:
  assumes "admission_inv now w s" "now < d + 30000"
  shows "waiting now w (snd (enter now dateNow w i d ws s)) =
      (let q = filter (\<lambda>j. j \<notin> expired_ids now w dateNow s) (waiting now w s)
       in if i \<in> set q \<or> ADMISSION_CAPACITY \<le> length q then q else q @ [i])"
    and "fst (enter now dateNow w i d ws s) \<longleftrightarrow> i \<in> set (waiting now w (snd (enter now dateNow w i d ws s)))"
    and "admission_inv now w (snd (enter now dateNow w i d ws s))"
proof -
  let ?s = "drop_expired now w dateNow s"
  have inv: "admission_inv now w ?s" using assms(1) by (rule admission_inv_drop_expired)
  note push = push_admission_spec [OF inv _ assms(2)]
  have z: "ZSCORE now ?s (AdmissionKey w) i = None \<longleftrightarrow> i \<notin> set (waiting now w ?s)"
    using ZSCORE_iff by blast
  show "waiting now w (snd (enter now dateNow w i d ws s)) =
      (let q = filter (\<lambda>j. j \<notin> expired_ids now w dateNow s) (waiting now w s)
       in if i \<in> set q \<or> ADMISSION_CAPACITY \<le> length q then q else q @ [i])"
    using push z by (auto simp: enter_def Let_def ZCARD_waiting waiting_drop_expired)
  show "fst (enter now dateNow w i d ws s) \<longleftrightarrow> i \<in> set (waiting now w (snd (enter now dateNow w i d ws s)))"
    using push z by (auto simp: enter_def Let_def ZCARD_waiting)
  show "admission_inv now w (snd (enter now dateNow w i d ws s))"
    using push z inv by (auto simp: enter_def Let_def ZCARD_waiting)
qed

interpretation adm: admission_queue "adm_queue w" "adm_lapsed w" "adm_enter w" "adm_leave w" "adm_inv w"
  ADMISSION_CAPACITY for w
proof (unfold_locales, goal_cases)
  case (1 t s i)
  then show ?case
    by (cases t) (simp add: adm_queue_def adm_enter_def adm_inv_def adm_lapsed_def enter_spec)
next
  case (2 t s i)
  then show ?case by (cases t) (simp add: adm_queue_def adm_enter_def adm_inv_def enter_spec)
next
  case (3 t s i)
  then show ?case by (cases t) (simp add: adm_queue_def adm_leave_def waiting_leave)
next
  case (4 t s i)
  then show ?case by (cases t) (simp add: adm_enter_def adm_inv_def enter_spec)
next
  case (5 t s i)
  then show ?case by (cases t) (simp add: adm_leave_def adm_inv_def admission_inv_leave)
next
  case (6 t s)
  then show ?case
    by (cases t) (auto simp: adm_inv_def adm_queue_def seq_inv_def dest: admission_inv_at)
qed


section \<open>Every interleaving of the scripts\<close>

text \<open>Any number of replicas issue the scripts in any order; the Redis clock does not go back; the
  deadlines callers pass are not thirty seconds past. \<open>other\<close> is any write that leaves the worker's
  four admission keys alone.\<close>

definition admission_keys :: "jstr \<Rightarrow> bkey set" where
  "admission_keys w =
     {AdmissionKey w, AdmissionDeadlinesKey w, AdmissionSequenceKey w, AdmissionWorkspacesKey w}"

inductive adm_reach :: "jstr \<Rightarrow> int \<Rightarrow> bstore \<Rightarrow> bool" for w where
  fresh: "\<forall>k \<in> admission_keys w. s k = None \<Longrightarrow> adm_reach w now s"
| entered: "adm_reach w n s \<Longrightarrow> n \<le> now \<Longrightarrow> now < d + 30000 \<Longrightarrow>
     adm_reach w now (snd (enter now dateNow w i d ws s))"
| submitted: "adm_reach w n s \<Longrightarrow> n \<le> now \<Longrightarrow> now < d + 30000 \<Longrightarrow> i \<notin> set (waiting now w s) \<Longrightarrow>
     adm_reach w now (snd (submit now dateNow w i d ws key scope fp rec ret s))"
| asked: "adm_reach w n s \<Longrightarrow> n \<le> now \<Longrightarrow> adm_reach w now (snd (isHead now dateNow w i s))"
| left: "adm_reach w n s \<Longrightarrow> n \<le> now \<Longrightarrow> adm_reach w now (leave now w i s)"
| other: "adm_reach w n s \<Longrightarrow> n \<le> now \<Longrightarrow> \<forall>k \<in> admission_keys w. s' k = s k \<Longrightarrow> adm_reach w now s'"

definition admission_ok :: "int \<Rightarrow> jstr \<Rightarrow> bstore \<Rightarrow> bool" where
  "admission_ok now w s \<longleftrightarrow> admission_inv now w s \<and> length (waiting now w s) \<le> ADMISSION_CAPACITY"

lemma waiting_later: "now \<le> n \<Longrightarrow> waiting n w s = waiting now w s \<or> waiting n w s = []"
  by (simp add: waiting_def zset_at_later [of now n])

lemma admission_ok_later: "admission_ok now w s \<Longrightarrow> now \<le> n \<Longrightarrow> admission_ok n w s"
  using waiting_later [of now n w s] by (auto simp: admission_ok_def admission_inv_def)

lemma admission_ok_cong:
  assumes "\<forall>k \<in> admission_keys w. s' k = s k"
  shows "admission_ok now w s' = admission_ok now w s"
proof -
  have "zset_at n s' (AdmissionKey w) = zset_at n s (AdmissionKey w)"
    "zset_at n s' (AdmissionDeadlinesKey w) = zset_at n s (AdmissionDeadlinesKey w)"
    "GET n s' (AdmissionSequenceKey w) = GET n s (AdmissionSequenceKey w)" for n
    using assms by (auto simp: admission_keys_def intro!: read_cong)
  then show ?thesis by (simp add: admission_ok_def admission_inv_def seq_inv_def waiting_def)
qed

lemma admission_ok_drop_expired: "admission_ok now w s \<Longrightarrow> admission_ok now w (drop_expired now w dateNow s)"
  by (auto simp: admission_ok_def waiting_drop_expired
      intro: admission_inv_drop_expired order_trans [OF length_filter_le])

lemma admission_ok_leave: "admission_ok now w s \<Longrightarrow> admission_ok now w (leave now w i s)"
  by (auto simp: admission_ok_def waiting_leave intro: admission_inv_leave order_trans [OF length_filter_le])

lemma admission_ok_enter:
  assumes "admission_ok now w s" "now < d + 30000"
  shows "admission_ok now w (snd (enter now dateNow w i d ws s))"
proof -
  have a: "adm_inv w (now, dateNow, d, ws) s" "length (adm_queue w (now, dateNow, d, ws) s) \<le> ADMISSION_CAPACITY"
    using assms by (simp_all add: adm_inv_def adm_queue_def admission_ok_def)
  from adm.enter_bounded [OF a, of i] adm.inv_enter [OF a(1), of i] show ?thesis
    by (simp add: admission_ok_def adm_queue_def adm_enter_def adm_inv_def)
qed

lemma admission_ok_submit:
  assumes "admission_ok now w s" "now < d + 30000" "i \<notin> set (waiting now w s)"
  shows "admission_ok now w (snd (submit now dateNow w i d ws key scope fp rec ret s))"
proof (cases "HGET now s (RequestKey key) (js ''fingerprint'')")
  case (Some f)
  with assms show ?thesis by (simp add: submit_def)
next
  case None
  let ?s = "drop_expired now w dateNow s"
  have ok: "admission_ok now w ?s" using assms(1) by (rule admission_ok_drop_expired)
  show ?thesis
  proof (cases "ADMISSION_CAPACITY \<le> ZCARD now ?s (AdmissionKey w)")
    case True
    with None ok show ?thesis by (simp add: submit_def Let_def)
  next
    case False
    let ?p = "push_admission now w i d ws ?s"
    have "i \<notin> set (waiting now w ?s)" using assms(3) by (simp add: waiting_drop_expired)
    with ok False assms(2) have p: "admission_ok now w ?p"
      by (simp add: admission_ok_def push_admission_spec ZCARD_waiting)
    have "\<forall>k \<in> admission_keys w.
        snd (submit now dateNow w i d ws key scope fp rec ret s) k = ?p k"
      using None False by (simp add: submit_def Let_def admission_keys_def redis_frame)
    with p show ?thesis by (simp only: admission_ok_cong)
  qed
qed

lemma adm_reach_ok: "adm_reach w now s \<Longrightarrow> admission_ok now w s"
proof (induction rule: adm_reach.induct)
  case (fresh s now)
  have "zset_at n s k = [] \<and> GET n s k = None" if "k \<in> admission_keys w" for n k
    using fresh that by (auto simp: zset_at_def GET_def peek_def)
  then show ?case
    by (simp add: admission_ok_def admission_inv_def seq_inv_def waiting_def admission_keys_def)
next
  case (entered n s now d dateNow i ws)
  then show ?case by (auto intro: admission_ok_enter admission_ok_later)
next
  case (submitted n s now d i dateNow ws key scope fp rec ret)
  then show ?case by (auto intro: admission_ok_submit admission_ok_later)
next
  case (asked n s now dateNow i)
  then show ?case by (auto simp: isHead_def Let_def intro: admission_ok_drop_expired admission_ok_later)
next
  case (left n s now i)
  then show ?case by (auto intro: admission_ok_leave admission_ok_later)
next
  case (other n s now s')
  then show ?case using admission_ok_cong admission_ok_later by metis
qed


section \<open>Properties\<close>



text \<open>
  Entering the queue is first come, first served: lapsed requests are dropped, a request already
  waiting keeps its place, a new one goes to the end if fewer than thirty-two wait and is refused
  otherwise, and the script answers whether the request is waiting afterwards.
\<close>

theorem admission_enter_fifo:
  assumes "adm_reach w n s" "n \<le> now" "now < d + 30000"
  shows "let q = filter (\<lambda>j. j \<notin> expired_ids now w dateNow s) (waiting now w s);
             r = enter now dateNow w i d ws s
         in waiting now w (snd r) = (if i \<in> set q \<or> ADMISSION_CAPACITY \<le> length q then q else q @ [i])
            \<and> (fst r \<longleftrightarrow> i \<in> set q \<or> length q < ADMISSION_CAPACITY)"
proof -
  have inv: "admission_inv now w s"
    using admission_ok_later [OF adm_reach_ok [OF assms(1)] assms(2)] by (simp add: admission_ok_def)
  from enter_spec [OF inv assms(3), of dateNow i ws] show ?thesis by (auto simp: Let_def)
qed

theorem admission_enter_fifo_witness:
  "waiting 0 (js ''w'') (snd (enter 0 0 (js ''w'') (js ''a'') 10 None Map.empty)) = [js ''a'']"
proof -
  have r: "adm_reach (js ''w'') 0 Map.empty" by (rule adm_reach.fresh) simp
  have "waiting 0 (js ''w'') Map.empty = []" by (simp add: waiting_def zset_at_def peek_def)
  with admission_enter_fifo [OF r, of 0 10 0 "js ''a''" None] show ?thesis
    by (simp add: Let_def ADMISSION_CAPACITY_def)
qed







end
