(* ===== verification/Slots.thy ===== *)
theory Slots
  imports Admission
begin

text \<open>
  Workspace slot reservations: \<^verbatim>\<open>service/src/bridge/slots.ts\<close>. One atomic script picks a free
  slot for an assignment when no busy slot holds a conflicting workspace and no older request of
  the admission queue has precedence; another releases an assignment's slot. The hash of a worker has
  four fields per slot (assignment, incarnation, workspace, expiry); the worker's lock is held by the
  slots as a whole.
\<close>

definition MAX_WORKSPACE_LEASE_SLOTS :: nat where
  "MAX_WORKSPACE_LEASE_SLOTS = 8"

definition fA :: "nat \<Rightarrow> jstr" where "fA slot = js ''a:'' @ show_nat slot"
definition fI :: "nat \<Rightarrow> jstr" where "fI slot = js ''i:'' @ show_nat slot"
definition fW :: "nat \<Rightarrow> jstr" where "fW slot = js ''w:'' @ show_nat slot"
definition fE :: "nat \<Rightarrow> jstr" where "fE slot = js ''e:'' @ show_nat slot"

text \<open>\<^verbatim>\<open>'workspace-slots:' .. incarnation\<close>, the value of the lock while slots are held.\<close>

definition slots_owner :: "jstr \<Rightarrow> bjson sval" where
  "slots_owner inc = Txt (js ''workspace-slots:'' @ inc)"

section \<open>The reservation script\<close>

record reserve_args =
  ra_workerId :: jstr
  ra_incarnationId :: jstr
  ra_assignmentId :: jstr
  ra_workspaceId :: jstr
  ra_capacity :: int
  ra_expiresAtMs :: int
  ra_refreshOwned :: bool
  ra_guard :: "guard option"

text \<open>The local variables of the scan over the slots.\<close>

record scan =
  sc_busy :: "jstr list"
  sc_busyChildren :: "jstr list"
  sc_free :: "nat option"
  sc_latest :: int

definition clear_slot :: "int \<Rightarrow> jstr \<Rightarrow> nat \<Rightarrow> bstore \<Rightarrow> bstore" where
  "clear_slot now w slot s =
     HDEL now (SlotsKey w) (fE slot) (HDEL now (SlotsKey w) (fW slot)
       (HDEL now (SlotsKey w) (fI slot) (HDEL now (SlotsKey w) (fA slot) s)))"

text \<open>An entry is stale when another incarnation wrote it or its expiry has passed.\<close>

definition stale_entry :: "jstr \<Rightarrow> int \<Rightarrow> bjson sval option \<Rightarrow> bjson sval option \<Rightarrow> bool" where
  "stale_entry inc dateNow i e \<longleftrightarrow>
     i \<noteq> Some (Txt inc) \<or> (case e of Some (NumV t) \<Rightarrow> t \<le> dateNow | _ \<Rightarrow> True)"

definition extend_expiry :: "int \<Rightarrow> int \<Rightarrow> int \<Rightarrow> bkey \<Rightarrow> bstore \<Rightarrow> bstore" where
  "extend_expiry now dateNow expiresAtMs k s =
     (if PTTL now s k < expiresAtMs - dateNow then PEXPIREAT now k expiresAtMs s else s)"

definition refresh_slot :: "int \<Rightarrow> int \<Rightarrow> reserve_args \<Rightarrow> nat \<Rightarrow> bstore \<Rightarrow> bstore" where
  "refresh_slot now dateNow a slot s =
     (let w = ra_workerId a in
      if ra_refreshOwned a then
        fold (extend_expiry now dateNow (ra_expiresAtMs a)) [SlotsKey w, LockKey w, LockIncarnationKey w]
          (HSET now (SlotsKey w) (fE slot) (NumV (ra_expiresAtMs a)) s)
      else s)"

definition take_free :: "int \<Rightarrow> nat \<Rightarrow> scan \<Rightarrow> scan" where
  "take_free capacity slot st =
     (if sc_free st = None \<and> int slot < capacity then st\<lparr>sc_free := Some slot\<rparr> else st)"

definition mark_busy :: "bjson sval option \<Rightarrow> bjson sval option \<Rightarrow> scan \<Rightarrow> scan" where
  "mark_busy ws e st =
     (let key = (case ws of Some (Txt x) \<Rightarrow> x | _ \<Rightarrow> []);
          t = (case e of Some (NumV n) \<Rightarrow> n | _ \<Rightarrow> 0)
      in st\<lparr>sc_busy := key # sc_busy st,
            sc_busyChildren := (case parentOf key of None \<Rightarrow> sc_busyChildren st
                                | Some p \<Rightarrow> p # sc_busyChildren st),
            sc_latest := max (sc_latest st) t\<rparr>)"

text \<open>\<^verbatim>\<open>for slot = 0, 7\<close>: \<open>Inl slot\<close> is the early \<^verbatim>\<open>return slot\<close>.\<close>

fun scan_slots ::
  "int \<Rightarrow> int \<Rightarrow> reserve_args \<Rightarrow> nat list \<Rightarrow> scan \<Rightarrow> bstore \<Rightarrow> (nat + scan) \<times> bstore" where
  "scan_slots now dateNow a [] st s = (Inr st, s)"
| "scan_slots now dateNow a (slot # slots) st s =
     (let h = SlotsKey (ra_workerId a);
          eA = HGET now s h (fA slot); eI = HGET now s h (fI slot);
          eW = HGET now s h (fW slot); eE = HGET now s h (fE slot)
      in if eA = None
         then scan_slots now dateNow a slots (take_free (ra_capacity a) slot st) s
         else if stale_entry (ra_incarnationId a) dateNow eI eE
         then scan_slots now dateNow a slots (take_free (ra_capacity a) slot st)
                (clear_slot now (ra_workerId a) slot s)
         else if eA = Some (Txt (ra_assignmentId a))
         then (Inl slot, refresh_slot now dateNow a slot s)
         else scan_slots now dateNow a slots (mark_busy eW eE st) s)"

definition conflicts :: "jstr list \<Rightarrow> jstr list \<Rightarrow> jstr \<Rightarrow> bool" where
  "conflicts busy busyChildren key \<longleftrightarrow>
     (if key \<in> set busy then True
      else case parentOf key of Some p \<Rightarrow> p \<in> set busy | None \<Rightarrow> key \<in> set busyChildren)"

text \<open>The first pending request not held back. \<open>None\<close> is the early \<^verbatim>\<open>return -1\<close> at a serial
  request, which carries no workspace.\<close>

fun select_pending ::
  "(jstr \<Rightarrow> jstr option) \<Rightarrow> (jstr \<Rightarrow> bool) \<Rightarrow> jstr list \<Rightarrow> jstr list \<Rightarrow> jstr option option" where
  "select_pending workspaceOf held [] waitingCheckouts = Some None"
| "select_pending workspaceOf held (i # ids) waitingCheckouts =
     (case workspaceOf i of
        None \<Rightarrow> None
      | Some workspace \<Rightarrow>
          let parent = parentOf workspace;
              h = (held workspace \<or> (case parent of None \<Rightarrow> False | Some p \<Rightarrow> p \<in> set waitingCheckouts))
          in if \<not> h then Some (Some i)
             else select_pending workspaceOf held ids
                    (if parent = None then workspace # waitingCheckouts else waitingCheckouts))"

definition pending_workspace :: "int \<Rightarrow> bstore \<Rightarrow> jstr \<Rightarrow> jstr \<Rightarrow> jstr option" where
  "pending_workspace now s w i =
     (case HGET now s (AdmissionWorkspacesKey w) i of Some (Txt x) \<Rightarrow> Some x | _ \<Rightarrow> None)"

definition write_slot :: "int \<Rightarrow> reserve_args \<Rightarrow> nat \<Rightarrow> int \<Rightarrow> bstore \<Rightarrow> bstore" where
  "write_slot now a free latest s =
     (let w = ra_workerId a; h = SlotsKey w;
          s1 = HSET now h (fA free) (Txt (ra_assignmentId a)) s;
          s2 = HSET now h (fI free) (Txt (ra_incarnationId a)) s1;
          s3 = HSET now h (fW free) (Txt (ra_workspaceId a)) s2;
          s4 = HSET now h (fE free) (NumV (ra_expiresAtMs a)) s3;
          s5 = PEXPIREAT now h latest s4;
          s6 = SETAT latest (LockKey w) (slots_owner (ra_incarnationId a)) s5
      in SETAT latest (LockIncarnationKey w) (Txt (ra_incarnationId a)) s6)"

datatype reserve_reply = Slot nat | Unavailable | Replaced | GuardFailed

definition empty_scan :: "reserve_args \<Rightarrow> scan" where
  "empty_scan a = \<lparr>sc_busy = [], sc_busyChildren = [], sc_free = None, sc_latest = ra_expiresAtMs a\<rparr>"

text \<open>The guards before the scan, and the decision after it.\<close>

definition reserve_refusal :: "int \<Rightarrow> reserve_args \<Rightarrow> bstore \<Rightarrow> reserve_reply option" where
  "reserve_refusal now a s =
     (let w = ra_workerId a in
      if (case ra_guard a of None \<Rightarrow> False | Some g \<Rightarrow> \<not> durableAdmissionFence now s g) then Some GuardFailed
      else if GET now s (IncarnationKey w) \<noteq> Some (Txt (ra_incarnationId a)) then Some Replaced
      else if (case GET now s (SlotCapacityKey w) of None \<Rightarrow> NumV 1 | Some v \<Rightarrow> v) \<noteq> NumV (ra_capacity a)
      then Some Replaced
      else if (case GET now s (LockKey w) of None \<Rightarrow> False | Some l \<Rightarrow> l \<noteq> slots_owner (ra_incarnationId a))
      then Some Unavailable
      else None)"

definition reserve_pick :: "int \<Rightarrow> int \<Rightarrow> reserve_args \<Rightarrow> scan \<Rightarrow> bstore \<Rightarrow> reserve_reply \<times> bstore" where
  "reserve_pick now dateNow a st s =
     (let w = ra_workerId a in
      case sc_free st of
        None \<Rightarrow> (Unavailable, s)
      | Some free \<Rightarrow>
          if conflicts (sc_busy st) (sc_busyChildren st) (ra_workspaceId a) then (Unavailable, s)
          else
            let s2 = drop_expired now w dateNow s;
                pending = ZRANGE_first now s2 (AdmissionKey w) 32
            in (case select_pending (pending_workspace now s2 w)
                       (conflicts (sc_busy st) (sc_busyChildren st)) pending [] of
                  None \<Rightarrow> (Unavailable, s2)
                | Some selected \<Rightarrow>
                    if selected \<noteq> Some (ra_assignmentId a) then (Unavailable, s2)
                    else (Slot free, write_slot now a free (sc_latest st) s2)))"

definition reserve_script :: "int \<Rightarrow> int \<Rightarrow> reserve_args \<Rightarrow> bstore \<Rightarrow> reserve_reply \<times> bstore" where
  "reserve_script now dateNow a s =
     (case reserve_refusal now a s of
        Some r \<Rightarrow> (r, s)
      | None \<Rightarrow>
          (case scan_slots now dateNow a [0..<MAX_WORKSPACE_LEASE_SLOTS] (empty_scan a) s of
             (Inl slot, s1) \<Rightarrow> (Slot slot, s1)
           | (Inr st, s1) \<Rightarrow> reserve_pick now dateNow a st s1))"

text \<open>The method: argument checks, the script, and its negative replies.\<close>

definition reserve :: "int \<Rightarrow> int \<Rightarrow> reserve_args \<Rightarrow> bstore \<Rightarrow> (bridge_error, nat option) result \<times> bstore" where
  "reserve now dateNow a s =
     (if \<bar>ra_capacity a\<bar> > MAX_SAFE_INTEGER \<or> ra_capacity a < 1
         \<or> ra_capacity a > int MAX_WORKSPACE_LEASE_SLOTS \<or> ra_workspaceId a = []
         \<or> \<bar>ra_expiresAtMs a\<bar> > MAX_SAFE_INTEGER \<or> ra_expiresAtMs a \<le> dateNow
      then (Err PlainError, s)
      else case reserve_script now dateNow a s of
        (Slot n, s') \<Rightarrow> (Ok (Some n), s')
      | (Replaced, s') \<Rightarrow> (Err PlainError, s')
      | (_, s') \<Rightarrow> (Ok None, s'))"

section \<open>The release script\<close>

text \<open>The loop: clear the slots of this assignment and incarnation, keep the latest expiry of the
  others.\<close>

fun release_scan :: "int \<Rightarrow> jstr \<Rightarrow> jstr \<Rightarrow> jstr \<Rightarrow> nat list \<Rightarrow> int \<Rightarrow> bstore \<Rightarrow> int \<times> bstore" where
  "release_scan now w inc aid [] latest s = (latest, s)"
| "release_scan now w inc aid (slot # slots) latest s =
     (let eA = HGET now s (SlotsKey w) (fA slot); eI = HGET now s (SlotsKey w) (fI slot);
          eE = HGET now s (SlotsKey w) (fE slot)
      in if eI = Some (Txt inc) \<and> eA = Some (Txt aid)
         then release_scan now w inc aid slots latest (clear_slot now w slot s)
         else if eA \<noteq> None
         then release_scan now w inc aid slots
                (max latest (case eE of Some (NumV t) \<Rightarrow> t | _ \<Rightarrow> 0)) s
         else release_scan now w inc aid slots latest s)"

definition release :: "int \<Rightarrow> jstr \<Rightarrow> jstr \<Rightarrow> jstr \<Rightarrow> bstore \<Rightarrow> bstore" where
  "release now w inc aid s =
     (let (latest, s1) = release_scan now w inc aid [0..<MAX_WORKSPACE_LEASE_SLOTS] 0 s in
      if HLEN now s1 (SlotsKey w) = 0 \<and> GET now s1 (LockKey w) = Some (slots_owner inc)
      then DEL (LockIncarnationKey w) (DEL (LockKey w) (DEL (SlotsKey w) s1))
      else if latest > 0 \<and> GET now s1 (LockKey w) = Some (slots_owner inc)
      then fold (\<lambda>k. PEXPIREAT now k latest) [SlotsKey w, LockKey w, LockIncarnationKey w] s1
      else s1)"


section \<open>The table a worker's hash represents\<close>

text \<open>Slot \<open>n\<close> as the quadruple of its four fields: assignment, incarnation, workspace, expiry.\<close>

type_synonym slot_entry = "jstr \<times> jstr \<times> jstr \<times> int"

definition slot_at :: "int \<Rightarrow> jstr \<Rightarrow> bstore \<Rightarrow> nat \<Rightarrow> slot_entry option" where
  "slot_at now w s n =
     (case (HGET now s (SlotsKey w) (fA n), HGET now s (SlotsKey w) (fI n),
            HGET now s (SlotsKey w) (fW n), HGET now s (SlotsKey w) (fE n)) of
        (Some (Txt a), Some (Txt i), Some (Txt x), Some (NumV e)) \<Rightarrow> Some (a, i, x, e)
      | _ \<Rightarrow> None)"

definition slot_blank :: "int \<Rightarrow> jstr \<Rightarrow> bstore \<Rightarrow> nat \<Rightarrow> bool" where
  "slot_blank now w s n \<longleftrightarrow>
     HGET now s (SlotsKey w) (fA n) = None \<and> HGET now s (SlotsKey w) (fI n) = None \<and>
     HGET now s (SlotsKey w) (fW n) = None \<and> HGET now s (SlotsKey w) (fE n) = None"

text \<open>The four fields of a slot are present together or absent together.\<close>

definition slots_typed :: "int \<Rightarrow> jstr \<Rightarrow> bstore \<Rightarrow> bool" where
  "slots_typed now w s \<longleftrightarrow> (\<forall>n. slot_at now w s n \<noteq> None \<or> slot_blank now w s n)"

text \<open>Lanes do not nest: the parent of a lane is a checkout.\<close>

definition flat_key :: "jstr \<Rightarrow> bool" where
  "flat_key k \<longleftrightarrow> (case parentOf k of None \<Rightarrow> True | Some p \<Rightarrow> parentOf p = None)"

definition slots_inv :: "int \<Rightarrow> jstr \<Rightarrow> bstore \<Rightarrow> bool" where
  "slots_inv now w s \<longleftrightarrow> slots_typed now w s \<and>
     (\<forall>n a i x e. slot_at now w s n = Some (a, i, x, e) \<longrightarrow>
        n < MAX_WORKSPACE_LEASE_SLOTS \<and> flat_key x \<and>
        (\<forall>m a' i' x' e'. m \<noteq> n \<longrightarrow> slot_at now w s m = Some (a', i', x', e') \<longrightarrow>
           a \<noteq> a' \<and> \<not> workspaceIsolationKeysConflict x x'))"

definition purge :: "jstr \<Rightarrow> int \<Rightarrow> slot_entry option \<Rightarrow> slot_entry option" where
  "purge inc dateNow t =
     (case t of None \<Rightarrow> None
      | Some (a, i, x, e) \<Rightarrow> if i \<noteq> inc \<or> e \<le> dateNow then None else t)"

text \<open>\<open>s'\<close> holds no more reservations than \<open>s\<close>.\<close>

definition slots_shrink :: "int \<Rightarrow> jstr \<Rightarrow> bstore \<Rightarrow> bstore \<Rightarrow> bool" where
  "slots_shrink now w s s' \<longleftrightarrow> slots_typed now w s' \<and>
     (\<forall>n a i x e. slot_at now w s' n = Some (a, i, x, e) \<longrightarrow> (\<exists>e'. slot_at now w s n = Some (a, i, x, e')))"

lemma field_eqs [simp]:
  "fA n = fA m \<longleftrightarrow> n = m" "fI n = fI m \<longleftrightarrow> n = m" "fW n = fW m \<longleftrightarrow> n = m" "fE n = fE m \<longleftrightarrow> n = m"
  by (simp_all add: fA_def fI_def fW_def fE_def)

lemma field_neqs [simp]:
  "fA n \<noteq> fI m" "fA n \<noteq> fW m" "fA n \<noteq> fE m" "fI n \<noteq> fA m" "fI n \<noteq> fW m" "fI n \<noteq> fE m"
  "fW n \<noteq> fA m" "fW n \<noteq> fI m" "fW n \<noteq> fE m" "fE n \<noteq> fA m" "fE n \<noteq> fI m" "fE n \<noteq> fW m"
  by (simp_all add: fA_def fI_def fW_def fE_def js_def)

lemma slot_at_SomeD:
  assumes "slot_at now w s n = Some (a, i, x, e)"
  shows "HGET now s (SlotsKey w) (fA n) = Some (Txt a)" "HGET now s (SlotsKey w) (fI n) = Some (Txt i)"
    "HGET now s (SlotsKey w) (fW n) = Some (Txt x)" "HGET now s (SlotsKey w) (fE n) = Some (NumV e)"
  using assms by (auto simp: slot_at_def split: option.splits sval.splits)

lemma slot_at_hash:
  assumes "\<And>f. HGET now' s' (SlotsKey w) f = HGET now s (SlotsKey w) f"
  shows "slot_at now' w s' n = slot_at now w s n" "slot_blank now' w s' n = slot_blank now w s n"
    "slots_typed now' w s' = slots_typed now w s"
  using assms by (simp_all add: slot_at_def slot_blank_def slots_typed_def)

lemma slot_blank_None: "slot_blank now w s n \<Longrightarrow> slot_at now w s n = None"
  by (simp add: slot_at_def slot_blank_def)

lemma slots_typed_blank: "slots_typed now w s \<Longrightarrow> slot_at now w s n = None \<Longrightarrow> slot_blank now w s n"
  unfolding slots_typed_def by blast

lemma slot_at_clear:
  "slot_at now w (clear_slot now w m s) n = (if n = m then None else slot_at now w s n)"
  "slot_blank now w (clear_slot now w m s) n \<longleftrightarrow> n = m \<or> slot_blank now w s n"
  by (auto simp: slot_at_def slot_blank_def clear_slot_def HGET_HDEL split: option.splits sval.splits)

lemma clear_slot_frame: "k \<noteq> SlotsKey w \<Longrightarrow> clear_slot now w m s k = s k"
  by (simp add: clear_slot_def redis_frame)

lemma slots_typed_clear: "slots_typed now w s \<Longrightarrow> slots_typed now w (clear_slot now w m s)"
  by (auto simp: slots_typed_def slot_at_clear)

lemma slots_shrink_refl: "slots_typed now w s \<Longrightarrow> slots_shrink now w s s"
  by (simp add: slots_shrink_def)

lemma slots_shrink_trans:
  "slots_shrink now w s s' \<Longrightarrow> slots_shrink now w s' s'' \<Longrightarrow> slots_shrink now w s s''"
  unfolding slots_shrink_def by metis

lemma slots_shrink_clear: "slots_typed now w s \<Longrightarrow> slots_shrink now w s (clear_slot now w m s)"
  by (simp add: slots_shrink_def slots_typed_clear slot_at_clear)

lemma slots_shrink_cong:
  "s' (SlotsKey w) = s (SlotsKey w) \<Longrightarrow> slots_typed now w s \<Longrightarrow> slots_shrink now w s s'"
  using slot_at_hash [of now s' w now s] read_cong(9) [of s' "SlotsKey w" s now]
  by (simp add: slots_shrink_def)

lemma slots_inv_shrink: "slots_inv now w s \<Longrightarrow> slots_shrink now w s s' \<Longrightarrow> slots_inv now w s'"
  unfolding slots_inv_def slots_shrink_def by metis


lemma HGET_PEXPIREAT:
  "HGET now (PEXPIREAT now k t s) k' f = (if k' = k \<and> t \<le> now then None else HGET now s k' f)"
proof (cases "k' = k")
  case True
  then show ?thesis by (simp add: HGET_def collection_PEXPIREAT)
next
  case False
  then show ?thesis using read_cong(9) [of "PEXPIREAT now k t s" k' s] by (simp add: redis_frame)
qed

lemma slots_shrink_PEXPIREAT:
  assumes "slots_typed now w s"
  shows "slots_shrink now w s (PEXPIREAT now k t s)"
proof (cases "k = SlotsKey w \<and> t \<le> now")
  case True
  then show ?thesis
    by (simp add: slots_shrink_def slots_typed_def slot_blank_def slot_at_def HGET_PEXPIREAT)
next
  case False
  then show ?thesis
    using assms slot_at_hash [of now "PEXPIREAT now k t s" w now s] HGET_PEXPIREAT [of now k t s]
    by (auto simp: slots_shrink_def)
qed

lemma slots_shrink_fold:
  assumes "\<And>k s. slots_typed now w s \<Longrightarrow> slots_shrink now w s (f k s)" "slots_typed now w s"
  shows "slots_shrink now w s (fold f ks s)"
  using assms(2)
proof (induction ks arbitrary: s)
  case Nil
  then show ?case by (simp add: slots_shrink_refl)
next
  case (Cons k ks)
  have "slots_shrink now w s (f k s)" by (rule assms(1) [OF Cons.prems])
  moreover from this have "slots_typed now w (f k s)" by (simp add: slots_shrink_def)
  ultimately show ?case using Cons.IH slots_shrink_trans by fastforce
qed

lemma slots_shrink_extend:
  "slots_typed now w s \<Longrightarrow> slots_shrink now w s (extend_expiry now dateNow t k s)"
  by (simp add: extend_expiry_def slots_shrink_PEXPIREAT slots_shrink_refl)

lemma slots_shrink_set_expiry:
  assumes "slots_typed now w s" "slot_at now w s n \<noteq> None"
  shows "slots_shrink now w s (HSET now (SlotsKey w) (fE n) (NumV t) s)"
proof -
  let ?s = "HSET now (SlotsKey w) (fE n) (NumV t) s"
  have "slot_at now w ?s m = (if m = n then map_option (\<lambda>(a, i, x, e). (a, i, x, t)) (slot_at now w s n)
      else slot_at now w s m)" for m
    using assms(2) by (auto simp: slot_at_def HGET_HSET split: option.splits sval.splits)
  moreover have "slot_blank now w ?s m = slot_blank now w s m" if "m \<noteq> n" for m
    using that by (simp add: slot_blank_def HGET_HSET)
  ultimately show ?thesis using assms
    by (auto simp: slots_shrink_def slots_typed_def split: if_splits)
qed

lemma slots_shrink_refresh:
  assumes "slots_typed now (ra_workerId a) s" "slot_at now (ra_workerId a) s n \<noteq> None"
  shows "slots_shrink now (ra_workerId a) s (refresh_slot now dateNow a n s)"
proof -
  let ?h = "HSET now (SlotsKey (ra_workerId a)) (fE n) (NumV (ra_expiresAtMs a)) s"
  have h: "slots_shrink now (ra_workerId a) s ?h" by (rule slots_shrink_set_expiry [OF assms])
  then have "slots_typed now (ra_workerId a) ?h" by (simp add: slots_shrink_def)
  then have "slots_shrink now (ra_workerId a) ?h (fold (extend_expiry now dateNow (ra_expiresAtMs a)) ks ?h)" for ks
    by (intro slots_shrink_fold slots_shrink_extend)
  from slots_shrink_trans [OF h this [of "[SlotsKey (ra_workerId a), LockKey (ra_workerId a),
      LockIncarnationKey (ra_workerId a)]"]] assms(1)
  show ?thesis by (simp add: refresh_slot_def Let_def slots_shrink_refl)
qed

text \<open>The scan: entries of other incarnations and lapsed entries are removed; what is left is what the
  busy tables record.\<close>

definition tab_keys :: "(nat \<Rightarrow> slot_entry option) \<Rightarrow> nat set \<Rightarrow> jstr set" where
  "tab_keys t N = {x. \<exists>n\<in>N. \<exists>a i e. t n = Some (a, i, x, e)}"

definition scanned :: "reserve_args \<Rightarrow> (nat \<Rightarrow> slot_entry option) \<Rightarrow> nat set \<Rightarrow> scan \<Rightarrow> scan \<Rightarrow> bool" where
  "scanned a t N st st' \<longleftrightarrow>
     (\<forall>n\<in>N. \<forall>a' i x e. t n = Some (a', i, x, e) \<longrightarrow>
        a' \<noteq> ra_assignmentId a \<and> i = ra_incarnationId a \<and> e \<le> sc_latest st') \<and>
     set (sc_busy st') = set (sc_busy st) \<union> tab_keys t N \<and>
     set (sc_busyChildren st') = set (sc_busyChildren st) \<union> {p. \<exists>x\<in>tab_keys t N. parentOf x = Some p} \<and>
     (\<forall>f. sc_free st' = Some f \<longrightarrow>
        sc_free st = Some f \<or> f \<in> N \<and> int f < ra_capacity a \<and> t f = None) \<and>
     (sc_free st' = None \<longrightarrow> sc_free st = None \<and> (\<forall>n\<in>N. int n < ra_capacity a \<longrightarrow> t n \<noteq> None)) \<and>
     sc_latest st \<le> sc_latest st'"

lemma tab_keys_insert:
  "tab_keys t (insert n N) = (case t n of None \<Rightarrow> {} | Some (a, i, x, e) \<Rightarrow> {x}) \<union> tab_keys t N"
  by (auto simp: tab_keys_def split: option.splits)

lemma scanned_free:
  assumes "scanned a t N (take_free (ra_capacity a) n st) st'" "t n = None"
  shows "scanned a t (insert n N) st st'"
  using assms unfolding scanned_def tab_keys_insert take_free_def by (auto split: if_splits)

lemma scanned_busy:
  assumes "scanned a t N (mark_busy (Some (Txt x)) (Some (NumV e)) st) st'"
    "t n = Some (b, ra_incarnationId a, x, e)" "b \<noteq> ra_assignmentId a"
  shows "scanned a t (insert n N) st st'"
  using assms unfolding scanned_def tab_keys_insert mark_busy_def Let_def
  by (auto split: option.splits)


lemma scan_slots_Inr:
  assumes "slots_typed now (ra_workerId a) s" "distinct slots"
    and "scan_slots now dateNow a slots st s = (Inr st', s')"
  shows "slots_typed now (ra_workerId a) s' \<and>
    (\<forall>n. slot_at now (ra_workerId a) s' n =
       (if n \<in> set slots then purge (ra_incarnationId a) dateNow (slot_at now (ra_workerId a) s n)
        else slot_at now (ra_workerId a) s n)) \<and>
    (\<forall>k. k \<noteq> SlotsKey (ra_workerId a) \<longrightarrow> s' k = s k) \<and>
    scanned a (slot_at now (ra_workerId a) s') (set slots) st st'"
  using assms
proof (induction slots arbitrary: st s)
  case Nil
  then show ?case by (simp add: scanned_def tab_keys_def)
next
  case (Cons slot slots)
  let ?w = "ra_workerId a" and ?S = "slot_at now (ra_workerId a)"
  let ?h = "HGET now s (SlotsKey ?w)"
  show ?case
  proof (cases "?S s slot")
    case None
    have "slot_blank now ?w s slot" by (rule slots_typed_blank [OF Cons.prems(1) None])
    then have "scan_slots now dateNow a slots (take_free (ra_capacity a) slot st) s = (Inr st', s')"
      using Cons.prems(3) by (simp add: slot_blank_def)
    with Cons.IH [OF Cons.prems(1) _ this] Cons.prems(2) have
      IH: "slots_typed now ?w s'" "\<And>n. ?S s' n = (if n \<in> set slots
          then purge (ra_incarnationId a) dateNow (?S s n) else ?S s n)"
        "\<And>k. k \<noteq> SlotsKey ?w \<Longrightarrow> s' k = s k"
        "scanned a (?S s') (set slots) (take_free (ra_capacity a) slot st) st'" by auto
    have "scanned a (?S s') (insert slot (set slots)) st st'"
      using IH(2) [of slot] Cons.prems(2) None by (intro scanned_free [OF IH(4)]) simp
    moreover have "\<forall>n. ?S s' n = (if n \<in> set (slot # slots)
        then purge (ra_incarnationId a) dateNow (?S s n) else ?S s n)"
      using IH(2) None by (simp add: purge_def)
    moreover have "\<forall>k. k \<noteq> SlotsKey ?w \<longrightarrow> s' k = s k" using IH(3) by (simp add: clear_slot_frame)
    ultimately show ?thesis using IH(1) unfolding list.set by (intro conjI)
  next
    case (Some q)
    obtain b i x e where q: "q = (b, i, x, e)" by (cases q) auto
    note f = slot_at_SomeD [OF Some [unfolded q]]
    show ?thesis
    proof (cases "i \<noteq> ra_incarnationId a \<or> e \<le> dateNow")
      case True
      let ?c = "clear_slot now ?w slot s"
      have "scan_slots now dateNow a slots (take_free (ra_capacity a) slot st) ?c = (Inr st', s')"
        using Cons.prems(3) True f by (auto simp: stale_entry_def)
      with Cons.IH [OF slots_typed_clear [OF Cons.prems(1)] _ this] Cons.prems(2) have
        IH: "slots_typed now ?w s'" "\<And>n. ?S s' n = (if n \<in> set slots
            then purge (ra_incarnationId a) dateNow (?S ?c n) else ?S ?c n)"
          "\<And>k. k \<noteq> SlotsKey ?w \<Longrightarrow> s' k = ?c k"
          "scanned a (?S s') (set slots) (take_free (ra_capacity a) slot st) st'" by auto
      have "scanned a (?S s') (insert slot (set slots)) st st'"
        using IH(2) [of slot] Cons.prems(2) by (intro scanned_free [OF IH(4)]) (simp add: slot_at_clear)
      moreover have "\<forall>n. ?S s' n = (if n \<in> set (slot # slots)
          then purge (ra_incarnationId a) dateNow (?S s n) else ?S s n)"
        using IH(2) True Some q by (simp add: purge_def slot_at_clear)
      moreover have "\<forall>k. k \<noteq> SlotsKey ?w \<longrightarrow> s' k = s k" using IH(3) by (simp add: clear_slot_frame)
      ultimately show ?thesis using IH(1) unfolding list.set by (intro conjI)
    next
      case False
      then have "scan_slots now dateNow a slots (mark_busy (Some (Txt x)) (Some (NumV e)) st) s = (Inr st', s')"
        and "b \<noteq> ra_assignmentId a"
        using Cons.prems(3) f by (auto simp: stale_entry_def Let_def split: if_splits)
      with Cons.IH [OF Cons.prems(1) _ this(1)] Cons.prems(2) have
        IH: "slots_typed now ?w s'" "\<And>n. ?S s' n = (if n \<in> set slots
            then purge (ra_incarnationId a) dateNow (?S s n) else ?S s n)"
          "\<And>k. k \<noteq> SlotsKey ?w \<Longrightarrow> s' k = s k"
          "scanned a (?S s') (set slots) (mark_busy (Some (Txt x)) (Some (NumV e)) st) st'"
          and b: "b \<noteq> ra_assignmentId a" by auto
      have "scanned a (?S s') (insert slot (set slots)) st st'"
        using IH(2) [of slot] Cons.prems(2) Some q False by (intro scanned_busy [OF IH(4) _ b]) simp
      moreover have "\<forall>n. ?S s' n = (if n \<in> set (slot # slots)
          then purge (ra_incarnationId a) dateNow (?S s n) else ?S s n)"
        using IH(2) Some q False Cons.prems(2) by (simp add: purge_def)
      moreover have "\<forall>k. k \<noteq> SlotsKey ?w \<longrightarrow> s' k = s k" using IH(3) by (simp add: clear_slot_frame)
      ultimately show ?thesis using IH(1) unfolding list.set by (intro conjI)
    qed
  qed
qed

lemma scan_slots_Inl:
  assumes "slots_typed now (ra_workerId a) s"
    and "scan_slots now dateNow a slots st s = (Inl slot, s')"
  shows "slots_shrink now (ra_workerId a) s s' \<and> slot \<in> set slots \<and>
    (\<exists>x e. slot_at now (ra_workerId a) s slot = Some (ra_assignmentId a, ra_incarnationId a, x, e) \<and> dateNow < e)"
  using assms
proof (induction slots arbitrary: st s)
  case Nil
  then show ?case by simp
next
  case (Cons sl slots)
  let ?w = "ra_workerId a" and ?S = "slot_at now (ra_workerId a)"
  show ?case
  proof (cases "?S s sl")
    case None
    have "slot_blank now ?w s sl" by (rule slots_typed_blank [OF Cons.prems(1) None])
    then have "scan_slots now dateNow a slots (take_free (ra_capacity a) sl st) s = (Inl slot, s')"
      using Cons.prems(2) by (simp add: slot_blank_def)
    from Cons.IH [OF Cons.prems(1) this] show ?thesis by auto
  next
    case (Some q)
    obtain b i x e where q: "q = (b, i, x, e)" by (cases q) auto
    note f = slot_at_SomeD [OF Some [unfolded q]]
    consider (stale) "i \<noteq> ra_incarnationId a \<or> e \<le> dateNow"
      | (own) "i = ra_incarnationId a" "dateNow < e" "b = ra_assignmentId a"
      | (busy) "i = ra_incarnationId a" "dateNow < e" "b \<noteq> ra_assignmentId a" by force
    then show ?thesis
    proof cases
      case stale
      let ?c = "clear_slot now ?w sl s"
      have "scan_slots now dateNow a slots (take_free (ra_capacity a) sl st) ?c = (Inl slot, s')"
        using Cons.prems(2) stale f by (auto simp: stale_entry_def)
      from Cons.IH [OF slots_typed_clear [OF Cons.prems(1)] this]
        slots_shrink_trans [OF slots_shrink_clear [OF Cons.prems(1)]]
      show ?thesis by (auto simp: slot_at_clear split: if_splits)
    next
      case own
      have "scan_slots now dateNow a (sl # slots) st s = (Inl sl, refresh_slot now dateNow a sl s)"
        using own f by (simp add: stale_entry_def)
      with Cons.prems(2) have "sl = slot" "s' = refresh_slot now dateNow a sl s" by simp_all
      then show ?thesis using own Some q slots_shrink_refresh [OF Cons.prems(1), of sl] by simp
    next
      case busy
      then have "scan_slots now dateNow a slots (mark_busy (Some (Txt x)) (Some (NumV e)) st) s = (Inl slot, s')"
        using Cons.prems(2) f by (simp add: stale_entry_def)
      from Cons.IH [OF Cons.prems(1) this] show ?thesis by auto
    qed
  qed
qed


text \<open>On the busy tables of a scan the script's conflict test is the isolation conflict of the
  protocol.\<close>

lemma conflicts_iff:
  assumes "\<And>x. x \<in> set busy \<Longrightarrow> flat_key x"
    and "set children = {p. \<exists>x\<in>set busy. parentOf x = Some p}"
  shows "conflicts busy children k \<longleftrightarrow> (\<exists>x\<in>set busy. workspaceIsolationKeysConflict k x)"
proof (cases "parentOf k")
  case None
  then show ?thesis using assms(2)
    by (auto simp: conflicts_def workspaceIsolationKeysConflict_def parentOf_eq)
next
  case (Some p)
  have "parentOf x \<noteq> Some k" if "x \<in> set busy" for x
    using assms(1) [OF that] Some by (auto simp: flat_key_def)
  then show ?thesis using Some
    by (auto simp: conflicts_def workspaceIsolationKeysConflict_def parentOf_eq)
qed

lemma slot_at_frame: "s' (SlotsKey w) = s (SlotsKey w) \<Longrightarrow> slot_at now w s' n = slot_at now w s n"
  using slot_at_hash(1) [of now s' w now s] read_cong(9) [of s' "SlotsKey w" s now] by simp

lemma slots_typed_frame: "s' (SlotsKey w) = s (SlotsKey w) \<Longrightarrow> slots_typed now w s' = slots_typed now w s"
  using slot_at_hash(3) [of now s' w now s] read_cong(9) [of s' "SlotsKey w" s now] by simp

lemma write_slot_spec:
  assumes "slots_typed now (ra_workerId a) s" "now < latest"
  shows "slots_typed now (ra_workerId a) (write_slot now a free latest s)"
    "slot_at now (ra_workerId a) (write_slot now a free latest s) n =
       (if n = free then Some (ra_assignmentId a, ra_incarnationId a, ra_workspaceId a, ra_expiresAtMs a)
        else slot_at now (ra_workerId a) s n)"
proof -
  let ?w = "ra_workerId a"
  let ?s = "write_slot now a free latest s"
  let ?h = "\<lambda>s f. HGET now s (SlotsKey ?w) f"
  have h: "?h ?s f = (if f = fE free then Some (NumV (ra_expiresAtMs a))
      else if f = fW free then Some (Txt (ra_workspaceId a))
      else if f = fI free then Some (Txt (ra_incarnationId a))
      else if f = fA free then Some (Txt (ra_assignmentId a)) else ?h s f)" for f
    using assms(2)
    by (simp add: write_slot_def Let_def HGET_PEXPIREAT HGET_HSET
        read_cong(9) [of "SETAT t k v s'" "SlotsKey ?w" s' for t k v s'] redis_frame)
  show at: "slot_at now ?w ?s n = (if n = free then Some (ra_assignmentId a, ra_incarnationId a, ra_workspaceId a,
      ra_expiresAtMs a) else slot_at now ?w s n)" for n
    by (simp add: slot_at_def h)
  have "slot_blank now ?w ?s n = slot_blank now ?w s n" if "n \<noteq> free" for n
    using that by (simp add: slot_blank_def h)
  with at assms(1) show "slots_typed now ?w ?s"
    by (auto simp: slots_typed_def)
qed


section \<open>Reservations keep the table exclusive\<close>

lemma write_slot_lapsed:
  assumes "latest \<le> now"
  shows "slot_blank now (ra_workerId a) (write_slot now a free latest s) n"
  using assms
  by (simp add: slot_blank_def write_slot_def Let_def HGET_PEXPIREAT
      read_cong(9) [of "SETAT t k v s'" "SlotsKey (ra_workerId a)" s' for t k v s'] redis_frame)

lemma slots_invD:
  assumes "slots_inv now w s" "slot_at now w s n = Some (a, i, x, e)"
  shows "n < MAX_WORKSPACE_LEASE_SLOTS" "flat_key x"
    "m \<noteq> n \<Longrightarrow> slot_at now w s m = Some (a', i', x', e') \<Longrightarrow>
       a \<noteq> a' \<and> \<not> workspaceIsolationKeysConflict x x'"
  using assms unfolding slots_inv_def by metis+

lemma slots_invI:
  assumes "slots_typed now w s"
    and "\<And>n a i x e. slot_at now w s n = Some (a, i, x, e) \<Longrightarrow> n < MAX_WORKSPACE_LEASE_SLOTS \<and> flat_key x"
    and "\<And>n a i x e m a' i' x' e'. slot_at now w s n = Some (a, i, x, e) \<Longrightarrow> m \<noteq> n \<Longrightarrow>
      slot_at now w s m = Some (a', i', x', e') \<Longrightarrow> a \<noteq> a' \<and> \<not> workspaceIsolationKeysConflict x x'"
  shows "slots_inv now w s"
  unfolding slots_inv_def using assms by metis

lemma slots_inv_purged:
  assumes "slots_inv now w s" "slots_typed now w s'"
    and "\<And>n. slot_at now w s' n = (if n \<in> N then purge inc dateNow (slot_at now w s n) else slot_at now w s n)"
  shows "slots_inv now w s'"
proof (rule slots_inv_shrink [OF assms(1)])
  show "slots_shrink now w s s'"
    using assms(2,3) by (auto simp: slots_shrink_def purge_def split: if_splits option.splits)
qed

lemma slots_inv_write:
  assumes inv: "slots_inv now (ra_workerId a) s" and flat: "flat_key (ra_workspaceId a)"
    and free: "free < MAX_WORKSPACE_LEASE_SLOTS"
    and new: "\<And>n b i x e. slot_at now (ra_workerId a) s n = Some (b, i, x, e) \<Longrightarrow>
        b \<noteq> ra_assignmentId a \<and> \<not> workspaceIsolationKeysConflict (ra_workspaceId a) x"
  shows "slots_inv now (ra_workerId a) (write_slot now a free latest s)"
proof (cases "now < latest")
  case True
  have typed: "slots_typed now (ra_workerId a) s" using inv by (simp add: slots_inv_def)
  have sym: "workspaceIsolationKeysConflict x y = workspaceIsolationKeysConflict y x" for x y
    by (auto simp: workspaceIsolationKeysConflict_def)
  note sp = write_slot_spec [OF typed True, of free]
  let ?S = "slot_at now (ra_workerId a)"
  show ?thesis
  proof (rule slots_invI [OF sp(1)])
    fix n b i x e assume n: "?S (write_slot now a free latest s) n = Some (b, i, x, e)"
    then show "n < MAX_WORKSPACE_LEASE_SLOTS \<and> flat_key x"
      using flat free slots_invD(1,2) [OF inv] by (auto simp: sp(2) split: if_splits)
    fix m b' i' x' e' assume m: "m \<noteq> n" "?S (write_slot now a free latest s) m = Some (b', i', x', e')"
    consider "n = free" | "m = free" | "n \<noteq> free" "m \<noteq> free" by blast
    then show "b \<noteq> b' \<and> \<not> workspaceIsolationKeysConflict x x'"
    proof cases
      case 1
      with n m new [of m b' i' x' e'] show ?thesis by (auto simp: sp(2))
    next
      case 2
      with n m new [of n b i x e] show ?thesis by (auto simp: sp(2) sym [of x])
    next
      case 3
      with n m slots_invD(3) [OF inv, of n b i x e m b' i' x' e'] show ?thesis by (simp add: sp(2))
    qed
  qed
next
  case False
  then have "slot_blank now (ra_workerId a) (write_slot now a free latest s) n" for n
    by (intro write_slot_lapsed) simp
  then show ?thesis by (simp add: slots_inv_def slots_typed_def slot_blank_None)
qed

text \<open>The state of a scan over all slots, started with empty tables.\<close>

lemma full_scan:
  assumes inv: "slots_inv now (ra_workerId a) s"
    and scan: "scan_slots now dateNow a [0..<MAX_WORKSPACE_LEASE_SLOTS] (empty_scan a) s = (Inr st, s1)"
  shows "slots_inv now (ra_workerId a) s1"
    "\<And>n. slot_at now (ra_workerId a) s1 n = purge (ra_incarnationId a) dateNow (slot_at now (ra_workerId a) s n)"
    "\<And>k. k \<noteq> SlotsKey (ra_workerId a) \<Longrightarrow> s1 k = s k"
    "\<And>n b i x e. slot_at now (ra_workerId a) s1 n = Some (b, i, x, e) \<Longrightarrow> b \<noteq> ra_assignmentId a"
    "\<And>k. conflicts (sc_busy st) (sc_busyChildren st) k \<longleftrightarrow>
       (\<exists>n b i x e. slot_at now (ra_workerId a) s1 n = Some (b, i, x, e) \<and> workspaceIsolationKeysConflict k x)"
    "\<And>f. sc_free st = Some f \<Longrightarrow> f < MAX_WORKSPACE_LEASE_SLOTS \<and> int f < ra_capacity a \<and>
       slot_at now (ra_workerId a) s1 f = None"
    "sc_free st = None \<Longrightarrow> n < MAX_WORKSPACE_LEASE_SLOTS \<Longrightarrow> int n < ra_capacity a \<Longrightarrow>
       slot_at now (ra_workerId a) s1 n \<noteq> None"
    "ra_expiresAtMs a \<le> sc_latest st"
proof -
  let ?w = "ra_workerId a" and ?S = "slot_at now (ra_workerId a)"
  let ?N = "set [0..<MAX_WORKSPACE_LEASE_SLOTS]"
  have typed: "slots_typed now ?w s" using inv by (simp add: slots_inv_def)
  note sp = scan_slots_Inr [OF typed _ scan, simplified]
  then have at: "?S s1 n = (if n \<in> ?N then purge (ra_incarnationId a) dateNow (?S s n) else ?S s n)" for n
    by simp
  from sp show inv1: "slots_inv now ?w s1" by (intro slots_inv_purged [OF inv _ at]) simp
  have out: "?S s n = None" if "n \<notin> ?N" for n
    using inv that by (cases "?S s n") (auto simp: slots_inv_def)
  show "?S s1 n = purge (ra_incarnationId a) dateNow (?S s n)" for n
    using at [of n] out [of n] by (auto simp: purge_def)
  show "s1 k = s k" if "k \<noteq> SlotsKey ?w" for k using sp that by simp
  have in8: "n < MAX_WORKSPACE_LEASE_SLOTS" if "?S s1 n = Some (b, i, x, e)" for n b i x e
    using slots_invD(1) [OF inv1 that] .
  have sc: "scanned a (?S s1) ?N (empty_scan a) st" using sp by simp
  show "b \<noteq> ra_assignmentId a" if "?S s1 n = Some (b, i, x, e)" for n b i x e
    using sc that in8 [OF that] by (simp add: scanned_def)
  have busy: "set (sc_busy st) = tab_keys (?S s1) ?N"
    and children: "set (sc_busyChildren st) = {p. \<exists>x\<in>set (sc_busy st). parentOf x = Some p}"
    using sc by (simp_all add: scanned_def empty_scan_def)
  have "flat_key x" if "x \<in> set (sc_busy st)" for x
    using slots_invD(2) [OF inv1] that unfolding busy by (auto simp: tab_keys_def)
  from conflicts_iff [OF this children] in8
  show "conflicts (sc_busy st) (sc_busyChildren st) k \<longleftrightarrow>
      (\<exists>n b i x e. ?S s1 n = Some (b, i, x, e) \<and> workspaceIsolationKeysConflict k x)" for k
    unfolding busy by (fastforce simp: tab_keys_def)
  show "f < MAX_WORKSPACE_LEASE_SLOTS \<and> int f < ra_capacity a \<and> ?S s1 f = None" if "sc_free st = Some f" for f
    using sc that by (auto simp: scanned_def empty_scan_def)
  show "?S s1 n \<noteq> None" if "sc_free st = None" "n < MAX_WORKSPACE_LEASE_SLOTS" "int n < ra_capacity a"
    using sc that by (simp add: scanned_def)
  show "ra_expiresAtMs a \<le> sc_latest st" using sc by (simp add: scanned_def empty_scan_def)
qed


text \<open>The three ways the script can end: refused before the scan, the assignment already holds a slot,
  or a scan whose outcome the remaining guards decide.\<close>

lemma reserve_script_cases:
  assumes "reserve_script now dateNow a s = (r, s')"
  obtains (refused) "s' = s" "\<And>n. r \<noteq> Slot n"
  | (owned) slot where "r = Slot slot" "GET now s (IncarnationKey (ra_workerId a)) = Some (Txt (ra_incarnationId a))"
      "scan_slots now dateNow a [0..<MAX_WORKSPACE_LEASE_SLOTS] (empty_scan a) s = (Inl slot, s')"
  | (waits) st s1 where "r = Unavailable"
      "scan_slots now dateNow a [0..<MAX_WORKSPACE_LEASE_SLOTS] (empty_scan a) s = (Inr st, s1)"
      "s' = s1 \<or> s' = drop_expired now (ra_workerId a) dateNow s1"
  | (granted) st s1 s2 free where "r = Slot free"
      "GET now s (IncarnationKey (ra_workerId a)) = Some (Txt (ra_incarnationId a))"
      "scan_slots now dateNow a [0..<MAX_WORKSPACE_LEASE_SLOTS] (empty_scan a) s = (Inr st, s1)"
      "sc_free st = Some free" "\<not> conflicts (sc_busy st) (sc_busyChildren st) (ra_workspaceId a)"
      "s2 = drop_expired now (ra_workerId a) dateNow s1"
      "select_pending (pending_workspace now s2 (ra_workerId a))
         (conflicts (sc_busy st) (sc_busyChildren st)) (ZRANGE_first now s2 (AdmissionKey (ra_workerId a)) 32) []
       = Some (Some (ra_assignmentId a))"
      "s' = write_slot now a free (sc_latest st) s2"
proof (cases "reserve_refusal now a s")
  case (Some q)
  have "q \<noteq> Slot n" for n
    using Some by (auto simp: reserve_refusal_def Let_def split: if_splits)
  then show thesis using assms Some refused by (simp add: reserve_script_def)
next
  case None
  let ?scan = "scan_slots now dateNow a [0..<MAX_WORKSPACE_LEASE_SLOTS] (empty_scan a) s"
  obtain q s1 where q: "?scan = (q, s1)" by (cases ?scan)
  have inc: "GET now s (IncarnationKey (ra_workerId a)) = Some (Txt (ra_incarnationId a))"
    using None by (auto simp: reserve_refusal_def Let_def split: if_splits)
  show thesis
  proof (cases q)
    case (Inl slot)
    with assms None q inc owned show thesis by (auto simp: reserve_script_def)
  next
    case (Inr st)
    with assms None q have "reserve_pick now dateNow a st s1 = (r, s')" by (simp add: reserve_script_def)
    then show thesis using waits [OF _ q [unfolded Inr]] granted [OF _ inc q [unfolded Inr]]
      by (auto simp: reserve_pick_def Let_def split: if_splits option.splits)
  qed
qed

lemma slots_inv_frame:
  assumes "s' (SlotsKey w) = s (SlotsKey w)"
  shows "slots_inv now w s' = slots_inv now w s"
  by (simp add: slots_inv_def slot_at_frame [of s' w s, OF assms] slots_typed_frame [of s' w s, OF assms])

lemma slots_inv_reserve_script:
  assumes inv: "slots_inv now (ra_workerId a) s" and flat: "flat_key (ra_workspaceId a)"
    and run: "reserve_script now dateNow a s = (r, s')"
  shows "slots_inv now (ra_workerId a) s'"
  using run
proof (cases rule: reserve_script_cases)
  case refused
  then show ?thesis using inv by simp
next
  case (owned slot)
  have "slots_typed now (ra_workerId a) s" using inv by (simp add: slots_inv_def)
  from scan_slots_Inl [OF this owned(3)] show ?thesis by (intro slots_inv_shrink [OF inv]) simp
next
  case (waits st s1)
  have "slots_inv now (ra_workerId a) (drop_expired now (ra_workerId a) dateNow s1) = slots_inv now (ra_workerId a) s1"
    by (rule slots_inv_frame) (simp add: drop_expired_frame)
  with waits(3) show ?thesis using full_scan(1) [OF inv waits(2)] by auto
next
  case (granted st s1 s2 free)
  note sc = full_scan [OF inv granted(3)]
  have s2: "s2 (SlotsKey (ra_workerId a)) = s1 (SlotsKey (ra_workerId a))"
    by (simp add: granted(6) drop_expired_frame)
  show ?thesis unfolding granted(8)
  proof (rule slots_inv_write [OF _ flat])
    show "slots_inv now (ra_workerId a) s2" using sc(1) by (simp add: slots_inv_frame [of s2 "ra_workerId a" s1, OF s2])
    show "free < MAX_WORKSPACE_LEASE_SLOTS" using sc(6) [OF granted(4)] by simp
    show "b \<noteq> ra_assignmentId a \<and> \<not> workspaceIsolationKeysConflict (ra_workspaceId a) x"
      if "slot_at now (ra_workerId a) s2 n = Some (b, i, x, e)" for n b i x e
    proof -
      have "slot_at now (ra_workerId a) s1 n = Some (b, i, x, e)" using that by (simp add: slot_at_frame [of s2 "ra_workerId a" s1, OF s2])
      with sc(4) [OF this] sc(5) [of "ra_workspaceId a"] granted(5) show ?thesis by blast
    qed
  qed
qed

lemma refresh_slot_other: "w \<noteq> ra_workerId a \<Longrightarrow> refresh_slot now dateNow a n s (SlotsKey w) = s (SlotsKey w)"
  by (simp add: refresh_slot_def Let_def extend_expiry_def redis_frame)

lemma scan_slots_other:
  assumes "w \<noteq> ra_workerId a"
  shows "snd (scan_slots now dateNow a slots st s) (SlotsKey w) = s (SlotsKey w)"
proof (induction slots arbitrary: st s)
  case (Cons slot slots)
  then show ?case using assms by (simp add: Let_def refresh_slot_other clear_slot_frame)
qed simp

lemma reserve_script_other:
  assumes "w \<noteq> ra_workerId a" "reserve_script now dateNow a s = (r, s')"
  shows "s' (SlotsKey w) = s (SlotsKey w)"
proof -
  have scan: "s1 (SlotsKey w) = s (SlotsKey w)"
    if "scan_slots now dateNow a [0..<MAX_WORKSPACE_LEASE_SLOTS] (empty_scan a) s = (q, s1)" for q s1
    using scan_slots_other [OF assms(1)] that by (metis snd_conv)
  from assms(2) show ?thesis
  proof (cases rule: reserve_script_cases)
    case (waits st s1)
    then show ?thesis using scan [OF waits(2)] by (auto simp: drop_expired_frame)
  next
    case (granted st s1 s2 free)
    then show ?thesis using assms(1) scan [OF granted(3)]
      by (simp add: write_slot_def Let_def redis_frame drop_expired_frame)
  next
    case (owned slot)
    show ?thesis by (rule scan [OF owned(3)])
  qed simp
qed

text \<open>Release.\<close>

lemma release_scan_mono: "l \<le> fst (release_scan now w inc aid slots l s)"
proof (induction slots arbitrary: l s)
  case (Cons slot slots)
  have "l \<le> fst (release_scan now w inc aid slots (max l t) s)" for t
    using Cons.IH [of "max l t" s] by simp
  then show ?case using Cons.IH by (simp add: Let_def)
qed simp

lemma release_scan_frame: "k \<noteq> SlotsKey w \<Longrightarrow> snd (release_scan now w inc aid slots l s) k = s k"
  by (induction slots arbitrary: l s) (simp_all add: Let_def clear_slot_frame)

lemma release_scan_shrink:
  "slots_typed now w s \<Longrightarrow> slots_shrink now w s (snd (release_scan now w inc aid slots l s))"
proof (induction slots arbitrary: l s)
  case Nil
  then show ?case by (simp add: slots_shrink_refl)
next
  case (Cons slot slots)
  have "slots_shrink now w s (snd (release_scan now w inc aid slots l (clear_slot now w slot s)))"
    by (rule slots_shrink_trans [OF slots_shrink_clear [OF Cons.prems]
          Cons.IH [OF slots_typed_clear [OF Cons.prems]]])
  then show ?case using Cons.IH [OF Cons.prems] by (simp add: Let_def)
qed

lemma release_scan_entry:
  assumes "slot_at now w s n = Some (a, i, x, e)" "distinct slots"
  shows "slot_at now w (snd (release_scan now w inc aid slots l s)) n =
     (if n \<in> set slots \<and> a = aid \<and> i = inc then None else Some (a, i, x, e))"
    "n \<in> set slots \<Longrightarrow> \<not> (a = aid \<and> i = inc) \<Longrightarrow> e \<le> fst (release_scan now w inc aid slots l s)"
proof -
  have gone: "slot_at now w (snd (release_scan now w inc aid slots l s)) n = None"
    if "slot_blank now w s n" for slots l s
    using that
    by (induction slots arbitrary: l s) (simp_all add: Let_def slot_blank_None slot_at_clear)
  have "slot_at now w (snd (release_scan now w inc aid slots l s)) n =
     (if n \<in> set slots \<and> a = aid \<and> i = inc then None else Some (a, i, x, e)) \<and>
     (n \<in> set slots \<longrightarrow> \<not> (a = aid \<and> i = inc) \<longrightarrow> e \<le> fst (release_scan now w inc aid slots l s))"
    using assms
  proof (induction slots arbitrary: l s)
    case Nil
    then show ?case by simp
  next
    case (Cons slot slots)
    note f = slot_at_SomeD [OF Cons.prems(1)]
    show ?case
    proof (cases "n = slot")
      case True
      have "slot_blank now w (clear_slot now w slot s) n" using True by (simp add: slot_at_clear)
      note blank = gone [OF this, of slots]
      have "e \<le> fst (release_scan now w inc aid slots (max l e) s)"
        using release_scan_mono [of "max l e" now w inc aid slots s] by simp
      with True f blank Cons.IH [OF Cons.prems(1), of "max l e"] Cons.prems(2) show ?thesis
        by (cases "a = aid \<and> i = inc") (auto simp: Let_def)
    next
      case False
      then have "slot_at now w (clear_slot now w slot s) n = Some (a, i, x, e)"
        using Cons.prems(1) by (simp add: slot_at_clear)
      from Cons.IH [OF this] Cons.IH [OF Cons.prems(1)] Cons.prems(2) False show ?thesis
        by (simp add: Let_def)
    qed
  qed
  then show "slot_at now w (snd (release_scan now w inc aid slots l s)) n =
     (if n \<in> set slots \<and> a = aid \<and> i = inc then None else Some (a, i, x, e))"
    "n \<in> set slots \<Longrightarrow> \<not> (a = aid \<and> i = inc) \<Longrightarrow> e \<le> fst (release_scan now w inc aid slots l s)"
    by auto
qed


lemma release_tail_shrink:
  assumes "slots_typed now w s" and r: "release_scan now w inc aid [0..<MAX_WORKSPACE_LEASE_SLOTS] 0 s = (l, s1)"
  shows "slots_shrink now w s s1" "slots_shrink now w s1 (release now w inc aid s)"
proof -
  from r release_scan_shrink [OF assms(1), of inc aid "[0..<MAX_WORKSPACE_LEASE_SLOTS]" 0]
  show s1: "slots_shrink now w s s1" by simp
  then have typed: "slots_typed now w s1" by (simp add: slots_shrink_def)
  have empty: "slots_shrink now w s1 (DEL (LockIncarnationKey w) (DEL (LockKey w) (DEL (SlotsKey w) s1)))"
    by (simp add: slots_shrink_def slots_typed_def slot_blank_def slot_at_def HGET_def hash_at_def peek_DEL)
  have "slots_shrink now w s1 (fold (\<lambda>k. PEXPIREAT now k l) ks s1)" for ks
    by (rule slots_shrink_fold [OF slots_shrink_PEXPIREAT typed])
  from this [of "[SlotsKey w, LockKey w, LockIncarnationKey w]"] empty slots_shrink_refl [OF typed]
  show "slots_shrink now w s1 (release now w inc aid s)" by (simp add: release_def r)
qed

lemma slots_shrink_release:
  assumes "slots_typed now w s" shows "slots_shrink now w s (release now w inc aid s)"
proof -
  obtain l s1 where "release_scan now w inc aid [0..<MAX_WORKSPACE_LEASE_SLOTS] 0 s = (l, s1)" by fastforce
  from release_tail_shrink [OF assms this] show ?thesis by (rule slots_shrink_trans)
qed

lemma release_other: "w' \<noteq> w \<Longrightarrow> release now w inc aid s (SlotsKey w') = s (SlotsKey w')"
  using release_scan_frame [of "SlotsKey w'" w now inc aid "[0..<MAX_WORKSPACE_LEASE_SLOTS]" 0 s]
  by (auto simp: release_def Let_def redis_frame split: prod.splits)

lemma HGET_later:
  assumes "now \<le> n" shows "HGET n s k f = (if live n (expiry_at now s k) then HGET now s k f else None)"
  using assms
  by (auto simp: HGET_def hash_at_def expiry_at_def peek_def dest: live_later split: option.splits if_splits rval.splits)

lemma slots_inv_later:
  assumes "slots_inv now w s" "now \<le> n" shows "slots_inv n w s"
proof (cases "live n (expiry_at now s (SlotsKey w))")
  case True
  then have "HGET n s (SlotsKey w) f = HGET now s (SlotsKey w) f" for f
    by (simp add: HGET_later [OF assms(2)])
  from slot_at_hash [OF this] assms(1) show ?thesis by (simp add: slots_inv_def)
next
  case False
  then show ?thesis
    by (simp add: slots_inv_def slots_typed_def slot_blank_def slot_at_def HGET_later [OF assms(2)])
qed

section \<open>Every interleaving of the scripts\<close>

text \<open>Dispatchers reserve only keys built from validated identifiers; those keys are flat.\<close>

lemma admission_key_flat:
  assumes "valid_ids ws inst wt" shows "flat_key (workspaceAdmissionId ws inst wt)"
proof (cases wt)
  case None
  then have "workspaceIsolationParent (workspaceIsolationKey ws inst wt) = None"
    using isolation_parent_base assms by simp
  then show ?thesis by (simp add: flat_key_def workspaceAdmissionId_def parentOf_eq)
next
  case (Some l)
  then have "valid_ids ws inst None" using assms by (simp add: valid_ids_def)
  then have "workspaceIsolationParent (workspaceIsolationKey ws inst None) = None" by (rule isolation_parent_base)
  moreover have "workspaceIsolationParent (workspaceIsolationKey ws inst wt) = Some (workspaceIsolationKey ws inst None)"
    using isolation_parent_lane assms Some by simp
  ultimately show ?thesis by (simp add: flat_key_def workspaceAdmissionId_def parentOf_eq)
qed

inductive slots_reach :: "jstr \<Rightarrow> int \<Rightarrow> bstore \<Rightarrow> bool" for w where
  fresh: "s (SlotsKey w) = None \<Longrightarrow> slots_reach w now s"
| reserved: "slots_reach w n s \<Longrightarrow> n \<le> now \<Longrightarrow> valid_ids ws inst wt \<Longrightarrow>
     ra_workspaceId a = workspaceAdmissionId ws inst wt \<Longrightarrow> slots_reach w now (snd (reserve now dateNow a s))"
| released: "slots_reach w n s \<Longrightarrow> n \<le> now \<Longrightarrow> slots_reach w now (release now w' inc aid s)"
| other: "slots_reach w n s \<Longrightarrow> n \<le> now \<Longrightarrow> s' (SlotsKey w) = s (SlotsKey w) \<Longrightarrow> slots_reach w now s'"

lemma slots_inv_empty: "s (SlotsKey w) = None \<Longrightarrow> slots_inv now w s"
  by (simp add: slots_inv_def slots_typed_def slot_blank_def slot_at_def HGET_def hash_at_def peek_def)

lemma snd_reserve:
  "snd (reserve now dateNow a s) = s \<or> snd (reserve now dateNow a s) = snd (reserve_script now dateNow a s)"
  by (auto simp: reserve_def split: prod.splits reserve_reply.splits)

lemma slots_inv_reserve:
  assumes "slots_inv now w s" "flat_key (ra_workspaceId a)"
  shows "slots_inv now w (snd (reserve now dateNow a s))"
proof -
  obtain r s' where r: "reserve_script now dateNow a s = (r, s')" by fastforce
  have "slots_inv now w s'"
  proof (cases "ra_workerId a = w")
    case True
    with assms show ?thesis using slots_inv_reserve_script [OF _ _ r] by simp
  next
    case False
    then show ?thesis using assms(1) slots_inv_frame [of s' w s] reserve_script_other [OF _ r, of w] by simp
  qed
  with r assms(1) snd_reserve [of now dateNow a s] show ?thesis by auto
qed

lemma slots_reach_inv: "slots_reach w now s \<Longrightarrow> slots_inv now w s"
proof (induction rule: slots_reach.induct)
  case (released n s now w' inc aid)
  note inv = slots_inv_later [OF released.IH released.hyps(2)]
  show ?case
  proof (cases "w' = w")
    case True
    have "slots_typed now w s" using inv by (simp add: slots_inv_def)
    from slots_inv_shrink [OF inv slots_shrink_release [OF this]] True show ?thesis by simp
  next
    case False
    then show ?thesis using inv slots_inv_frame [of "release now w' inc aid s" w s] release_other [of w w'] by simp
  qed
next
  case (other n s now s')
  then show ?case using slots_inv_later slots_inv_frame [of s' w s now] by simp
next
  case (reserved n s now ws inst wt a dateNow)
  have "flat_key (ra_workspaceId a)" using reserved.hyps admission_key_flat by simp
  then show ?case using slots_inv_later [OF reserved.IH reserved.hyps(2)] by (intro slots_inv_reserve)
qed (rule slots_inv_empty)

section \<open>Who is served\<close>

text \<open>The request the script selects: everything older was held back, and no older request waits for
  the checkout the selected lane belongs to.\<close>

definition checkouts :: "(jstr \<Rightarrow> jstr option) \<Rightarrow> jstr list \<Rightarrow> jstr set" where
  "checkouts workspaceOf ids = {x. \<exists>j\<in>set ids. workspaceOf j = Some x \<and> parentOf x = None}"

lemma select_pending_spec:
  assumes "select_pending workspaceOf held ids wait = Some (Some i)"
  shows "\<exists>older younger x. ids = older @ i # younger \<and> workspaceOf i = Some x \<and> \<not> held x \<and>
    (\<forall>p. parentOf x = Some p \<longrightarrow> p \<notin> set wait \<union> checkouts workspaceOf older) \<and>
    (\<forall>j\<in>set older. \<exists>y. workspaceOf j = Some y \<and>
       (held y \<or> (\<exists>p. parentOf y = Some p \<and> p \<in> set wait \<union> checkouts workspaceOf older)))"
  using assms
proof (induction ids arbitrary: wait)
  case (Cons j ids)
  then obtain y where y: "workspaceOf j = Some y" by (cases "workspaceOf j") auto
  let ?held = "held y \<or> (case parentOf y of None \<Rightarrow> False | Some p \<Rightarrow> p \<in> set wait)"
  show ?case
  proof (cases ?held)
    case False
    with Cons.prems y have "j = i" by simp
    with False y show ?thesis
      by (intro exI [of _ "[]"] exI [of _ ids] exI [of _ y]) (auto simp: checkouts_def)
  next
    case True
    let ?wait = "if parentOf y = None then y # wait else wait"
    have "select_pending workspaceOf held ids ?wait = Some (Some i)" 
      using Cons.prems y True by (auto simp: Let_def split: if_splits option.splits)
    from Cons.IH [OF this] obtain older younger x where IH: "ids = older @ i # younger" "workspaceOf i = Some x" "\<not> held x"
      "\<forall>p. parentOf x = Some p \<longrightarrow> p \<notin> set ?wait \<union> checkouts workspaceOf older"
      "\<forall>j\<in>set older. \<exists>y. workspaceOf j = Some y \<and>
         (held y \<or> (\<exists>p. parentOf y = Some p \<and> p \<in> set ?wait \<union> checkouts workspaceOf older))" by blast
    have "set ?wait \<union> checkouts workspaceOf older = set wait \<union> checkouts workspaceOf (j # older)"
      using y by (auto simp: checkouts_def)
    with IH y True show ?thesis
      by (intro exI [of _ "j # older"] exI [of _ younger] exI [of _ x]) (auto split: option.splits)
  qed
qed simp

lemma pending_drop_expired:
  assumes "j \<notin> expired_ids now w dateNow s"
  shows "pending_workspace now (drop_expired now w dateNow s) w j = pending_workspace now s w j"
proof -
  have one: "HGET now (forget now w i s) (AdmissionWorkspacesKey w) j = (if i = j then None else HGET now s (AdmissionWorkspacesKey w) j)" for i s
    using read_cong(9) [of "ZREM now (AdmissionDeadlinesKey w) i (ZREM now (AdmissionKey w) i s)"
        "AdmissionWorkspacesKey w" s now j]
    by (simp add: forget_def HGET_HDEL redis_frame)
  have "j \<notin> set ids \<Longrightarrow> HGET now (fold (forget now w) ids s) (AdmissionWorkspacesKey w) j
      = HGET now s (AdmissionWorkspacesKey w) j" for ids
    by (induction ids arbitrary: s) (auto simp: one)
  moreover have "j \<notin> set (ZRANGEBYSCORE now s (AdmissionDeadlinesKey w) dateNow)"
    using assms by (simp add: set_ZRANGEBYSCORE)
  ultimately show ?thesis by (simp add: pending_workspace_def drop_expired_def)
qed

lemma checkouts_cong: "(\<And>j. j \<in> set ids \<Longrightarrow> f j = g j) \<Longrightarrow> checkouts f ids = checkouts g ids"
  by (auto simp: checkouts_def)

lemma GET_other_writes:
  "k \<noteq> k' \<Longrightarrow> GET n (SETAT t k v s) k' = GET n s k'"
  using read_cong(2) [of "SETAT t k v s" k' s n] by (simp add: redis_frame)

lemma write_slot_lock:
  "now \<le> latest \<Longrightarrow> GET now (write_slot now a free latest s) (LockKey (ra_workerId a)) = Some (slots_owner (ra_incarnationId a))"
  by (simp add: write_slot_def Let_def GET_SETAT GET_other_writes)

lemma reserve_Slot:
  assumes "reserve now dateNow a s = (Ok (Some n), s')"
  shows "reserve_script now dateNow a s = (Slot n, s')" "dateNow < ra_expiresAtMs a"
    "1 \<le> ra_capacity a" "ra_capacity a \<le> int MAX_WORKSPACE_LEASE_SLOTS"
  using assms by (auto simp: reserve_def split: if_splits prod.splits reserve_reply.splits)

text \<open>What a granted reservation leaves in the table.\<close>

lemma granted_table:
  assumes inv: "slots_inv now (ra_workerId a) s" and live: "now < ra_expiresAtMs a"
    and scan: "scan_slots now dateNow a [0..<MAX_WORKSPACE_LEASE_SLOTS] (empty_scan a) s = (Inr st, s1)"
    and free: "sc_free st = Some n"
    and s': "s' = write_slot now a n (sc_latest st) (drop_expired now (ra_workerId a) dateNow s1)"
  shows "slot_at now (ra_workerId a) s' n = Some (ra_assignmentId a, ra_incarnationId a, ra_workspaceId a, ra_expiresAtMs a)"
    "conflicts (sc_busy st) (sc_busyChildren st) y \<longleftrightarrow>
       (\<exists>m b i z e. m \<noteq> n \<and> slot_at now (ra_workerId a) s' m = Some (b, i, z, e) \<and> workspaceIsolationKeysConflict y z)"
    "GET now s' (LockKey (ra_workerId a)) = Some (slots_owner (ra_incarnationId a))"
proof -
  let ?w = "ra_workerId a"
  let ?s2 = "drop_expired now ?w dateNow s1"
  note sc = full_scan [OF inv scan]
  have s2: "?s2 (SlotsKey ?w) = s1 (SlotsKey ?w)" by (simp add: drop_expired_frame)
  have typed: "slots_typed now ?w ?s2"
    using sc(1) slots_typed_frame [of ?s2 ?w s1, OF s2] by (simp add: slots_inv_def)
  have latest: "now < sc_latest st" using sc(8) live by simp
  have at': "slot_at now ?w s' m = (if m = n then Some (ra_assignmentId a, ra_incarnationId a, ra_workspaceId a,
      ra_expiresAtMs a) else slot_at now ?w s1 m)" for m
    using write_slot_spec(2) [OF typed latest, of n m] slot_at_frame [of ?s2 ?w s1, OF s2] unfolding s' by simp
  then show "slot_at now ?w s' n = Some (ra_assignmentId a, ra_incarnationId a, ra_workspaceId a, ra_expiresAtMs a)"
    by simp
  show "conflicts (sc_busy st) (sc_busyChildren st) y \<longleftrightarrow>
      (\<exists>m b i z e. m \<noteq> n \<and> slot_at now ?w s' m = Some (b, i, z, e) \<and> workspaceIsolationKeysConflict y z)"
    using sc(5) [of y] sc(6) [OF free] at' by (metis option.distinct(1))
  show "GET now s' (LockKey ?w) = Some (slots_owner (ra_incarnationId a))"
    unfolding s' using latest by (intro write_slot_lock) simp
qed

text \<open>What its selection says of the queue, in terms of the store before the script.\<close>

lemma granted_queue:
  assumes inv: "slots_inv now w s" and w: "w = ra_workerId a"
    and scan: "scan_slots now dateNow a [0..<MAX_WORKSPACE_LEASE_SLOTS] (empty_scan a) s = (Inr st, s1)"
    and s2: "s2 = drop_expired now w dateNow s1"
    and sel: "select_pending (pending_workspace now s2 w) held (ZRANGE_first now s2 (AdmissionKey w) 32) [] = Some (Some i)"
  shows "\<exists>q older younger workspaceOf x. q = take 32 (filter (\<lambda>j. j \<notin> expired_ids now w dateNow s) (waiting now w s))
    \<and> q = older @ i # younger \<and> workspaceOf = pending_workspace now s w \<and> workspaceOf i = Some x
    \<and> (\<forall>p. parentOf x = Some p \<longrightarrow> p \<notin> checkouts workspaceOf older)
    \<and> (\<forall>j\<in>set older. \<exists>y. workspaceOf j = Some y \<and>
         (held y \<or> (\<exists>p. parentOf y = Some p \<and> p \<in> checkouts workspaceOf older)))"
proof -
  have s1: "s1 k = s k" if "k \<noteq> SlotsKey w" for k
    using full_scan(3) [OF _ scan] inv w that by simp
  have exp: "expired_ids now w dateNow s1 = expired_ids now w dateNow s"
    using read_cong(7) [of s1 "AdmissionDeadlinesKey w" s now] s1 by (simp add: expired_ids_def)
  have wait: "waiting now w s1 = waiting now w s"
    using read_cong(7) [of s1 "AdmissionKey w" s now] s1 by (simp add: waiting_def)
  let ?q = "take 32 (filter (\<lambda>j. j \<notin> expired_ids now w dateNow s) (waiting now w s))"
  have q: "ZRANGE_first now s2 (AdmissionKey w) 32 = ?q"
  proof -
    have "ZRANGE_first now s2 (AdmissionKey w) 32 = take 32 (waiting now w s2)"
      by (simp add: ZRANGE_first_def waiting_def take_map)
    then show ?thesis by (simp add: s2 waiting_drop_expired exp wait)
  qed
  have ws: "pending_workspace now s2 w j = pending_workspace now s w j" if "j \<in> set ?q" for j
  proof -
    have "pending_workspace now s1 w j = pending_workspace now s w j"
      using read_cong(9) [of s1 "AdmissionWorkspacesKey w" s now j] s1 by (simp add: pending_workspace_def)
    moreover have "j \<notin> expired_ids now w dateNow s1"
      using set_take_subset [of 32 "filter (\<lambda>j. j \<notin> expired_ids now w dateNow s) (waiting now w s)"] that exp by auto
    ultimately show ?thesis using pending_drop_expired s2 by simp
  qed
  from select_pending_spec [OF sel] obtain older younger x where
    sp: "?q = older @ i # younger" "pending_workspace now s2 w i = Some x"
    "\<forall>p. parentOf x = Some p \<longrightarrow> p \<notin> checkouts (pending_workspace now s2 w) older"
    "\<forall>j\<in>set older. \<exists>y. pending_workspace now s2 w j = Some y \<and>
       (held y \<or> (\<exists>p. parentOf y = Some p \<and> p \<in> checkouts (pending_workspace now s2 w) older))"
    unfolding q list.set(1) Un_empty_left by blast
  have older: "pending_workspace now s2 w j = pending_workspace now s w j" if "j \<in> set older \<or> j = i" for j
    using ws [of j] that unfolding sp(1) by auto
  have co: "checkouts (pending_workspace now s2 w) older = checkouts (pending_workspace now s w) older"
    by (rule checkouts_cong) (simp add: older)
  have A: "pending_workspace now s w i = Some x" using sp(2) older by simp
  note B = sp(3) [unfolded co]
  have C: "\<forall>j\<in>set older. \<exists>y. pending_workspace now s w j = Some y \<and>
       (held y \<or> (\<exists>p. parentOf y = Some p \<and> p \<in> checkouts (pending_workspace now s w) older))"
    using sp(4) older unfolding co by simp
  show ?thesis by (intro exI conjI) (rule refl sp(1) A B C)+
qed

text \<open>
  C18. At most one assignment works in a workspace at a time: under every interleaving of reservations,
  refreshes and releases by any number of replicas, two occupied slots of a worker belong to different
  assignments and hold workspaces that do not conflict (neither equal, nor a checkout and one of its
  lanes), and only the eight slots exist.
\<close>

theorem slots_mutual_exclusion:
  assumes "slots_reach w now s"
    and "slot_at now w s n = Some (a, i, x, e)" "slot_at now w s m = Some (a', i', x', e')" "n \<noteq> m"
  shows "a \<noteq> a' \<and> \<not> workspaceIsolationKeysConflict x x' \<and> n < MAX_WORKSPACE_LEASE_SLOTS"
  using slots_invD(1) [OF slots_reach_inv [OF assms(1)] assms(2)]
    slots_invD(3) [OF slots_reach_inv [OF assms(1)] assms(2) _ assms(3)] assms(4) by auto

text \<open>
  C28. A granted reservation: the slot is below the worker's capacity and records this assignment,
  incarnation, workspace and expiry; the worker's lock belongs to the slots of this incarnation; no
  other occupied slot conflicts; every older request still waiting was blocked by a busy workspace or
  by an older waiting checkout; and no older request waits for the checkout the granted lane is
  part of.
\<close>

theorem reserve_grant:
  assumes "slots_reach w now s" "ra_workerId a = w" "now < ra_expiresAtMs a"
    and "reserve now dateNow a s = (Ok (Some n), s')"
    and "\<forall>m i x e. slot_at now w s m \<noteq> Some (ra_assignmentId a, i, x, e)"
  shows "int n < ra_capacity a
    \<and> slot_at now w s' n = Some (ra_assignmentId a, ra_incarnationId a, ra_workspaceId a, ra_expiresAtMs a)
    \<and> GET now s' (LockKey w) = Some (slots_owner (ra_incarnationId a))
    \<and> (\<forall>m b i x e. m \<noteq> n \<longrightarrow> slot_at now w s' m = Some (b, i, x, e) \<longrightarrow>
         \<not> workspaceIsolationKeysConflict (ra_workspaceId a) x)
    \<and> (\<exists>q older younger workspaceOf x. q = take 32 (filter (\<lambda>j. j \<notin> expired_ids now w dateNow s) (waiting now w s))
         \<and> q = older @ ra_assignmentId a # younger
         \<and> workspaceOf = pending_workspace now s w
         \<and> workspaceOf (ra_assignmentId a) = Some x
         \<and> (\<forall>p. parentOf x = Some p \<longrightarrow> p \<notin> checkouts workspaceOf older)
         \<and> (\<forall>j\<in>set older. \<exists>y. workspaceOf j = Some y \<and>
              ((\<exists>m b i z e. m \<noteq> n \<and> slot_at now w s' m = Some (b, i, z, e) \<and> workspaceIsolationKeysConflict y z)
               \<or> (\<exists>p. parentOf y = Some p \<and> p \<in> checkouts workspaceOf older))))"
proof -
  have inv: "slots_inv now (ra_workerId a) s" using slots_reach_inv [OF assms(1)] assms(2) by simp
  have typed: "slots_typed now (ra_workerId a) s" using inv by (simp add: slots_inv_def)
  from reserve_Slot(1) [OF assms(4)] show ?thesis
  proof (cases rule: reserve_script_cases)
    case (owned slot)
    from scan_slots_Inl [OF typed owned(3)] assms(2,5) have False by simp
    then show ?thesis ..
  next
    case (granted st s1 s2 free)
    have free: "free = n" using granted(1) by simp
    note tab = granted_table [OF inv assms(3) granted(3) granted(4), of s', unfolded free assms(2)]
    have s': "s' = write_slot now a n (sc_latest st) (drop_expired now w dateNow s1)"
      using granted(6,8) free assms(2) by simp
    note queue = granted_queue [OF inv refl granted(3) granted(6) granted(7), unfolded assms(2) tab(2) [OF s']]
    have cap: "int n < ra_capacity a" using full_scan(6) [OF inv granted(3) granted(4)] free by simp
    have "\<forall>m b i x e. m \<noteq> n \<longrightarrow> slot_at now w s' m = Some (b, i, x, e) \<longrightarrow>
        \<not> workspaceIsolationKeysConflict (ra_workspaceId a) x"
      using tab(2) [OF s', of "ra_workspaceId a"] granted(5) by blast
    with cap tab(1,3) [OF s'] queue show ?thesis by (intro conjI)
  next
    case refused
    from refused(2) have False by blast
    then show ?thesis ..
  next
    case (waits st s1)
    from waits(1) have False by simp
    then show ?thesis ..
  qed
qed


text \<open>
  C30. A release frees exactly its own reservation: afterwards no slot holds the assignment under that
  incarnation, and every other unexpired reservation is as it was.
\<close>

theorem release_exact:
  assumes "slots_reach w now s"
  shows "slot_at now w (release now w inc aid s) n \<noteq> Some (aid, inc, x, e)
    \<and> (\<forall>m a i y t. slot_at now w s m = Some (a, i, y, t) \<and> (a, i) \<noteq> (aid, inc) \<and> now < t \<longrightarrow>
         slot_at now w (release now w inc aid s) m = Some (a, i, y, t))"
proof -
  let ?N = "[0..<MAX_WORKSPACE_LEASE_SLOTS]"
  note inv = slots_reach_inv [OF assms]
  then have typed: "slots_typed now w s" by (simp add: slots_inv_def)
  obtain l s1 where r: "release_scan now w inc aid ?N 0 s = (l, s1)" by fastforce
  have own: "slot_at now w (release now w inc aid s) n \<noteq> Some (aid, inc, x, e)"
  proof
    assume "slot_at now w (release now w inc aid s) n = Some (aid, inc, x, e)"
    with release_tail_shrink(2) [OF typed r] obtain e1 where 1: "slot_at now w s1 n = Some (aid, inc, x, e1)"
      unfolding slots_shrink_def by blast
    with release_tail_shrink(1) [OF typed r] obtain e0 where 0: "slot_at now w s n = Some (aid, inc, x, e0)"
      unfolding slots_shrink_def by blast
    from release_scan_entry(1) [OF 0, of ?N inc aid 0] slots_invD(1) [OF inv 0] r 1 show False by simp
  qed
  have "slot_at now w (release now w inc aid s) m = Some (a, i, y, t)"
    if m: "slot_at now w s m = Some (a, i, y, t)" "(a, i) \<noteq> (aid, inc)" "now < t" for m a i y t
  proof -
    have in8: "m \<in> set ?N" using slots_invD(1) [OF inv m(1)] by simp
    have at1: "slot_at now w s1 m = Some (a, i, y, t)" and "t \<le> l"
      using release_scan_entry(1) [OF m(1), where slots = ?N and inc = inc and aid = aid and l = 0]
        release_scan_entry(2) [OF m(1), where slots = ?N and inc = inc and aid = aid and l = 0] r in8 m(2) by auto
    then have l: "now < l" using m(3) by simp
    have "HLEN now s1 (SlotsKey w) \<noteq> 0"
      using slot_at_SomeD(1) [OF at1] by (auto simp: HLEN_def HGET_def)
    moreover have "HGET now (fold (\<lambda>k. PEXPIREAT now k l) [SlotsKey w, LockKey w, LockIncarnationKey w] s1) (SlotsKey w) g
        = HGET now s1 (SlotsKey w) g" for g
      using l by (simp add: HGET_PEXPIREAT)
    note slot_at_hash(1) [OF this, of m]
    ultimately show ?thesis using at1 by (simp add: release_def r)
  qed
  with own show ?thesis by simp
qed

text \<open>A worker of capacity two with two requests waiting, each for its own lane of one checkout.\<close>

definition demo_lane :: "string \<Rightarrow> jstr" where
  "demo_lane l = workspaceAdmissionId (js ''r'') None (Some (js l))"

definition demo_args :: "string \<Rightarrow> string \<Rightarrow> reserve_args" where
  "demo_args i l = \<lparr>ra_workerId = js ''w'', ra_incarnationId = js ''I'', ra_assignmentId = js i,
     ra_workspaceId = demo_lane l, ra_capacity = 2, ra_expiresAtMs = 10, ra_refreshOwned = False, ra_guard = None\<rparr>"

definition demo_queue :: bstore where
  "demo_queue =
     Map.empty (IncarnationKey (js ''w'') \<mapsto> (RStr (Txt (js ''I'')), None),
       SlotCapacityKey (js ''w'') \<mapsto> (RStr (NumV 2), None),
       AdmissionKey (js ''w'') \<mapsto> (RZSet [(1, js ''a''), (2, js ''b'')], None),
       AdmissionWorkspacesKey (js ''w'') \<mapsto>
         (RHash [(js ''a'', Txt (demo_lane ''l'')), (js ''b'', Txt (demo_lane ''m''))], None))"

definition demo_one :: bstore where "demo_one = snd (reserve 0 0 (demo_args ''a'' ''l'') demo_queue)"
definition demo_two :: bstore where "demo_two = snd (reserve 0 0 (demo_args ''b'' ''m'') demo_one)"

lemma demo_reserve: "fst (reserve 0 0 (demo_args ''a'' ''l'') demo_queue) = Ok (Some 0)"
  by code_simp

lemma demo_slots:
  "slot_at 0 (js ''w'') demo_two 0 = Some (js ''a'', js ''I'', demo_lane ''l'', 10)"
  "slot_at 0 (js ''w'') demo_two 1 = Some (js ''b'', js ''I'', demo_lane ''m'', 10)"
  by code_simp+

lemma demo_ids: "valid_ids (js ''r'') None (Some (js ''l''))" "valid_ids (js ''r'') None (Some (js ''m''))"
  by (simp_all add: valid_ids_def isValidBridgeWorkerId_def BRIDGE_WORKER_ID_PATTERN_def
      matches_name_pattern_def isValidLinkedWorktreeName_def
      BRIDGE_LINKED_WORKTREE_NAME_PATTERN_def is_alnum_def endsWith_def js_def)

lemma demo_reach:
  "slots_reach (js ''w'') 0 demo_queue" "slots_reach (js ''w'') 0 demo_one" "slots_reach (js ''w'') 0 demo_two"
proof -
  show q: "slots_reach (js ''w'') 0 demo_queue" by (rule slots_reach.fresh) (simp add: demo_queue_def)
  show o: "slots_reach (js ''w'') 0 demo_one" unfolding demo_one_def
    by (rule slots_reach.reserved [OF q _ demo_ids(1)]) (simp_all add: demo_args_def demo_lane_def)
  show "slots_reach (js ''w'') 0 demo_two" unfolding demo_two_def
    by (rule slots_reach.reserved [OF o _ demo_ids(2)]) (simp_all add: demo_args_def demo_lane_def)
qed

lemma demo_empty: "slot_at 0 (js ''w'') demo_queue m = None"
  by (simp add: slot_at_def HGET_def hash_at_def peek_def demo_queue_def)



theorem slots_mutual_exclusion_witness:
  "slots_reach (js ''w'') 0 demo_two \<and> js ''a'' \<noteq> js ''b''
   \<and> \<not> workspaceIsolationKeysConflict (demo_lane ''l'') (demo_lane ''m'')"
  using slots_mutual_exclusion [OF demo_reach(3) demo_slots] demo_reach(3) by simp

theorem reserve_grant_witness:
  "fst (reserve 0 0 (demo_args ''a'' ''l'') demo_queue) = Ok (Some 0)
   \<and> GET 0 demo_one (LockKey (js ''w'')) = Some (slots_owner (js ''I''))"
proof -
  have "reserve 0 0 (demo_args ''a'' ''l'') demo_queue = (Ok (Some 0), demo_one)"
    using demo_reserve by (simp add: demo_one_def prod_eq_iff)
  from reserve_grant [OF demo_reach(1) _ _ this] demo_reserve demo_empty show ?thesis
    by (simp add: demo_args_def)
qed


theorem release_exact_witness:
  "slot_at 0 (js ''w'') (release 0 (js ''w'') (js ''I'') (js ''a'') demo_two) 1
     = Some (js ''b'', js ''I'', demo_lane ''m'', 10)"
  using release_exact [OF demo_reach(3), of "js ''I''" "js ''a''"] demo_slots(2) by simp

end
