(* ===== verification/Registration.thy ===== *)
theory Registration
  imports Capabilities Validators Slots
begin

text \<open>
  Worker registration of \<^verbatim>\<open>service/src/bridge/store.ts\<close>: \<^verbatim>\<open>workerStatus\<close>, \<^verbatim>\<open>register\<close>,
  \<^verbatim>\<open>confirmReady\<close>, \<^verbatim>\<open>registration\<close> and \<^verbatim>\<open>dispatchableRegistration\<close>. A worker process is an
  incarnation; registering a new incarnation fences the current one for good and takes a new registration
  generation.
\<close>

section \<open>Configuration\<close>

record store_config =
  workerTtlSeconds :: int
  maxWorkspaceLeaseSlots :: int
  laneGitEnabled :: bool

definition valid_store_config :: "store_config \<Rightarrow> bool" where
  "valid_store_config cfg \<longleftrightarrow> 1 \<le> maxWorkspaceLeaseSlots cfg \<and> maxWorkspaceLeaseSlots cfg \<le> 8"

definition workspaceLeaseCapacity :: "store_config \<Rightarrow> int \<Rightarrow> int" where
  "workspaceLeaseCapacity cfg requested = min (maxWorkspaceLeaseSlots cfg) requested"

section \<open>Status\<close>

record worker_status =
  ws_online :: bool
  ws_ready :: bool
  ws_leaseExpiresInMs :: "int option"
  ws_capabilities :: "json option"

definition offline :: worker_status where
  "offline = \<lparr>ws_online = False, ws_ready = False, ws_leaseExpiresInMs = None, ws_capabilities = None\<rparr>"

text \<open>The one script reads the registration, the ready token, the generation and the remaining
  lease.\<close>

definition workerStatus :: "int \<Rightarrow> jstr \<Rightarrow> bstore \<Rightarrow> worker_status" where
  "workerStatus now w s =
     (case GET now s (WorkerKey w) of
        Some (Json (JReg reg)) \<Rightarrow>
          (let leaseExpiresInMs = PTTL now s (WorkerKey w) in
           if leaseExpiresInMs \<le> 0 then offline
           else if r_protocolVersion reg \<noteq> 1 \<or> \<not> isValidBridgeWorkerId (r_workerId reg)
                   \<or> r_workerId reg \<noteq> w \<or> \<not> isValidBridgeWorkerCapabilities (r_capabilities reg)
           then offline
           else
             let ready =
               (\<not> requires_ready reg
                \<or> (case GET now s (RegGenerationKey w) of
                     Some (NumV g) \<Rightarrow> GET now s (ReadyKey w) = Some (Txt (workerReadyToken (r_incarnationId reg) g))
                   | _ \<Rightarrow> False))
             in \<lparr>ws_online = True, ws_ready = ready, ws_leaseExpiresInMs = Some leaseExpiresInMs,
                 ws_capabilities = Some (r_capabilities reg)\<rparr>)
      | _ \<Rightarrow> offline)"

section \<open>Registration\<close>

datatype authorization =
    NoAuthorization
  | Credential jstr
  | Grant "jstr option" "int option" "jstr option"

text \<open>\<^verbatim>\<open>x ?? ''\<close>: the script tests its arguments against the empty string.\<close>

definition or_empty :: "jstr option \<Rightarrow> jstr" where
  "or_empty v = (case v of None \<Rightarrow> [] | Some x \<Rightarrow> x)"

fun auth_pairing :: "authorization \<Rightarrow> int option" where
  "auth_pairing (Grant i p c) = p"
| "auth_pairing _ = None"

fun auth_identity :: "authorization \<Rightarrow> jstr" where
  "auth_identity (Grant i p c) = or_empty i"
| "auth_identity _ = []"

fun auth_credential :: "authorization \<Rightarrow> jstr" where
  "auth_credential NoAuthorization = []"
| "auth_credential (Credential c) = c"
| "auth_credential (Grant i p c) = or_empty c"

text \<open>\<^verbatim>\<open>{ ...capabilities, workspaceLeaseSlots: n }\<close>: an existing property keeps its place.\<close>

fun set_field :: "json \<Rightarrow> jstr \<Rightarrow> json \<Rightarrow> json" where
  "set_field (JObj fs) k v = JObj (AList.update k v fs)"
| "set_field j k v = j"

definition clamp_registration :: "store_config \<Rightarrow> registration \<Rightarrow> (bridge_error, registration) result" where
  "clamp_registration cfg reg =
     (case fld (r_capabilities reg) ''workspaceLeaseSlots'' of
        None \<Rightarrow> Ok reg
      | Some slots \<Rightarrow>
          if \<not> isValidBridgeWorkerCapabilities (r_capabilities reg) \<or> \<not> requires_ready reg
          then Err (StoreError WORKER_MISMATCH)
          else Ok (reg\<lparr>r_capabilities :=
                 set_field (r_capabilities reg) (js ''workspaceLeaseSlots'')
                   (JInt (workspaceLeaseCapacity cfg (int_or 1 (Some slots))))\<rparr>))"

text \<open>The two authorization blocks of the script. The second may bind the stable identity, which stays
  bound when a later check refuses.\<close>

definition pairing_revoked :: "int \<Rightarrow> jstr \<Rightarrow> authorization \<Rightarrow> bstore \<Rightarrow> bool" where
  "pairing_revoked now w auth s =
     (case auth_pairing auth of
        None \<Rightarrow> False
      | Some p \<Rightarrow>
          (if (case GET now s (PairingGenerationKey w) of None \<Rightarrow> NumV 0 | Some v \<Rightarrow> v) \<noteq> NumV p then True
           else if auth_identity auth \<noteq> [] then GET now s (StableIdentityKey w) \<noteq> Some (Txt (auth_identity auth))
           else auth_credential auth \<noteq> []
                \<and> GET now s (CredentialIdentityKey w) \<noteq> Some (Txt (auth_credential auth))))"

definition bind_identity :: "store_config \<Rightarrow> int \<Rightarrow> registration \<Rightarrow> authorization \<Rightarrow> bstore \<Rightarrow> bool \<times> bstore" where
  "bind_identity cfg now reg auth s =
     (let w = r_workerId reg;
          wrongCredential = (auth_credential auth \<noteq> []
            \<and> GET now s (CredentialIdentityKey w) \<noteq> Some (Txt (auth_credential auth)))
      in if or_empty (r_identityId reg) \<noteq> [] then
           (case GET now s (StableIdentityKey w) of
              Some bound \<Rightarrow> (bound = Txt (or_empty (r_identityId reg)), s)
            | None \<Rightarrow>
                if wrongCredential then (False, s)
                else (True, SETEX now (workerTtlSeconds cfg) (StableIdentityKey w) (Txt (or_empty (r_identityId reg))) s))
         else (\<not> wrongCredential, s))"

text \<open>Whether the script refuses after authorization: quarantined, fenced, or busy.\<close>

definition register_refusal :: "int \<Rightarrow> registration \<Rightarrow> bstore \<Rightarrow> store_code option" where
  "register_refusal now reg s =
     (let w = r_workerId reg; inc = r_incarnationId reg; current = GET now s (IncarnationKey w);
          busy = EXISTS now s (LockKey w)
      in if EXISTS now s (QuarantineKey w inc) then Some WORKER_QUARANTINED
         else if EXISTS now s (IncarnationFenceKey w inc) then Some WORKER_FENCED
         else if current = Some (Txt inc) \<and> busy
              \<and> (case GET now s (SlotCapacityKey w) of None \<Rightarrow> NumV 1 | Some v \<Rightarrow> v) \<noteq> NumV (lease_slots reg)
         then Some WORKER_BUSY
         else if current = None \<and> busy \<and> GET now s (LockIncarnationKey w) \<noteq> Some (Txt inc) then Some WORKER_BUSY
         else if current \<noteq> None \<and> current \<noteq> Some (Txt inc) \<and> busy then Some WORKER_BUSY
         else None)"

text \<open>What an accepted registration writes: the fence of the replaced incarnation, the generation, the
  registration itself.\<close>

definition fence_current :: "int \<Rightarrow> registration \<Rightarrow> bstore \<Rightarrow> bstore" where
  "fence_current now reg s =
     (case GET now s (IncarnationKey (r_workerId reg)) of
        Some (Txt current) \<Rightarrow>
          if current \<noteq> r_incarnationId reg
          then SET (IncarnationFenceKey (r_workerId reg) current) (Txt (js ''1'')) s else s
      | _ \<Rightarrow> s)"

definition take_generation :: "int \<Rightarrow> registration \<Rightarrow> bstore \<Rightarrow> int \<times> bool \<times> bstore" where
  "take_generation now reg s =
     (let w = r_workerId reg; g = counter_of (GET now s (RegGenerationKey w)) in
      if g < 1 \<or> GET now s (RegGenerationIncarnationKey w) \<noteq> Some (Txt (r_incarnationId reg))
      then (case INCR now (RegGenerationKey w) s of (g', s') \<Rightarrow>
              (g', True, SET (RegGenerationIncarnationKey w) (Txt (r_incarnationId reg)) s'))
      else (g, False, s))"

definition register_commit :: "store_config \<Rightarrow> int \<Rightarrow> registration \<Rightarrow> bstore \<Rightarrow> int \<times> bstore" where
  "register_commit cfg now reg s =
     (let w = r_workerId reg; ttl = workerTtlSeconds cfg in
      case take_generation now reg (fence_current now reg s) of
        (g, changed, s1) \<Rightarrow>
          (let s2 = SETEX now ttl (WorkerKey w) (Json (JReg reg)) s1;
               s3 = SETEX now ttl (IncarnationKey w) (Txt (r_incarnationId reg)) s2;
               s4 = SETEX now ttl (SlotCapacityKey w) (NumV (lease_slots reg)) s3
           in (g, if requires_ready reg \<and> changed then DEL (ReadyKey w) s4 else s4)))"

definition register :: "store_config \<Rightarrow> int \<Rightarrow> registration \<Rightarrow> authorization \<Rightarrow> bstore
    \<Rightarrow> (bridge_error, int) result \<times> bstore" where
  "register cfg now reg0 auth s =
     (case clamp_registration cfg reg0 of
        Inl e \<Rightarrow> (Err e, s)
      | Inr reg \<Rightarrow>
          if pairing_revoked now (r_workerId reg) auth s then (Err (StoreError WORKER_FENCED), s)
          else (case bind_identity cfg now reg auth s of
              (False, s1) \<Rightarrow> (Err (StoreError WORKER_UNAUTHORIZED), s1)
            | (True, s1) \<Rightarrow>
                (case register_refusal now reg s1 of
                   Some c \<Rightarrow> (Err (StoreError c), s1)
                 | None \<Rightarrow>
                     (case register_commit cfg now reg s1 of (g, s2) \<Rightarrow>
                        (if \<bar>g\<bar> > MAX_SAFE_INTEGER \<or> g < 1 then Err PlainError else Ok g, s2)))))"

section \<open>Readiness\<close>

definition confirmReady :: "store_config \<Rightarrow> int \<Rightarrow> jstr \<Rightarrow> jstr \<Rightarrow> int \<Rightarrow> bstore
    \<Rightarrow> (bridge_error, unit) result \<times> bstore" where
  "confirmReady cfg now w inc gen s =
     (if \<not> EXISTS now s (WorkerKey w) then (Err (StoreError WORKER_OFFLINE), s)
      else if GET now s (IncarnationKey w) \<noteq> Some (Txt inc) then (Err (StoreError WORKER_FENCED), s)
      else if GET now s (RegGenerationKey w) \<noteq> Some (NumV gen) then (Err (StoreError WORKER_FENCED), s)
      else if GET now s (RegGenerationIncarnationKey w) \<noteq> Some (Txt inc) then (Err (StoreError WORKER_FENCED), s)
      else if EXISTS now s (IncarnationFenceKey w inc) then (Err (StoreError WORKER_FENCED), s)
      else if EXISTS now s (QuarantineKey w inc) then (Err (StoreError WORKER_QUARANTINED), s)
      else (Ok (), SETEX now (min (workerTtlSeconds cfg) (ceil_div (workerTtlSeconds cfg) 2 + 5)) (ReadyKey w)
                     (Txt (workerReadyToken inc gen)) s))"


definition dispatchableRegistration :: "int \<Rightarrow> jstr \<Rightarrow> bstore \<Rightarrow> (registration \<times> jstr option) option" where
  "dispatchableRegistration now w s =
     (case GET now s (WorkerKey w) of
        Some (Json (JReg reg)) \<Rightarrow>
          if \<not> requires_ready reg then Some (reg, None)
          else (case GET now s (RegGenerationKey w) of
              Some (NumV g) \<Rightarrow>
                if \<bar>g\<bar> > MAX_SAFE_INTEGER \<or> g < 1
                   \<or> GET now s (RegGenerationIncarnationKey w) \<noteq> Some (Txt (r_incarnationId reg))
                   \<or> GET now s (ReadyKey w) \<noteq> Some (Txt (workerReadyToken (r_incarnationId reg) g))
                then None
                else Some (reg, Some (workerReadyToken (r_incarnationId reg) g))
            | _ \<Rightarrow> None)
      | _ \<Rightarrow> None)"

section \<open>What a registration changes\<close>

text \<open>The keys that say who the current incarnation is.\<close>

definition incarnation_keys :: "jstr \<Rightarrow> bkey set" where
  "incarnation_keys w = insert (IncarnationKey w) (insert (RegGenerationKey w)
     (insert (RegGenerationIncarnationKey w) (range (IncarnationFenceKey w))))"

lemma bind_identity_frame: "k \<noteq> StableIdentityKey (r_workerId reg) \<Longrightarrow> snd (bind_identity cfg now reg auth s) k = s k"
  by (auto simp: bind_identity_def Let_def redis_frame split: option.splits)

text \<open>An accepted registration commits on a store that differs at most in the stable identity; a refused
  one changes nothing else.\<close>

lemma register_cases:
  assumes "register cfg now reg auth s = (r, s')"
  obtains (refused) e where "r = Err e" "\<And>k. k \<noteq> StableIdentityKey (r_workerId reg) \<Longrightarrow> s' k = s k"
  | (committed) reg' s1 g where "r_workerId reg' = r_workerId reg" "r_incarnationId reg' = r_incarnationId reg"
      "requires_ready reg' = requires_ready reg" "clamp_registration cfg reg = Ok reg'"
      "\<And>k. k \<noteq> StableIdentityKey (r_workerId reg) \<Longrightarrow> s1 k = s k"
      "register_refusal now reg' s1 = None" "register_commit cfg now reg' s1 = (g, s')"
      "r = (if \<bar>g\<bar> > MAX_SAFE_INTEGER \<or> g < 1 then Err PlainError else Ok g)"
proof (cases "clamp_registration cfg reg")
  case (Inl e)
  with assms refused show thesis by (auto simp: register_def)
next
  case (Inr reg')
  have same: "r_workerId reg' = r_workerId reg" "r_incarnationId reg' = r_incarnationId reg"
    using Inr by (auto simp: clamp_registration_def split: option.splits if_splits)
  have ready: "requires_ready reg' = requires_ready reg"
  proof (cases "r_capabilities reg")
    case (JObj fs)
    then show ?thesis using Inr
      by (auto simp: clamp_registration_def requires_ready_def update_conv split: option.splits if_splits)
  qed (use Inr in \<open>auto simp: clamp_registration_def requires_ready_def split: option.splits if_splits\<close>)
  obtain ok s1 where b: "bind_identity cfg now reg' auth s = (ok, s1)" by fastforce
  have f: "\<And>k. k \<noteq> StableIdentityKey (r_workerId reg) \<Longrightarrow> s1 k = s k"
    using bind_identity_frame [of _ reg' cfg now auth s] b same by simp
  show thesis
  proof (cases "pairing_revoked now (r_workerId reg') auth s")
    case True
    with assms Inr refused show thesis by (auto simp: register_def)
  next
    case F: False
    show thesis
    proof (cases ok)
      case False
      with assms Inr F b f refused show thesis by (auto simp: register_def)
    next
      case True
      show thesis
      proof (cases "register_refusal now reg' s1")
        case None
        obtain g s2 where c: "register_commit cfg now reg' s1 = (g, s2)" by fastforce
        with assms Inr F b True None have r: "r = (if \<bar>g\<bar> > MAX_SAFE_INTEGER \<or> g < 1 then Err PlainError else Ok g)" "s' = s2"
          by (simp_all add: register_def)
        show thesis by (rule committed [OF same ready Inr f None _ r(1)]) (use c r(2) in simp_all)
      next
        case (Some c)
        with assms Inr F b True f refused show thesis by (auto simp: register_def)
      qed
    qed
  qed
qed

lemma register_OkE:
  assumes "register cfg now reg auth s = (Ok g, s')"
  obtains reg' s1 where "r_workerId reg' = r_workerId reg" "r_incarnationId reg' = r_incarnationId reg"
      "requires_ready reg' = requires_ready reg" "clamp_registration cfg reg = Ok reg'"
      "\<And>k. k \<noteq> StableIdentityKey (r_workerId reg) \<Longrightarrow> s1 k = s k"
      "register_refusal now reg' s1 = None" "register_commit cfg now reg' s1 = (g, s')"
      "\<bar>g\<bar> \<le> MAX_SAFE_INTEGER" "1 \<le> g"
  using assms
proof (cases rule: register_cases)
  case (committed reg' s1 g')
  then have "g' = g" "\<bar>g\<bar> \<le> MAX_SAFE_INTEGER" "1 \<le> g" by (auto split: if_splits)
  with committed that show thesis by blast
qed simp

text \<open>The cells an accepted registration leaves at the incarnation keys.\<close>

lemma commit_cells:
  assumes "register_commit cfg now reg s = (g, s')" and w: "w = r_workerId reg"
  shows "s' (IncarnationKey w) = Some (RStr (Txt (r_incarnationId reg)), Some (now + workerTtlSeconds cfg * 1000))"
    "s' (IncarnationFenceKey w i) =
       (if GET now s (IncarnationKey w) = Some (Txt i) \<and> i \<noteq> r_incarnationId reg
        then Some (RStr (Txt (js ''1'')), None) else s (IncarnationFenceKey w i))"
    "s' (RegGenerationKey w) = (if g = counter_of (GET now s (RegGenerationKey w)) then s (RegGenerationKey w)
       else Some (RStr (NumV g), expiry_at now s (RegGenerationKey w)))"
    "s' (RegGenerationIncarnationKey w) = (if g = counter_of (GET now s (RegGenerationKey w))
       then s (RegGenerationIncarnationKey w) else Some (RStr (Txt (r_incarnationId reg)), None))"
    "g = (if counter_of (GET now s (RegGenerationKey w)) < 1 \<or>
            GET now s (RegGenerationIncarnationKey w) \<noteq> Some (Txt (r_incarnationId reg))
          then counter_of (GET now s (RegGenerationKey w)) + 1 else counter_of (GET now s (RegGenerationKey w)))"
    "w' \<noteq> w \<Longrightarrow> k \<in> incarnation_keys w' \<Longrightarrow> s' k = s k"
proof -
  let ?f = "fence_current now reg s"
  have f: "?f k = s k" if "\<And>i. k \<noteq> IncarnationFenceKey w i" for k
    using that w by (simp add: fence_current_def redis_frame split: option.splits sval.splits)
  have ff: "?f (IncarnationFenceKey w i) = (if GET now s (IncarnationKey w) = Some (Txt i) \<and> i \<noteq> r_incarnationId reg
      then Some (RStr (Txt (js ''1'')), None) else s (IncarnationFenceKey w i))" for i
    using w by (auto simp: fence_current_def SET_def put_apply split: option.splits sval.splits)
  have reads: "GET now ?f (RegGenerationKey w) = GET now s (RegGenerationKey w)"
    "GET now ?f (RegGenerationIncarnationKey w) = GET now s (RegGenerationIncarnationKey w)"
    "expiry_at now ?f (RegGenerationKey w) = expiry_at now s (RegGenerationKey w)"
    using read_cong(2,17) [of ?f "RegGenerationKey w" s] read_cong(2) [of ?f "RegGenerationIncarnationKey w" s] f by simp_all
  obtain ch s1 where t: "take_generation now reg ?f = (g, ch, s1)" and
    s': "s' = (let s2 = SETEX now (workerTtlSeconds cfg) (WorkerKey w) (Json (JReg reg)) s1;
        s3 = SETEX now (workerTtlSeconds cfg) (IncarnationKey w) (Txt (r_incarnationId reg)) s2;
        s4 = SETEX now (workerTtlSeconds cfg) (SlotCapacityKey w) (NumV (lease_slots reg)) s3
      in if requires_ready reg \<and> ch then DEL (ReadyKey w) s4 else s4)"
    using assms by (auto simp: register_commit_def Let_def split: prod.splits)
  note s'' = s' [unfolded Let_def SETEX_def SETAT_def]
  show g: "g = (if counter_of (GET now s (RegGenerationKey w)) < 1 \<or>
            GET now s (RegGenerationIncarnationKey w) \<noteq> Some (Txt (r_incarnationId reg))
          then counter_of (GET now s (RegGenerationKey w)) + 1 else counter_of (GET now s (RegGenerationKey w)))"
    using t w reads by (auto simp: take_generation_def INCR_def Let_def split: if_splits)
  have s1: "s1 = (if g = counter_of (GET now s (RegGenerationKey w)) then ?f
      else SET (RegGenerationIncarnationKey w) (Txt (r_incarnationId reg))
        (put (RegGenerationKey w) (RStr (NumV g), expiry_at now s (RegGenerationKey w)) ?f))"
    using t w reads by (auto simp: take_generation_def INCR_def Let_def split: if_splits)
  show "s' (IncarnationKey w) = Some (RStr (Txt (r_incarnationId reg)), Some (now + workerTtlSeconds cfg * 1000))"
    by (simp add: s'' redis_frame)
  show "s' (IncarnationFenceKey w i) =
       (if GET now s (IncarnationKey w) = Some (Txt i) \<and> i \<noteq> r_incarnationId reg
        then Some (RStr (Txt (js ''1'')), None) else s (IncarnationFenceKey w i))"
    by (simp add: s'' s1 redis_frame SET_def ff)
  show "s' (RegGenerationKey w) = (if g = counter_of (GET now s (RegGenerationKey w)) then s (RegGenerationKey w)
       else Some (RStr (NumV g), expiry_at now s (RegGenerationKey w)))"
    by (simp add: s'' s1 redis_frame SET_def f)
  show "s' (RegGenerationIncarnationKey w) = (if g = counter_of (GET now s (RegGenerationKey w))
       then s (RegGenerationIncarnationKey w) else Some (RStr (Txt (r_incarnationId reg)), None))"
    by (simp add: s'' s1 redis_frame SET_def f)
  show "s' k = s k" if "w' \<noteq> w" "k \<in> incarnation_keys w'"
    using that by (auto simp: incarnation_keys_def s'' s1 redis_frame SET_def f)
qed

section \<open>Registrations under every interleaving\<close>

text \<open>The other writers of these keys are a revocation, \<^verbatim>\<open>REVOKE_PAIRING_SCRIPT\<close> of
  \<^verbatim>\<open>pairing.ts\<close>, which fences the current incarnation and forgets it, and
  \<^verbatim>\<open>quarantine\<close> of \<^verbatim>\<open>store.ts\<close>, which forgets the quarantined incarnation.\<close>

definition withdrawn :: "int \<Rightarrow> jstr \<Rightarrow> bstore \<Rightarrow> bstore \<Rightarrow> bool" where
  "withdrawn now w s s' \<longleftrightarrow> s' (IncarnationKey w) = None
     \<and> (\<forall>i. s' (IncarnationFenceKey w i) =
          (if GET now s (IncarnationKey w) = Some (Txt i) then Some (RStr (Txt (js ''1'')), None)
           else s (IncarnationFenceKey w i)))
     \<and> s' (RegGenerationKey w) = s (RegGenerationKey w)
     \<and> s' (RegGenerationIncarnationKey w) = s (RegGenerationIncarnationKey w)"

definition forgotten :: "jstr \<Rightarrow> bstore \<Rightarrow> bstore \<Rightarrow> bool" where
  "forgotten w s s' \<longleftrightarrow> s' (IncarnationKey w) = None
     \<and> (\<forall>k \<in> incarnation_keys w. k \<noteq> IncarnationKey w \<longrightarrow> s' k = s k)"

inductive reg_step :: "jstr \<Rightarrow> int \<times> bstore \<Rightarrow> int \<times> bstore \<Rightarrow> bool" for w where
  registers: "now \<le> now' \<Longrightarrow> register cfg now' reg auth s = (r, s') \<Longrightarrow> reg_step w (now, s) (now', s')"
| withdraws: "now \<le> now' \<Longrightarrow> withdrawn now' w s s' \<Longrightarrow> reg_step w (now, s) (now', s')"
| forgets: "now \<le> now' \<Longrightarrow> forgotten w s s' \<Longrightarrow> reg_step w (now, s) (now', s')"
| others: "now \<le> now' \<Longrightarrow> (\<And>k. k \<in> incarnation_keys w \<Longrightarrow> s' k = s k) \<Longrightarrow> reg_step w (now, s) (now', s')"

definition fences_hold :: "jstr \<Rightarrow> int \<times> bstore \<Rightarrow> bool" where
  "fences_hold w c = (case c of (now, s) \<Rightarrow> \<forall>i. s (IncarnationFenceKey w i) = None \<or>
     s (IncarnationFenceKey w i) = Some (RStr (Txt (js ''1'')), None) \<and> GET now s (IncarnationKey w) \<noteq> Some (Txt i))"

definition fenced :: "jstr \<Rightarrow> jstr \<Rightarrow> int \<times> bstore \<Rightarrow> bool" where
  "fenced w i c \<longleftrightarrow> snd c (IncarnationFenceKey w i) = Some (RStr (Txt (js ''1'')), None)"

lemma incarnation_keysI [intro, simp]:
  "IncarnationKey w \<in> incarnation_keys w" "RegGenerationKey w \<in> incarnation_keys w"
  "RegGenerationIncarnationKey w \<in> incarnation_keys w" "IncarnationFenceKey w i \<in> incarnation_keys w"
  "StableIdentityKey w' \<notin> incarnation_keys w"
  by (auto simp: incarnation_keys_def)

lemma incarnation_keys_identity: "k \<in> incarnation_keys w \<Longrightarrow> k \<noteq> StableIdentityKey v"
  by (auto simp: incarnation_keys_def)

lemma fences_holdD:
  "fences_hold w (now, s) \<Longrightarrow> s (IncarnationFenceKey w i) = None \<or>
     s (IncarnationFenceKey w i) = Some (RStr (Txt (js ''1'')), None) \<and> GET now s (IncarnationKey w) \<noteq> Some (Txt i)"
  by (simp add: fences_hold_def)

lemma fences_hold_frame:
  assumes "fences_hold w (now, s)" "now \<le> now'" "\<And>k. k \<in> incarnation_keys w \<Longrightarrow> s' k = s k"
  shows "fences_hold w (now', s')"
proof -
  have e: "s' (IncarnationFenceKey w i) = s (IncarnationFenceKey w i)" "s' (IncarnationKey w) = s (IncarnationKey w)" for i
    using assms(3) by auto
  have "GET now' s' (IncarnationKey w) = Some v \<Longrightarrow> GET now s (IncarnationKey w) = Some v" for v
    using GET_mono [OF _ assms(2)] read_cong(2) [of s' "IncarnationKey w" s now', OF e(2)] by simp
  then have g: "GET now s (IncarnationKey w) \<noteq> Some v \<Longrightarrow> GET now' s' (IncarnationKey w) \<noteq> Some v" for v by metis
  show ?thesis unfolding fences_hold_def prod.case
  proof
    fix i
    show "s' (IncarnationFenceKey w i) = None \<or> s' (IncarnationFenceKey w i) = Some (RStr (Txt (js ''1'')), None)
        \<and> GET now' s' (IncarnationKey w) \<noteq> Some (Txt i)"
      using fences_holdD [OF assms(1), of i] g [of "Txt i"] by (simp add: e) blast
  qed
qed

lemma register_frame:
  assumes "register cfg now reg auth s = (r, s')" "k \<in> incarnation_keys w" "r_workerId reg \<noteq> w"
  shows "s' k = s k"
  using assms(1)
proof (cases rule: register_cases)
  case (committed reg' s1 g)
  have "s' k = s1 k" by (rule commit_cells(6) [OF committed(7) refl _ assms(2)]) (use committed(1) assms(3) in simp)
  then show ?thesis using committed(5) [OF incarnation_keys_identity [OF assms(2)]] by simp
next
  case (refused e)
  then show ?thesis using incarnation_keys_identity [OF assms(2)] by simp
qed

lemma fences_hold_register:
  assumes inv: "fences_hold w (now, s)" and le: "now \<le> now'" and r: "register cfg now' reg auth s = (r, s')"
  shows "fences_hold w (now', s')"
proof (cases "r_workerId reg = w")
  case False
  then show ?thesis using fences_hold_frame [OF inv le] register_frame [OF r] by simp
next
  case True
  from r show ?thesis
  proof (cases rule: register_cases)
    case (refused e)
    show ?thesis
      by (rule fences_hold_frame [OF inv le]) (rule refused(2) [OF incarnation_keys_identity])
  next
    case (committed reg' s1 g)
    have inv1: "fences_hold w (now', s1)"
      by (rule fences_hold_frame [OF inv le]) (rule committed(5) [OF incarnation_keys_identity])
    note cells = commit_cells [OF committed(7) refl, unfolded committed(1) True]
    have nf: "s1 (IncarnationFenceKey w (r_incarnationId reg')) = None"
      using committed(6) fences_holdD [OF inv1, of "r_incarnationId reg'"] True committed(1)
      by (auto simp: register_refusal_def Let_def EXISTS_def peek_def split: if_splits)
    have cur: "GET now' s' (IncarnationKey w) = Some (Txt i) \<Longrightarrow> i = r_incarnationId reg'" for i
      using cells(1) by (simp add: GET_def peek_def split: if_splits)
    show ?thesis unfolding fences_hold_def prod.case
    proof
      fix i
      show "s' (IncarnationFenceKey w i) = None \<or> s' (IncarnationFenceKey w i) = Some (RStr (Txt (js ''1'')), None)
          \<and> GET now' s' (IncarnationKey w) \<noteq> Some (Txt i)"
      proof (cases "i = r_incarnationId reg'")
        case True
        then show ?thesis using nf cells(2) [of i] by simp
      next
        case False
        then show ?thesis using fences_holdD [OF inv1, of i] cells(2) [of i] cur [of i] by auto
      qed
    qed
  qed
qed

lemma fences_hold_step: "fences_hold w c \<Longrightarrow> reg_step w c c' \<Longrightarrow> fences_hold w c'"
proof (erule reg_step.cases, goal_cases)
  case (2 now now' s s')
  have n: "GET now' s' (IncarnationKey w) = None" using 2 by (simp add: withdrawn_def GET_def peek_def)
  with 2 show ?case unfolding withdrawn_def fences_hold_def by auto
next
  case (1 now now' cfg reg auth s r s')
  then show ?case using fences_hold_register [of w now s now'] by simp
next
  case (3 now now' s s')
  then have n: "GET now' s' (IncarnationKey w) = None" "\<And>i. s' (IncarnationFenceKey w i) = s (IncarnationFenceKey w i)"
    by (simp_all add: forgotten_def GET_def peek_def)
  with 3 show ?case unfolding fences_hold_def by auto
next
  case (4 now now' s' s)
  then show ?case using fences_hold_frame [of w now s now' s'] by simp
qed

lemma fenced_step: "fenced w i c \<Longrightarrow> reg_step w c c' \<Longrightarrow> fenced w i c'"
proof (erule reg_step.cases, goal_cases)
  case (1 now now' cfg reg auth s r s')
  show ?case
  proof (cases "r_workerId reg = w")
    case True
    from 1(5) show ?thesis
    proof (cases rule: register_cases)
      case (committed reg' s1 g)
      then show ?thesis
        using 1 commit_cells(2) [OF committed(7) refl, of i] True by (simp add: fenced_def)
    qed (use 1 in \<open>auto simp: fenced_def\<close>)
  qed (use 1 register_frame [OF 1(5) incarnation_keysI(4) [of w i]] in \<open>simp add: fenced_def\<close>)
qed (auto simp: fenced_def withdrawn_def forgotten_def)

interpretation fencing: stable_fact "reg_step w" "fences_hold w" "fenced w i" for w i
  by unfold_locales (erule (1) fences_hold_step, erule (1) fenced_step)

text \<open>The generations handed out to the incarnations of one worker, newest first.\<close>

inductive reg_log :: "jstr \<Rightarrow> int \<Rightarrow> bstore \<Rightarrow> (jstr \<times> int) list \<Rightarrow> bool" for w where
  begins: "s (RegGenerationKey w) = None \<Longrightarrow> reg_log w now s []"
| granted: "reg_log w now s log \<Longrightarrow> now \<le> now' \<Longrightarrow> register cfg now' reg auth s = (Ok g, s') \<Longrightarrow>
    reg_log w now' s' (if r_workerId reg = w then (r_incarnationId reg, g) # log else log)"
| denied: "reg_log w now s log \<Longrightarrow> now \<le> now' \<Longrightarrow> register cfg now' reg auth s = (Err e, s') \<Longrightarrow> reg_log w now' s' log"
| revoked: "reg_log w now s log \<Longrightarrow> now \<le> now' \<Longrightarrow> withdrawn now' w s s' \<Longrightarrow> reg_log w now' s' log"
| lost: "reg_log w now s log \<Longrightarrow> now \<le> now' \<Longrightarrow> forgotten w s s' \<Longrightarrow> reg_log w now' s' log"
| passes: "reg_log w now s log \<Longrightarrow> now \<le> now' \<Longrightarrow> (\<And>k. k \<in> incarnation_keys w \<Longrightarrow> s' k = s k) \<Longrightarrow> reg_log w now' s' log"

text \<open>The counter of a worker never expires, is at least every generation handed out, and its newest
  generation belongs to the incarnation recorded beside it.\<close>

definition generations_ok :: "jstr \<Rightarrow> bstore \<Rightarrow> int \<Rightarrow> (jstr \<times> int) list \<Rightarrow> bool" where
  "generations_ok w s c log \<longleftrightarrow>
     (s (RegGenerationKey w) = None \<and> c = 0 \<or> s (RegGenerationKey w) = Some (RStr (NumV c), None) \<and> 1 \<le> c)
     \<and> (\<forall>i g. (i, g) \<in> set log \<longrightarrow> 1 \<le> g \<and> g \<le> c
          \<and> (g = c \<longrightarrow> (\<exists>e. s (RegGenerationIncarnationKey w) = Some (RStr (Txt i), e))))
     \<and> (\<forall>i j g. (i, g) \<in> set log \<longrightarrow> (j, g) \<in> set log \<longrightarrow> i = j)
     \<and> sorted_wrt (\<ge>) (map snd log)"

lemma generations_ok_frame:
  assumes "generations_ok w s c log" "s' (RegGenerationKey w) = s (RegGenerationKey w)"
    "s' (RegGenerationIncarnationKey w) = s (RegGenerationIncarnationKey w)"
  shows "generations_ok w s' c log"
  using assms by (simp add: generations_ok_def)

lemma generations_ok_counter:
  assumes "generations_ok w s c log"
  shows "counter_of (GET now s (RegGenerationKey w)) = c" "expiry_at now s (RegGenerationKey w) = None" "0 \<le> c"
  using assms by (auto simp: generations_ok_def counter_of_def GET_def expiry_at_def peek_def)

text \<open>One accepted registration, seen by the log: the counter moves to the generation handed out.\<close>

lemma generations_ok_commit:
  assumes ok: "generations_ok w s c log" and commit: "register_commit cfg now reg s = (g, s')" and w: "r_workerId reg = w"
  shows "generations_ok w s' g ((r_incarnationId reg, g) # log)"
proof -
  note cells = commit_cells [OF commit w [symmetric], unfolded generations_ok_counter [OF ok]]
  have upper: "\<And>i h. (i, h) \<in> set log \<Longrightarrow> h \<le> c" using ok by (simp add: generations_ok_def)
  show ?thesis
  proof (cases "g = c")
    case same: True
    then have g1: "1 \<le> g" and "GET now s (RegGenerationIncarnationKey w) = Some (Txt (r_incarnationId reg))"
      using cells(5) by (auto split: if_splits)
    then obtain e where inc: "s (RegGenerationIncarnationKey w) = Some (RStr (Txt (r_incarnationId reg)), e)"
      by (auto simp: GET_Some_cell)
    have mine: "i = r_incarnationId reg" if "(i, c) \<in> set log" for i using that ok inc by (auto simp: generations_ok_def)
    show ?thesis using ok same g1 cells(3,4) inc by (auto simp: generations_ok_def mine)
  next
    case False
    then have g: "g = c + 1" using cells(5) by (auto split: if_splits)
    have new: "s' (RegGenerationKey w) = Some (RStr (NumV g), None)" "1 \<le> g"
      "s' (RegGenerationIncarnationKey w) = Some (RStr (Txt (r_incarnationId reg)), None)"
      using cells(3,4) g generations_ok_counter(3) [OF ok] by simp_all
    have old: "\<And>i h. (i, h) \<in> set log \<Longrightarrow> 1 \<le> h \<and> h < g"
      "\<And>i j h. (i, h) \<in> set log \<Longrightarrow> (j, h) \<in> set log \<Longrightarrow> i = j" "sorted_wrt (\<ge>) (map snd log)"
      using ok g by (fastforce simp: generations_ok_def)+
    show ?thesis unfolding generations_ok_def
      using new old(3) by (auto dest: old(1) intro: old(2) order.strict_implies_order)
  qed
qed

lemma generations_ok_drop: "generations_ok w s c (p # log) \<Longrightarrow> generations_ok w s c log"
  by (auto simp: generations_ok_def)

lemma generations_ok_register:
  assumes "generations_ok w s c log" "register cfg now reg auth s = (r, s')"
  shows "\<exists>c'. generations_ok w s' c' (case r of Ok g \<Rightarrow> if r_workerId reg = w then (r_incarnationId reg, g) # log else log
                                           | Err _ \<Rightarrow> log)"
  using assms(2)
proof (cases rule: register_cases)
  case (refused e)
  then show ?thesis using generations_ok_frame [OF assms(1), of s'] by auto
next
  case (committed reg' s1 g)
  have ok1: "generations_ok w s1 c log" using generations_ok_frame [OF assms(1), of s1] committed(5) by simp
  show ?thesis
  proof (cases "r_workerId reg = w")
    case True
    have "generations_ok w s' g ((r_incarnationId reg, g) # log)"
      using generations_ok_commit [OF ok1 committed(7)] committed(1,2) True by simp
    then have "generations_ok w s' g (if b then (r_incarnationId reg, g) # log else log)" for b
      using generations_ok_drop by (cases b) auto
    from this [of "\<not> (\<bar>g\<bar> > MAX_SAFE_INTEGER \<or> g < 1)"] show ?thesis using committed(8) True by (auto split: if_splits)
  next
    case False
    have "s' k = s1 k" if "k \<in> incarnation_keys w" for k
      by (rule commit_cells(6) [OF committed(7) refl _ that]) (use committed(1) False in simp)
    then have "generations_ok w s' c log" using generations_ok_frame [OF ok1, of s'] by simp
    then show ?thesis using committed(8) False by auto
  qed
qed

lemma reg_log_ok: "reg_log w now s log \<Longrightarrow> \<exists>c. generations_ok w s c log"
proof (induction rule: reg_log.induct)
  case (begins s now)
  then show ?case by (auto simp: generations_ok_def)
next
  case (granted now s log now' cfg reg auth g s')
  then obtain c where "generations_ok w s c log" by blast
  from generations_ok_register [OF this granted.hyps(3)] show ?case by simp
next
  case (denied now s log now' cfg reg auth e s')
  then obtain c where "generations_ok w s c log" by blast
  from generations_ok_register [OF this denied.hyps(3)] show ?case by simp
next
  case (revoked now s log now' s')
  then obtain c where "generations_ok w s c log" by blast
  from generations_ok_frame [OF this, of s'] revoked.hyps(3) show ?case by (auto simp: withdrawn_def)
next
  case (lost now s log now' s')
  then obtain c where "generations_ok w s c log" by blast
  from generations_ok_frame [OF this, of s'] lost.hyps(3) show ?case by (auto simp: forgotten_def)
next
  case (passes now s log now' s')
  then obtain c where "generations_ok w s c log" by blast
  from generations_ok_frame [OF this, of s'] passes.hyps(3) show ?case by auto
qed

lemma register_refusal_None:
  assumes "register_refusal now reg s = None"
  shows "peek now s (QuarantineKey (r_workerId reg) (r_incarnationId reg)) = None"
    "peek now s (IncarnationFenceKey (r_workerId reg) (r_incarnationId reg)) = None"
proof -
  have "\<not> EXISTS now s (QuarantineKey (r_workerId reg) (r_incarnationId reg))"
    "\<not> EXISTS now s (IncarnationFenceKey (r_workerId reg) (r_incarnationId reg))"
    using assms by (simp_all add: register_refusal_def Let_def split: if_splits)
  then show "peek now s (QuarantineKey (r_workerId reg) (r_incarnationId reg)) = None"
    "peek now s (IncarnationFenceKey (r_workerId reg) (r_incarnationId reg)) = None" unfolding EXISTS_def by blast+
qed

lemma commit_registration:
  assumes "register_commit cfg now reg s = (g, s')"
  shows "s' (WorkerKey (r_workerId reg)) = Some (RStr (Json (JReg reg)), Some (now + workerTtlSeconds cfg * 1000))"
    "s' (QuarantineKey v i) = s (QuarantineKey v i)"
    "requires_ready reg \<Longrightarrow> GET now s (RegGenerationIncarnationKey (r_workerId reg)) \<noteq> Some (Txt (r_incarnationId reg)) \<Longrightarrow>
       s' (ReadyKey (r_workerId reg)) = None"
proof -
  have f: "fence_current now reg s k = s k" if "\<And>i. k \<noteq> IncarnationFenceKey (r_workerId reg) i" for k
    using that by (simp add: fence_current_def redis_frame split: option.splits sval.splits)
  have r: "GET now (fence_current now reg s) (RegGenerationIncarnationKey (r_workerId reg)) =
      GET now s (RegGenerationIncarnationKey (r_workerId reg))"
    using f by (intro read_cong(2)) simp
  show "s' (WorkerKey (r_workerId reg)) = Some (RStr (Json (JReg reg)), Some (now + workerTtlSeconds cfg * 1000))"
    using assms by (auto simp: register_commit_def Let_def SETEX_def SETAT_def redis_frame split: prod.splits if_splits)
  show "s' (QuarantineKey v i) = s (QuarantineKey v i)"
    using assms by (auto simp: register_commit_def take_generation_def INCR_def Let_def redis_frame f split: prod.splits if_splits)
  show "s' (ReadyKey (r_workerId reg)) = None"
    if "requires_ready reg" "GET now s (RegGenerationIncarnationKey (r_workerId reg)) \<noteq> Some (Txt (r_incarnationId reg))"
    using assms that by (auto simp: register_commit_def take_generation_def Let_def redis_frame r split: prod.splits)
qed

section \<open>Properties\<close>

text \<open>C8. A fenced incarnation never returns. Once a worker's incarnation has been fenced, no
  interleaving of registrations, revocations and other traffic makes it current again: it is never
  the current incarnation, every registration it attempts is refused, and it cannot confirm readiness.\<close>

theorem fenced_incarnation_never_returns:
  assumes start: "\<And>j. s0 (IncarnationFenceKey w j) = None"
    and before: "(reg_step w)\<^sup>*\<^sup>* (t0, s0) (t1, s1)" and fence: "EXISTS t1 s1 (IncarnationFenceKey w i)"
    and after: "(reg_step w)\<^sup>*\<^sup>* (t1, s1) (t2, s2)"
  shows "GET t2 s2 (IncarnationKey w) \<noteq> Some (Txt i)
    \<and> (r_workerId reg = w \<and> r_incarnationId reg = i \<longrightarrow> (\<exists>e. fst (register cfg t2 reg auth s2) = Err e))
    \<and> (\<exists>e. fst (confirmReady cfg t2 w i g s2) = Err e)"
proof (intro conjI impI)
  have "fences_hold w (t0, s0)" using start by (simp add: fences_hold_def)
  then have i1: "fences_hold w (t1, s1)" by (rule fencing.reachable_inv [OF before])
  have "s1 (IncarnationFenceKey w i) \<noteq> None" using fence by (auto simp: EXISTS_def peek_def split: option.splits)
  then have "fenced w i (t1, s1)" using fences_holdD [OF i1, of i] by (auto simp: fenced_def)
  then have f: "s2 (IncarnationFenceKey w i) = Some (RStr (Txt (js ''1'')), None)"
    using fencing.stays [OF after i1] by (simp add: fenced_def)
  show cur: "GET t2 s2 (IncarnationKey w) \<noteq> Some (Txt i)"
    using fences_holdD [OF fencing.reachable_inv [OF after i1], of i] f by simp
  show "\<exists>e. fst (confirmReady cfg t2 w i g s2) = Err e" using cur by (simp add: confirmReady_def)
  show "\<exists>e. fst (register cfg t2 reg auth s2) = Err e" if "r_workerId reg = w \<and> r_incarnationId reg = i"
  proof -
    obtain r s' where r: "register cfg t2 reg auth s2 = (r, s')" by fastforce
    then show ?thesis
    proof (cases rule: register_cases)
      case (committed reg' s1 g)
      have "EXISTS t2 s1 (IncarnationFenceKey w i)" using f committed(5) by (simp add: EXISTS_def peek_def)
      then show ?thesis using committed(1,2,6) that by (auto simp: register_refusal_def Let_def split: if_splits)
    qed (use r in auto)
  qed
qed

text \<open>C22. Registration generations are fencing tokens. In every history of a worker the generation handed
  to a registration is at least every earlier one, and strictly greater than every generation another
  incarnation ever got.\<close>

theorem registration_generations_fence:
  assumes "reg_log w now s log" "now \<le> now'" "register cfg now' reg auth s = (Ok g, s')" "r_workerId reg = w"
    and "(j, h) \<in> set log"
  shows "1 \<le> g \<and> h \<le> g \<and> (j \<noteq> r_incarnationId reg \<longrightarrow> h < g)"
proof (intro conjI impI)
  have "reg_log w now' s' ((r_incarnationId reg, g) # log)" using reg_log.granted [OF assms(1-3)] assms(4) by simp
  then obtain c where ok: "generations_ok w s' c ((r_incarnationId reg, g) # log)" using reg_log_ok by blast
  then show "1 \<le> g" by (simp add: generations_ok_def)
  show le: "h \<le> g" using ok assms(5) by (auto simp: generations_ok_def)
  show "h < g" if "j \<noteq> r_incarnationId reg"
  proof -
    have "h \<noteq> g" using ok assms(5) that by (auto simp: generations_ok_def)
    with le show ?thesis by simp
  qed
qed

text \<open>C24. No worker is replaced while it holds the lock. While the lock of a worker exists, another
  incarnation cannot register: it is refused and the current incarnation, its fences and the
  generation stay.\<close>

theorem busy_worker_not_replaced:
  assumes "EXISTS now s (LockKey w)" "r_workerId reg = w"
    and "case GET now s (IncarnationKey w) of None \<Rightarrow> GET now s (LockIncarnationKey w) \<noteq> Some (Txt (r_incarnationId reg))
         | Some cur \<Rightarrow> cur \<noteq> Txt (r_incarnationId reg)"
  shows "(\<exists>e. fst (register cfg now reg auth s) = Err e)
    \<and> (k \<in> incarnation_keys w \<longrightarrow> snd (register cfg now reg auth s) k = s k)"
proof -
  obtain r s' where r: "register cfg now reg auth s = (r, s')" by fastforce
  have "(\<exists>e. r = Err e) \<and> (k \<in> incarnation_keys w \<longrightarrow> s' k = s k)"
    using r
  proof (cases rule: register_cases)
    case (refused e)
    then show ?thesis using incarnation_keys_identity by metis
  next
    case (committed reg' s1 g)
    have "EXISTS now s1 (LockKey w) = EXISTS now s (LockKey w)" "GET now s1 (IncarnationKey w) = GET now s (IncarnationKey w)"
      "GET now s1 (LockIncarnationKey w) = GET now s (LockIncarnationKey w)"
      using committed(5) by (simp_all add: EXISTS_def GET_def peek_def)
    then have "register_refusal now reg' s1 \<noteq> None"
      using assms committed(1,2) by (auto simp: register_refusal_def Let_def split: option.splits)
    with committed(6) show ?thesis by simp
  qed
  then show ?thesis using r by simp
qed

text \<open>C23. A replaced worker becomes dispatchable exactly by confirming. When an incarnation that must
  confirm its readiness registers with a fresh generation, no request can be dispatched to it; when it
  then confirms that generation before its registration lapses, the confirmation succeeds and the
  worker is dispatchable with the token of that incarnation and generation.\<close>

theorem ready_only_after_confirmation:
  assumes log: "reg_log w t0 s log" and w: "r_workerId reg = w" and ready: "requires_ready reg"
    and fresh: "GET now s (RegGenerationIncarnationKey w) \<noteq> Some (Txt (r_incarnationId reg))"
    and r: "register cfg now reg auth s = (Ok g, s')"
    and t: "now \<le> t" "t \<le> now + workerTtlSeconds cfg * 1000"
  shows "dispatchableRegistration t w s' = None
    \<and> fst (confirmReady cfg t w (r_incarnationId reg) g s') = Ok ()
    \<and> (\<exists>reg'. clamp_registration cfg reg = Ok reg' \<and>
      dispatchableRegistration t w (snd (confirmReady cfg t w (r_incarnationId reg) g s'))
        = Some (reg', Some (workerReadyToken (r_incarnationId reg) g)))"
proof (intro conjI)
  obtain c where "generations_ok w s c log" using reg_log_ok [OF log] by blast
  from r obtain reg' s1 where c: "r_workerId reg' = w" "r_incarnationId reg' = r_incarnationId reg"
      "requires_ready reg'" "clamp_registration cfg reg = Ok reg'" "\<And>k. k \<noteq> StableIdentityKey w \<Longrightarrow> s1 k = s k"
      "register_refusal now reg' s1 = None" "register_commit cfg now reg' s1 = (g, s')"
      "\<bar>g\<bar> \<le> MAX_SAFE_INTEGER" "1 \<le> g"
    using ready w by (elim register_OkE) auto
  have ok1: "generations_ok w s1 c log" using generations_ok_frame [OF \<open>generations_ok w s c log\<close>, of s1] c(5) by simp
  have fresh1: "GET now s1 (RegGenerationIncarnationKey w) \<noteq> Some (Txt (r_incarnationId reg))"
    using fresh c(5) by (simp add: GET_def peek_def)
  note cells = commit_cells [OF c(7) refl, unfolded c(1,2) generations_ok_counter [OF ok1]]
  note regd = commit_registration [OF c(7), unfolded c(1,2)]
  have gc: "g = c + 1" using cells(5) fresh1 by simp
  have reads: "s' (WorkerKey w) = Some (RStr (Json (JReg reg')), Some (now + workerTtlSeconds cfg * 1000))"
    "s' (IncarnationKey w) = Some (RStr (Txt (r_incarnationId reg)), Some (now + workerTtlSeconds cfg * 1000))"
    "s' (RegGenerationKey w) = Some (RStr (NumV g), None)"
    "s' (RegGenerationIncarnationKey w) = Some (RStr (Txt (r_incarnationId reg)), None)"
    "s' (ReadyKey w) = None" using cells(1,3,4) gc regd(1) regd(3) [OF c(3) fresh1] by simp_all
  have free: "peek n s' (QuarantineKey w (r_incarnationId reg)) = None" "peek n s' (IncarnationFenceKey w (r_incarnationId reg)) = None"
    if "now \<le> n" for n
    using register_refusal_None [OF c(6)] c(1,2) peek_later_None [OF that, of s1]
      peek_cong [of s' "QuarantineKey w (r_incarnationId reg)" s1] peek_cong [of s' "IncarnationFenceKey w (r_incarnationId reg)" s1]
      cells(2) [of "r_incarnationId reg"] regd(2) [of w "r_incarnationId reg"] by simp_all
  show "dispatchableRegistration t w s' = None"
    using reads t c(3) by (simp add: dispatchableRegistration_def GET_def peek_def)
  have conf: "confirmReady cfg t w (r_incarnationId reg) g s' = (Ok (), SETEX t
      (min (workerTtlSeconds cfg) (ceil_div (workerTtlSeconds cfg) 2 + 5)) (ReadyKey w)
      (Txt (workerReadyToken (r_incarnationId reg) g)) s')"
    using reads t free [OF t(1)] by (simp add: confirmReady_def EXISTS_def GET_def peek_def)
  then show "fst (confirmReady cfg t w (r_incarnationId reg) g s') = Ok ()" by simp
  have ttl: "0 \<le> workerTtlSeconds cfg" using t by simp
  then have "0 \<le> min (workerTtlSeconds cfg) (ceil_div (workerTtlSeconds cfg) 2 + 5)"
    using ceil_div_ge [of 2 "workerTtlSeconds cfg"] by simp
  then have "dispatchableRegistration t w (snd (confirmReady cfg t w (r_incarnationId reg) g s'))
      = Some (reg', Some (workerReadyToken (r_incarnationId reg) g))"
    using reads t c(2,3,8,9) by (simp add: conf dispatchableRegistration_def GET_def peek_def SETEX_def SETAT_def redis_frame)
  with c(4) show "\<exists>reg'. clamp_registration cfg reg = Ok reg' \<and>
      dispatchableRegistration t w (snd (confirmReady cfg t w (r_incarnationId reg) g s'))
        = Some (reg', Some (workerReadyToken (r_incarnationId reg) g))" by blast
qed

section \<open>Witnesses\<close>

definition demo_config :: store_config where
  "demo_config = \<lparr>workerTtlSeconds = 60, maxWorkspaceLeaseSlots = 4, laneGitEnabled = False\<rparr>"

definition demo_worker :: "string \<Rightarrow> registration" where
  "demo_worker inc = \<lparr>r_protocolVersion = 1, r_workerId = js ''w'', r_incarnationId = js inc,
     r_capabilities = JObj [(js ''requiresReadyConfirmation'', JBool True)], r_binding = None,
     r_credentialId = None, r_identityId = None\<rparr>"

definition demo_first :: bstore where
  "demo_first = snd (register demo_config 0 (demo_worker ''a'') NoAuthorization (\<lambda>_. None))"

definition demo_second :: bstore where
  "demo_second = snd (register demo_config 1 (demo_worker ''b'') NoAuthorization demo_first)"

lemmas register_eval = register_def clamp_registration_def pairing_revoked_def bind_identity_def or_empty_def
  register_refusal_def register_commit_def fence_current_def take_generation_def requires_ready_def lease_slots_def
  INCR_def counter_of_def EXISTS_def GET_def expiry_at_def peek_def SET_def SETEX_def SETAT_def DEL_def put_def
  demo_config_def demo_worker_def MAX_SAFE_INTEGER_def Let_def

lemma demo_registers:
  "register demo_config 0 (demo_worker ''a'') NoAuthorization (\<lambda>_. None) = (Ok 1, demo_first)"
  "register demo_config 1 (demo_worker ''b'') NoAuthorization demo_first = (Ok 2, demo_second)"
proof -
  have "fst (register demo_config 0 (demo_worker ''a'') NoAuthorization (\<lambda>_. None)) = Ok 1"
    by (simp add: register_eval)
  then show "register demo_config 0 (demo_worker ''a'') NoAuthorization (\<lambda>_. None) = (Ok 1, demo_first)"
    by (simp add: demo_first_def prod_eq_iff)
  have "fst (register demo_config 1 (demo_worker ''b'') NoAuthorization demo_first) = Ok 2"
    by (simp add: demo_first_def register_eval)
  then show "register demo_config 1 (demo_worker ''b'') NoAuthorization demo_first = (Ok 2, demo_second)"
    by (simp add: demo_second_def prod_eq_iff)
qed

lemma demo_workers [simp]: "r_workerId (demo_worker i) = js ''w''" "r_incarnationId (demo_worker i) = js i"
  "requires_ready (demo_worker i)"
  by (simp_all add: demo_worker_def requires_ready_def)

lemma demo_log: "reg_log (js ''w'') 0 demo_first [(js ''a'', 1)]"
  using reg_log.granted [OF reg_log.begins [of "\<lambda>_. None" "js ''w''" 0] order_refl demo_registers(1)] by simp

lemma demo_steps: "(reg_step (js ''w''))\<^sup>*\<^sup>* (0, \<lambda>_. None) (1, demo_second)"
proof -
  have "reg_step (js ''w'') (0, \<lambda>_. None) (0, demo_first)" using demo_registers(1) by (rule reg_step.registers [rotated]) simp
  moreover have "reg_step (js ''w'') (0, demo_first) (1, demo_second)" using demo_registers(2) by (rule reg_step.registers [rotated]) simp
  ultimately show ?thesis by auto
qed

lemma demo_fence: "EXISTS 1 demo_second (IncarnationFenceKey (js ''w'') (js ''a''))"
  by (simp add: demo_second_def demo_first_def register_eval)

theorem fenced_incarnation_never_returns_witness:
  "\<exists>e. fst (register demo_config 1 (demo_worker ''a'') NoAuthorization demo_second) = Err e"
  using fenced_incarnation_never_returns [OF _ demo_steps demo_fence rtranclp.rtrancl_refl, of "demo_worker ''a''" demo_config
    NoAuthorization] by simp

theorem registration_generations_fence_witness:
  "reg_log (js ''w'') 0 demo_first [(js ''a'', 1)] \<and> (1 :: int) < 2"
  using registration_generations_fence [OF demo_log _ demo_registers(2), of "js ''a''" 1] demo_log by simp

theorem busy_worker_not_replaced_witness:
  "\<exists>e. fst (register demo_config 1 (demo_worker ''b'') NoAuthorization (SET (LockKey (js ''w'')) (Txt (js ''l'')) demo_first)) = Err e"
proof -
  let ?s = "SET (LockKey (js ''w'')) (Txt (js ''l'')) demo_first"
  have "EXISTS 1 ?s (LockKey (js ''w''))" by (simp add: redis_simps)
  moreover have "GET 1 ?s (IncarnationKey (js ''w'')) = Some (Txt (js ''a''))"
    by (simp add: demo_first_def register_eval)
  ultimately show ?thesis using busy_worker_not_replaced [of 1 ?s "js ''w''" "demo_worker ''b''" demo_config NoAuthorization] by simp
qed

theorem ready_only_after_confirmation_witness:
  "dispatchableRegistration 5 (js ''w'') demo_second = None
   \<and> fst (confirmReady demo_config 5 (js ''w'') (js ''b'') 2 demo_second) = Ok ()"
proof -
  have "GET 1 demo_first (RegGenerationIncarnationKey (js ''w'')) = Some (Txt (js ''a''))"
    by (simp add: demo_first_def register_eval)
  then show ?thesis
    using ready_only_after_confirmation [OF demo_log _ _ _ demo_registers(2), of 5] by (simp add: demo_config_def)
qed

end
