(* ===== verification/Assignments.thy ===== *)
theory Assignments
  imports Registration
begin

text \<open>
  The life of one assignment in \<^verbatim>\<open>service/src/bridge/store.ts\<close>: it is enqueued for the active
  incarnation, claimed and acknowledged by the worker, settled or closed, and cleaned up. Each Lua
  script is one atomic function on the store; a method that reads before it runs its script is a
  decision on what it read, followed by the script, so that what it read may be stale.

  An absent and an empty identity are one value of the scripts' arguments (\<^verbatim>\<open>identityId ?? ''\<close>).
  Serialized documents are compared as the records they encode.
\<close>

section \<open>Reads\<close>

definition readAssignment :: "int \<Rightarrow> jstr \<Rightarrow> bstore \<Rightarrow> assignment option" where
  "readAssignment now aid s = (case GET now s (AssignmentKey aid) of Some (Json (JAsg a)) \<Rightarrow> Some a | _ \<Rightarrow> None)"

definition registration_at :: "int \<Rightarrow> jstr \<Rightarrow> bstore \<Rightarrow> registration option" where
  "registration_at now w s = (case GET now s (WorkerKey w) of Some (Json (JReg r)) \<Rightarrow> Some r | _ \<Rightarrow> None)"

definition settlement_at :: "int \<Rightarrow> jstr \<Rightarrow> bstore \<Rightarrow> settlement option" where
  "settlement_at now aid s = (case GET now s (SettlementKey aid) of Some (Json (JSet x)) \<Rightarrow> Some x | _ \<Rightarrow> None)"

text \<open>The owner test of the scripts: a given identity must be the stable one, none must be bound
  otherwise.\<close>

definition identity_matches :: "int \<Rightarrow> jstr \<Rightarrow> jstr option \<Rightarrow> bstore \<Rightarrow> bool" where
  "identity_matches now w identityId s =
     (if or_empty identityId \<noteq> [] then GET now s (StableIdentityKey w) = Some (Txt (or_empty identityId))
      else \<not> EXISTS now s (StableIdentityKey w))"

section \<open>The worker lock\<close>

definition acquireLock :: "int \<Rightarrow> jstr \<Rightarrow> jstr \<Rightarrow> jstr \<Rightarrow> int \<Rightarrow> bool \<Rightarrow> guard option \<Rightarrow> bstore \<Rightarrow> bool \<times> bstore" where
  "acquireLock now w aid inc ttlSeconds reuseOwned guard s =
     (if (case guard of None \<Rightarrow> False
          | Some g \<Rightarrow> \<not> durableAdmissionFence now s g \<or> GET now s (IncarnationKey w) \<noteq> Some (Txt inc))
      then (False, s)
      else if reuseOwned \<and> GET now s (LockKey w) = Some (Txt aid) \<and> GET now s (LockIncarnationKey w) = Some (Txt inc)
      then (True, PEXPIRE now (LockIncarnationKey w) (ttlSeconds * 1000) (PEXPIRE now (LockKey w) (ttlSeconds * 1000) s))
      else if EXISTS now s (LockKey w) then (False, s)
      else (True, SETPX now (ttlSeconds * 1000) (LockIncarnationKey w) (Txt inc)
                    (SETPX now (ttlSeconds * 1000) (LockKey w) (Txt aid) s)))"

definition releaseLock :: "int \<Rightarrow> jstr \<Rightarrow> jstr \<Rightarrow> bstore \<Rightarrow> bstore" where
  "releaseLock now w aid s =
     (if GET now s (LockKey w) = Some (Txt aid) then DEL (LockIncarnationKey w) (DEL (LockKey w) s) else s)"

section \<open>Enqueue\<close>

datatype fence_scope = NoScope | Lane | Checkout

definition fence_scope_of :: "assignment \<Rightarrow> fence_scope" where
  "fence_scope_of a =
     (if workspaceLeaseSlot a = None then NoScope
      else case workspaceFenceParent (or_empty (workspaceFence a)) of None \<Rightarrow> Checkout | Some _ \<Rightarrow> Lane)"

text \<open>The receipt kept beside a slot's fence: the ownership fields, without the runtime session.\<close>

definition receipt_of :: "assignment \<Rightarrow> ownership" where
  "receipt_of a = \<lparr>assignmentId = assignmentId a, workerId = workerId a, incarnationId = incarnationId a,
     workspaceFence = workspaceFence a, workspaceLeaseSlot = workspaceLeaseSlot a, generation = generation a,
     leaseTokenHash = leaseTokenHash a, workerIdentityId = workerIdentityId a, expiresAt = expiresAt a,
     runtimeSessionId = None, durableRequestKey = durableRequestKey a\<rparr>"

definition fence_key :: "'a ownership_scheme \<Rightarrow> bkey" where
  "fence_key a = (case assignmentWorkspace a of None \<Rightarrow> NoWorkspaceKey (assignmentId a)
                  | Some ws \<Rightarrow> workspaceQuarantineKey (workerId a) ws)"

definition parent_of :: "assignment \<Rightarrow> jstr" where
  "parent_of a = or_empty (workspaceFenceParent (or_empty (workspaceFence a)))"

text \<open>The durable guard of the script: the request is still this replica's to admit and the slot or
  the lock is still held by this assignment.\<close>

definition enqueue_guarded :: "int \<Rightarrow> assignment \<Rightarrow> guard option \<Rightarrow> bstore \<Rightarrow> bool" where
  "enqueue_guarded now a guard s =
     (case guard of None \<Rightarrow> True
      | Some g \<Rightarrow> durableAdmissionFence now s g
          \<and> (case workspaceLeaseSlot a of
               None \<Rightarrow> GET now s (LockKey (workerId a)) = Some (Txt (assignmentId a))
                 \<and> GET now s (LockIncarnationKey (workerId a)) = Some (Txt (incarnationId a))
             | Some n \<Rightarrow> HGET now s (SlotsKey (workerId a)) (fA n) = Some (Txt (assignmentId a))
                 \<and> HGET now s (SlotsKey (workerId a)) (fI n) = Some (Txt (incarnationId a))))"

definition enqueue_blocked :: "int \<Rightarrow> assignment \<Rightarrow> bkey list \<Rightarrow> bstore \<Rightarrow> bool" where
  "enqueue_blocked now a laneFences s \<longleftrightarrow>
     assignmentWorkspace a \<noteq> None \<and> EXISTS now s (fence_key a)
     \<or> fence_scope_of a = Lane \<and> EXISTS now s (workspaceQuarantineKey (workerId a) (parent_of a))
     \<or> fence_scope_of a = Checkout \<and> (\<exists>k \<in> set laneFences. EXISTS now s k)"

definition put_receipt :: "int \<Rightarrow> assignment \<Rightarrow> int \<Rightarrow> bstore \<Rightarrow> bstore" where
  "put_receipt now a ttl s =
     (let ek = workspaceEpochKey (workerId a) (or_empty (workspaceFence a));
          (epoch, s1) = (case GET now s ek of Some v \<Rightarrow> (v, s) | None \<Rightarrow> (NumV 0, SETEX now ttl ek (NumV 0) s));
          s2 = (if PTTL now s1 ek < ttl * 1000 then EXPIRE now ek ttl s1 else s1);
          rk = FenceReceiptKey (assignmentId a);
          s3 = HSET now rk (js ''metadata'') (Json (JOwn (receipt_of a))) s2;
          s4 = HSET now rk (js ''epoch'') epoch s3
      in EXPIRE now rk ttl s4)"

text \<open>The writes of the script, in order: the stale lanes leave the index of their checkout; the
  assignment is stored and queued; the lock is bound to the incarnation; the deadline is opened; the
  workspace is fenced and a lane indexed; a slot gets its receipt; a durable request is admitted.\<close>

definition unindex_lanes :: "int \<Rightarrow> assignment \<Rightarrow> bkey list \<Rightarrow> bstore \<Rightarrow> bstore" where
  "unindex_lanes now a laneFences s =
     (if fence_scope_of a = Checkout
      then fold (SREM now (workspaceLaneFenceIndexKey (workerId a) (or_empty (workspaceFence a)))) laneFences s else s)"

definition queue_assignment :: "int \<Rightarrow> assignment \<Rightarrow> int \<Rightarrow> bstore \<Rightarrow> bstore" where
  "queue_assignment now a ttlSeconds s =
     (let q = QueueKey (workerId a) (incarnationId a) (workspaceLeaseSlot a)
      in EXPIRE now q ttlSeconds (RPUSH now q (Txt (assignmentId a))
           (SETEX now ttlSeconds (AssignmentKey (assignmentId a)) (Json (JAsg a)) s)))"

definition bind_lock :: "int \<Rightarrow> assignment \<Rightarrow> int \<Rightarrow> bstore \<Rightarrow> bstore" where
  "bind_lock now a ttlSeconds s =
     (if workspaceLeaseSlot a \<noteq> None then s
      else SETPX now (ttlSeconds * 1000) (LockIncarnationKey (workerId a)) (Txt (incarnationId a)) s)"

definition open_deadline :: "assignment \<Rightarrow> bstore \<Rightarrow> bstore" where
  "open_deadline a s = SETAT (expiresAt a) (DeadlineKey (assignmentId a)) (Txt (js ''1'')) s"

definition raise_fence :: "int \<Rightarrow> assignment \<Rightarrow> bstore \<Rightarrow> bstore" where
  "raise_fence now a s =
     (let s1 = (if assignmentWorkspace a = None then s else SET (fence_key a) (Txt (assignmentId a)) s)
      in if fence_scope_of a = Lane then SADD now (workspaceLaneFenceIndexKey (workerId a) (parent_of a)) (fence_key a) s1 else s1)"

definition give_receipt :: "int \<Rightarrow> assignment \<Rightarrow> int \<Rightarrow> bstore \<Rightarrow> bstore" where
  "give_receipt now a ttl s = (if workspaceLeaseSlot a \<noteq> None then put_receipt now a ttl s else s)"

definition admit_request :: "int \<Rightarrow> assignment \<Rightarrow> guard option \<Rightarrow> bstore \<Rightarrow> bstore" where
  "admit_request now a guard s =
     (case guard of None \<Rightarrow> s
      | Some g \<Rightarrow> HSET now (RequestKey (g_key g)) (js ''admittedAtMs'') (NumV now)
          (HSET now (RequestKey (g_key g)) (js ''assignment'') (Json (JAsg a))
            (HSET now (RequestKey (g_key g)) (js ''state'') (Txt (state_text Admitted)) s)))"

definition enqueue_commit :: "int \<Rightarrow> assignment \<Rightarrow> int \<Rightarrow> bkey list \<Rightarrow> guard option \<Rightarrow> int \<Rightarrow> bstore \<Rightarrow> bstore" where
  "enqueue_commit now a ttlSeconds laneFences guard outcomeTtl s =
     admit_request now a guard (give_receipt now a outcomeTtl (raise_fence now a (open_deadline a
       (bind_lock now a ttlSeconds (queue_assignment now a ttlSeconds (unindex_lanes now a laneFences s))))))"

text \<open>\<open>laneFences\<close> is what the method read from the index of the checkout before the script.\<close>

definition enqueueForActiveIncarnation ::
  "int \<Rightarrow> int \<Rightarrow> assignment \<Rightarrow> int \<Rightarrow> jstr option \<Rightarrow> guard option \<Rightarrow> bkey list \<Rightarrow> bstore
   \<Rightarrow> (bridge_error, bool) result \<times> bstore" where
  "enqueueForActiveIncarnation now dateNow a ttlSeconds readyToken guard laneFences s =
     (if \<not> enqueue_guarded now a guard s then (Ok False, s)
      else if GET now s (IncarnationKey (workerId a)) \<noteq> Some (Txt (incarnationId a)) then (Ok False, s)
      else if or_empty readyToken \<noteq> [] \<and> GET now s (ReadyKey (workerId a)) \<noteq> Some (Txt (or_empty readyToken)) then (Ok False, s)
      else if enqueue_blocked now a laneFences s then (Err (StoreError WORKSPACE_QUARANTINED), s)
      else (Ok True, enqueue_commit now a ttlSeconds laneFences guard
              (if guard = None then ttlSeconds else assignmentOutcomeTtlSeconds dateNow a) s))"

definition lane_fences :: "int \<Rightarrow> assignment \<Rightarrow> bstore \<Rightarrow> bkey list" where
  "lane_fences now a s =
     (if fence_scope_of a = Checkout
      then SMEMBERS now s (workspaceLaneFenceIndexKey (workerId a) (or_empty (workspaceFence a))) else [])"

section \<open>Leases\<close>

definition claimOrPopLease :: "int \<Rightarrow> jstr \<Rightarrow> jstr \<Rightarrow> jstr option \<Rightarrow> nat option \<Rightarrow> bstore \<Rightarrow> jstr option \<times> bstore" where
  "claimOrPopLease now w inc identityId slot s =
     (let q = QueueKey w inc slot; c = LeaseClaimKey w inc slot in
      if \<not> identity_matches now w identityId s then (None, s)
      else case GET now s c of
        Some (Txt claimed) \<Rightarrow> (Some claimed, s)
      | _ \<Rightarrow>
          (case LPOP now q s of
             (Some (Txt aid), s1) \<Rightarrow> (Some aid, SETEX now (max 1 (TTL now s q)) c (Txt aid) s1)
           | _ \<Rightarrow> (None, s)))"

definition discardLeaseClaim :: "int \<Rightarrow> jstr \<Rightarrow> jstr \<Rightarrow> jstr \<Rightarrow> nat option \<Rightarrow> bstore \<Rightarrow> bstore" where
  "discardLeaseClaim now w inc aid slot s =
     (if GET now s (LeaseClaimKey w inc slot) = Some (Txt aid)
      then DEL (LeaseAckKey w inc slot) (DEL (LeaseClaimKey w inc slot) s) else s)"

definition returnLeaseById :: "int \<Rightarrow> jstr \<Rightarrow> jstr \<Rightarrow> jstr \<Rightarrow> nat option \<Rightarrow> bstore \<Rightarrow> bstore" where
  "returnLeaseById now w inc aid slot s =
     (let q = QueueKey w inc slot; ttl = TTL now s (AssignmentKey aid) in
      if \<not> EXISTS now s (AssignmentKey aid) \<or> GET now s (LeaseClaimKey w inc slot) \<noteq> Some (Txt aid) then s
      else let s1 = DEL (LeaseAckKey w inc slot) (DEL (LeaseClaimKey w inc slot) s);
               s2 = LPUSH now q (Txt aid) (snd (LREM now q (Txt aid) s1))
           in if ttl > 0 then EXPIRE now q ttl s2 else s2)"

definition returnLease :: "int \<Rightarrow> assignment \<Rightarrow> bstore \<Rightarrow> bstore" where
  "returnLease now a s = returnLeaseById now (workerId a) (incarnationId a) (assignmentId a) (workspaceLeaseSlot a) s"

definition clearUndeliveredWorkspaceFence :: "int \<Rightarrow> assignment \<Rightarrow> bstore \<Rightarrow> bstore" where
  "clearUndeliveredWorkspaceFence now a s =
     (if assignmentWorkspace a \<noteq> None \<and> GET now s (fence_key a) = Some (Txt (assignmentId a))
      then DEL (fence_key a) s else s)"

text \<open>\<^verbatim>\<open>lease\<close>: a slot must have been negotiated by the registered incarnation.\<close>

definition lease_slot_refused :: "store_config \<Rightarrow> jstr \<Rightarrow> nat option \<Rightarrow> registration option \<Rightarrow> bool" where
  "lease_slot_refused cfg inc slot reg =
     (case slot of None \<Rightarrow> False
      | Some n \<Rightarrow>
          (case reg of None \<Rightarrow> True
           | Some r \<Rightarrow> int n \<ge> maxWorkspaceLeaseSlots cfg \<or> int n \<ge> lease_slots r \<or> lease_slots r \<le> 1
               \<or> r_incarnationId r \<noteq> inc))"

text \<open>What the worker receives: the stored assignment without its private fields, with the time left.\<close>

record wire_assignment =
  wa_assignmentId :: jstr
  wa_workerId :: jstr
  wa_incarnationId :: jstr
  wa_workspaceLeaseSlot :: "nat option"
  wa_generation :: int
  wa_leaseToken :: jstr
  wa_expiresAt :: int
  wa_runtimeSessionId :: "jstr option"
  wa_executionKind :: "execution_kind option"
  wa_workspaceId :: "jstr option"
  wa_request :: json
  wa_remainingMs :: int

definition to_wire :: "int \<Rightarrow> assignment \<Rightarrow> wire_assignment" where
  "to_wire dateNow a = \<lparr>wa_assignmentId = assignmentId a, wa_workerId = workerId a, wa_incarnationId = incarnationId a,
     wa_workspaceLeaseSlot = workspaceLeaseSlot a, wa_generation = generation a, wa_leaseToken = leaseToken a,
     wa_expiresAt = expiresAt a, wa_runtimeSessionId = runtimeSessionId a, wa_executionKind = executionKind a,
     wa_workspaceId = asgWorkspaceId a, wa_request = request a, wa_remainingMs = max 0 (expiresAt a - dateNow)\<rparr>"

datatype lease_action =
    DiscardClaim
  | ReturnLease
  | LeaseFenced
  | Expired
  | Deliver wire_assignment

text \<open>What one turn of the loop does with a claimed id, from the assignment and the registration it
  read. \<open>early\<close> and \<open>late\<close> say whether the caller's signal is aborted at the first and at the second
  test of the turn.\<close>

definition lease_decide :: "jstr \<Rightarrow> jstr \<Rightarrow> jstr option \<Rightarrow> nat option \<Rightarrow> assignment option \<Rightarrow> registration option
    \<Rightarrow> bool \<Rightarrow> bool \<Rightarrow> int \<Rightarrow> lease_action" where
  "lease_decide w inc identityId slot asg reg early late dateNow =
     (case asg of None \<Rightarrow> DiscardClaim
      | Some a \<Rightarrow>
          if workerId a \<noteq> w \<or> incarnationId a \<noteq> inc \<or> workspaceLeaseSlot a \<noteq> slot then DiscardClaim
          else if early then ReturnLease
          else if map_option r_incarnationId reg \<noteq> Some inc then LeaseFenced
          else if workerIdentityId a \<noteq> identityId then DiscardClaim
          else if expiresAt a \<le> dateNow then Expired
          else if late then ReturnLease
          else Deliver (to_wire dateNow a))"

text \<open>One turn of the loop. A fenced lease throws, and the handler gives the claim back first.\<close>

definition lease_turn :: "int \<Rightarrow> int \<Rightarrow> jstr \<Rightarrow> jstr \<Rightarrow> jstr option \<Rightarrow> nat option \<Rightarrow> bool \<Rightarrow> bool \<Rightarrow> bstore
    \<Rightarrow> (bridge_error, wire_assignment option) result \<times> bstore" where
  "lease_turn now dateNow w inc identityId slot early late s =
     (case claimOrPopLease now w inc identityId slot s of
        (None, s1) \<Rightarrow> (Ok None, s1)
      | (Some aid, s1) \<Rightarrow>
          (case lease_decide w inc identityId slot (readAssignment now aid s1) (registration_at now w s1)
                  early late dateNow of
             DiscardClaim \<Rightarrow> (Ok None, discardLeaseClaim now w inc aid slot s1)
           | ReturnLease \<Rightarrow> (Ok None, returnLeaseById now w inc aid slot s1)
           | LeaseFenced \<Rightarrow>
               (if late then Ok None else Err (StoreError WORKER_FENCED), returnLeaseById now w inc aid slot s1)
           | Expired \<Rightarrow>
               (Ok None, discardLeaseClaim now w inc aid slot
                  (if GET now s1 (LeaseAckKey w inc slot) = Some (Txt aid) then s1
                   else case readAssignment now aid s1 of None \<Rightarrow> s1
                        | Some a \<Rightarrow> clearUndeliveredWorkspaceFence now a s1))
           | Deliver d \<Rightarrow> (Ok (Some d), s1)))"

text \<open>The loop: the \<open>n\<close>-th turn runs at the clocks and on the store its environment gives it.\<close>

record turn =
  t_now :: int
  t_dateNow :: int
  t_aborted :: bool
  t_early :: bool
  t_late :: bool
  t_others :: "bstore \<Rightarrow> bstore"

fun lease_loop :: "int \<Rightarrow> jstr \<Rightarrow> jstr \<Rightarrow> jstr option \<Rightarrow> nat option \<Rightarrow> bool \<Rightarrow> turn list \<Rightarrow> bstore
    \<Rightarrow> (bridge_error, wire_assignment option) result \<times> bstore" where
  "lease_loop deadline w inc identityId slot firstPoll [] s = (Ok None, s)"
| "lease_loop deadline w inc identityId slot firstPoll (t # ts) s =
     (if t_aborted t \<or> \<not> firstPoll \<and> t_dateNow t \<ge> deadline then (Ok None, s)
      else case lease_turn (t_now t) (t_dateNow t) w inc identityId slot (t_early t) (t_late t) (t_others t s) of
             (Ok None, s') \<Rightarrow>
               if t_early t \<or> t_late t then (Ok None, s') else lease_loop deadline w inc identityId slot False ts s'
           | r \<Rightarrow> r)"

definition lease :: "store_config \<Rightarrow> int \<Rightarrow> int \<Rightarrow> jstr \<Rightarrow> jstr \<Rightarrow> int \<Rightarrow> jstr option \<Rightarrow> nat option \<Rightarrow> turn list \<Rightarrow> bstore
    \<Rightarrow> (bridge_error, wire_assignment option) result \<times> bstore" where
  "lease cfg now dateNow w inc waitMs identityId slot ts s =
     (if lease_slot_refused cfg inc slot (registration_at now w s) then (Err (StoreError WORKER_MISMATCH), s)
      else lease_loop (dateNow + waitMs) w inc identityId slot True ts s)"

definition acknowledge_refused :: "jstr \<Rightarrow> jstr \<Rightarrow> int \<Rightarrow> jstr \<Rightarrow> assignment option \<Rightarrow> registration option \<Rightarrow> bool" where
  "acknowledge_refused w inc gen token asg reg =
     (case asg of None \<Rightarrow> True
      | Some a \<Rightarrow> workerId a \<noteq> w \<or> incarnationId a \<noteq> inc \<or> map_option r_incarnationId reg \<noteq> Some inc
          \<or> generation a \<noteq> gen \<or> tokenHash token \<noteq> leaseTokenHash a)"

definition ack_script :: "int \<Rightarrow> int \<Rightarrow> jstr \<Rightarrow> jstr \<Rightarrow> nat option \<Rightarrow> jstr \<Rightarrow> bstore \<Rightarrow> bool \<times> bstore" where
  "ack_script now ttlSeconds w inc slot aid s =
     (if GET now s (LeaseClaimKey w inc slot) \<noteq> Some (Txt aid) then (False, s)
      else (True, SETEX now ttlSeconds (LeaseAckKey w inc slot) (Txt aid) s))"

definition acknowledgeLease :: "int \<Rightarrow> int \<Rightarrow> jstr \<Rightarrow> jstr \<Rightarrow> jstr \<Rightarrow> int \<Rightarrow> jstr \<Rightarrow> bstore
    \<Rightarrow> (bridge_error, unit) result \<times> bstore" where
  "acknowledgeLease now dateNow w inc aid gen token s =
     (let asg = readAssignment now aid s in
      if acknowledge_refused w inc gen token asg (registration_at now w s) then (Err (StoreError ASSIGNMENT_FENCED), s)
      else case asg of None \<Rightarrow> (Err (StoreError ASSIGNMENT_FENCED), s)
        | Some a \<Rightarrow>
            (case ack_script now (assignmentTtlSeconds dateNow (expiresAt a)) w inc (workspaceLeaseSlot a) aid s of
               (False, s1) \<Rightarrow> (Err (StoreError ASSIGNMENT_FENCED), s1)
             | (True, s1) \<Rightarrow> (Ok (), s1)))"

definition cancelled :: "int \<Rightarrow> jstr \<Rightarrow> jstr \<Rightarrow> jstr \<Rightarrow> bstore \<Rightarrow> bool" where
  "cancelled now w inc aid s =
     (case readAssignment now aid s of None \<Rightarrow> True
      | Some a \<Rightarrow>
          if workerId a \<noteq> w \<or> incarnationId a \<noteq> inc \<or> map_option r_incarnationId (registration_at now w s) \<noteq> Some inc
          then True else EXISTS now s (CancellationKey aid))"

section \<open>Settlement\<close>

definition hasLaneGit :: "json \<Rightarrow> bool" where
  "hasLaneGit r \<longleftrightarrow> is_object r \<and> fld r ''laneGit'' \<noteq> None"

fun drop_field :: "jstr \<Rightarrow> json \<Rightarrow> json" where
  "drop_field k (JObj fs) = JObj (filter (\<lambda>p. fst p \<noteq> k) fs)"
| "drop_field k j = j"

definition withoutLaneGit :: "settlement \<Rightarrow> settlement" where
  "withoutLaneGit x = (case st_outcome x of Rejected _ _ \<Rightarrow> x
     | Fulfilled r \<Rightarrow> x\<lparr>st_outcome := Fulfilled (drop_field (js ''laneGit'') r)\<rparr>)"

datatype drop_reason = Disabled | NotAdvertised | Invalid

definition laneGitPolicy :: "host \<Rightarrow> json \<Rightarrow> bool \<Rightarrow> bool \<Rightarrow> json \<times> drop_reason option" where
  "laneGitPolicy H r enabled advertised =
     (let reason = (if \<not> enabled then Some Disabled else if \<not> advertised then Some NotAdvertised
                    else if (case fld r ''laneGit'' of None \<Rightarrow> False | Some v \<Rightarrow> isWorkspaceLaneGit H v) then None else Some Invalid)
      in case reason of None \<Rightarrow> (r, None) | Some x \<Rightarrow> (drop_field (js ''laneGit'') r, Some x))"

definition advertises_lane_git :: "registration option \<Rightarrow> bool" where
  "advertises_lane_git reg =
     (case reg of None \<Rightarrow> False
      | Some r \<Rightarrow> arr_includes (chain (fld (r_capabilities r) ''workspaceTools'') ''commandResultFeatures'') (JStr (js ''lane_git'')))"

definition sanitizeLaneGit :: "host \<Rightarrow> store_config \<Rightarrow> settlement \<Rightarrow> assignment \<Rightarrow> registration option \<Rightarrow> settlement" where
  "sanitizeLaneGit H cfg x a reg =
     (case st_outcome x of Rejected _ _ \<Rightarrow> x
      | Fulfilled r \<Rightarrow>
          if \<not> hasLaneGit r \<or> executionKind a \<noteq> Some WorkspaceTool \<or> \<not> is_lit (fld (request a) ''operation'') ''execute_command''
          then x
          else if snd (laneGitPolicy H r (laneGitEnabled cfg) (advertises_lane_git reg)) = None then x
          else withoutLaneGit x)"

definition carries_lane_git :: "settlement \<Rightarrow> bool" where
  "carries_lane_git x = (case st_outcome x of Fulfilled r \<Rightarrow> hasLaneGit r | Rejected _ _ \<Rightarrow> False)"

text \<open>The decision before the script, from the settlement, the assignment and the registration read:
  an error, nothing left to do, or the settlement to commit.\<close>

definition settle_decide :: "host \<Rightarrow> store_config \<Rightarrow> int \<Rightarrow> jstr \<Rightarrow> settlement \<Rightarrow> jstr option
    \<Rightarrow> settlement option \<Rightarrow> assignment option \<Rightarrow> registration option
    \<Rightarrow> (bridge_error, (assignment \<times> settlement) option) result" where
  "settle_decide H cfg dateNow w x0 identityId existing asg reg =
     (let x = (if existing \<noteq> None \<and> existing \<noteq> Some x0 \<and> carries_lane_git x0 \<and> existing = Some (withoutLaneGit x0)
               then withoutLaneGit x0 else x0)
      in if existing \<noteq> None \<and> existing \<noteq> Some x then Err (StoreError ASSIGNMENT_FENCED)
         else if existing = Some x
              \<and> ((case asg of None \<Rightarrow> True | Some a \<Rightarrow> workspaceLeaseSlot a = None) \<or> \<not> is_rejected x) then Ok None
         else case asg of
                None \<Rightarrow> Err (StoreError ASSIGNMENT_NOT_FOUND)
              | Some a \<Rightarrow>
                  if workerId a \<noteq> w then Err (StoreError WORKER_MISMATCH)
                  else if st_incarnationId x \<noteq> incarnationId a \<or> map_option r_incarnationId reg \<noteq> Some (st_incarnationId x)
                     \<or> st_generation x \<noteq> generation a \<or> tokenHash (st_leaseToken x) \<noteq> leaseTokenHash a
                     \<or> workerIdentityId a \<noteq> identityId then Err (StoreError ASSIGNMENT_FENCED)
                  else if \<not> is_rejected x \<and> expiresAt a \<le> dateNow then Err (StoreError ASSIGNMENT_EXPIRED)
                  else Ok (Some (a, sanitizeLaneGit H cfg x a reg)))"

text \<open>The script answers 2 for a repeated settlement, 1 for a new one, and a refusal otherwise.\<close>

datatype settle_reply = Stored | Repeated | Refused store_code

definition settle_script :: "int \<Rightarrow> int \<Rightarrow> jstr \<Rightarrow> jstr \<Rightarrow> assignment \<Rightarrow> settlement \<Rightarrow> jstr option \<Rightarrow> bstore
    \<Rightarrow> settle_reply \<times> bstore" where
  "settle_script now ttlSeconds w aid a x identityId s =
     (let c = LeaseClaimKey w (incarnationId a) (workspaceLeaseSlot a);
          k = LeaseAckKey w (incarnationId a) (workspaceLeaseSlot a);
          hasWorkspace = assignmentWorkspace a \<noteq> None;
          f = workspaceQuarantineKey w (or_empty (assignmentWorkspace a))
      in case GET now s (SettlementKey aid) of
           Some v \<Rightarrow> (if v = Json (JSet x) then Repeated else Refused ASSIGNMENT_FENCED, s)
         | None \<Rightarrow>
             if \<not> EXISTS now s (AssignmentKey aid) then (Refused ASSIGNMENT_EXPIRED, s)
             else if hasWorkspace \<and> GET now s f \<noteq> Some (Txt aid) then (Refused WORKSPACE_QUARANTINED, s)
             else if \<not> is_rejected x \<and> \<not> EXISTS now s (DeadlineKey aid) then (Refused ASSIGNMENT_EXPIRED, s)
             else if \<not> identity_matches now w identityId s then (Refused ASSIGNMENT_FENCED, s)
             else if GET now s (IncarnationKey w) \<noteq> Some (Txt (st_incarnationId x)) then (Refused ASSIGNMENT_FENCED, s)
             else let s1 = SETEX now ttlSeconds (SettlementKey aid) (Json (JSet x)) s;
                      s2 = (if GET now s1 c = Some (Txt aid) then DEL k (DEL c s1) else s1)
                  in (Stored, if hasWorkspace \<and> is_rejected x \<and> workspaceLeaseSlot a = None then DEL f s2 else s2))"

section \<open>Cancellation, commit and cleanup\<close>

definition cancel :: "int \<Rightarrow> int \<Rightarrow> jstr \<Rightarrow> 'a ownership_scheme option \<Rightarrow> bstore \<Rightarrow> bstore" where
  "cancel now dateNow aid a s =
     SETEX now (case a of None \<Rightarrow> 30 | Some o' \<Rightarrow> assignmentTtlSeconds dateNow (expiresAt o')) (CancellationKey aid) (Txt (js ''1'')) s"

text \<open>\<^verbatim>\<open>commitPendingWorkspace\<close>: the result is committed; the fence is released here unless the
  worker still has to confirm its local cleanup.\<close>

definition commit_slot :: "int \<Rightarrow> assignment \<Rightarrow> bstore \<Rightarrow> bool \<times> bstore" where
  "commit_slot now a s =
     (let rk = FenceReceiptKey (assignmentId a); f = workspaceQuarantineKey (workerId a) (or_empty (workspaceFence a)) in
      if \<not> EXISTS now s rk then (False, s)
      else let s1 = HSET now rk (js ''resultCommitted'') (Txt (js ''1'')) s
           in (True, if HGET now s1 rk (js ''localCleanup'') = Some (Txt (js ''1'')) \<and> GET now s1 f = Some (Txt (assignmentId a))
                     then DEL f s1 else s1))"

definition commit_fence :: "int \<Rightarrow> assignment \<Rightarrow> jstr option \<Rightarrow> bstore \<Rightarrow> bool \<times> bstore" where
  "commit_fence now a durableKey s =
     (let f = fence_key a in
      case durableKey of
        None \<Rightarrow> if GET now s f = Some (Txt (assignmentId a)) then (True, DEL f s) else (False, s)
      | Some d \<Rightarrow>
          if EXISTS now s (RequestCommittedKey d (assignmentId a)) then (True, s)
          else if GET now s f = Some (Txt (assignmentId a))
          then (True, SETPX now 86400000 (RequestCommittedKey d (assignmentId a)) (Txt (js ''1'')) (DEL f s))
          else (False, s))"

definition commitPendingWorkspace :: "int \<Rightarrow> assignment \<Rightarrow> settlement \<Rightarrow> jstr option \<Rightarrow> bstore
    \<Rightarrow> (bridge_error, unit) result \<times> bstore" where
  "commitPendingWorkspace now a x durableKey s =
     (if workspaceLeaseSlot a \<noteq> None then
        (case commit_slot now a s of (ok, s1) \<Rightarrow> (if ok then Ok () else Err (StoreError WORKSPACE_QUARANTINED), s1))
      else if assignmentWorkspace a = None \<or> is_rejected x then (Ok (), s)
      else (case commit_fence now a durableKey s of (ok, s1) \<Rightarrow> (if ok then Ok () else Err (StoreError WORKSPACE_QUARANTINED), s1)))"

text \<open>\<^verbatim>\<open>cleanup\<close>: the script forgets the assignment; the lock or slot follows unless work that a
  worker acknowledged still holds its workspace.\<close>

definition release_undelivered :: "int \<Rightarrow> 'a ownership_scheme \<Rightarrow> bool \<Rightarrow> bool \<Rightarrow> bool \<Rightarrow> bstore \<Rightarrow> bstore" where
  "release_undelivered now a queued claimed acknowledged s =
     (let w = workerId a; inc = incarnationId a; slot = workspaceLeaseSlot a; f = fence_key a;
          s1 = (if assignmentWorkspace a \<noteq> None \<and> (queued \<or> claimed \<and> \<not> acknowledged) \<and> GET now s f = Some (Txt (assignmentId a))
                then DEL f s else s)
      in if claimed \<and> \<not> acknowledged then DEL (LeaseAckKey w inc slot) (DEL (LeaseClaimKey w inc slot) s1) else s1)"

definition forget_assignment :: "'a ownership_scheme \<Rightarrow> bool \<Rightarrow> bool \<Rightarrow> bstore \<Rightarrow> bstore" where
  "forget_assignment a claimed acknowledged s =
     (let w = workerId a; inc = incarnationId a; slot = workspaceLeaseSlot a;
          s1 = (if claimed then DEL (LeaseClaimKey w inc slot) s else s);
          s2 = (if acknowledged then DEL (LeaseAckKey w inc slot) s1 else s1)
      in DEL (AssignmentKey (assignmentId a)) s2)"

definition cleanup_script :: "int \<Rightarrow> 'a ownership_scheme \<Rightarrow> bstore \<Rightarrow> bool \<times> bstore" where
  "cleanup_script now a s =
     (let aid = assignmentId a; w = workerId a; inc = incarnationId a; slot = workspaceLeaseSlot a;
          (queued, s1) = LREM now (QueueKey w inc slot) (Txt aid) s;
          claimed = (GET now s1 (LeaseClaimKey w inc slot) = Some (Txt aid));
          acknowledged = (GET now s1 (LeaseAckKey w inc slot) = Some (Txt aid));
          s2 = release_undelivered now a (queued > 0) claimed acknowledged s1;
          held = (GET now s2 (fence_key a) = Some (Txt aid))
      in if slot \<noteq> None \<and> held then (False, s2)
         else if queued = 0 \<and> acknowledged \<and> assignmentWorkspace a \<noteq> None \<and> held then (False, s2)
         else (True, forget_assignment a claimed acknowledged s2))"

definition cleanup :: "int \<Rightarrow> 'a ownership_scheme \<Rightarrow> bstore \<Rightarrow> bstore" where
  "cleanup now a s =
     (case cleanup_script now a s of
        (False, s1) \<Rightarrow> s1
      | (True, s1) \<Rightarrow>
          if workspaceLeaseSlot a = None then releaseLock now (workerId a) (assignmentId a) s1
          else release now (workerId a) (incarnationId a) (assignmentId a) s1)"

definition cleanupDispatch :: "int \<Rightarrow> int \<Rightarrow> jstr \<Rightarrow> jstr \<Rightarrow> 'a ownership_scheme option \<Rightarrow> bstore \<Rightarrow> bstore" where
  "cleanupDispatch now dateNow w aid a s =
     (let s1 = cancel now dateNow aid a s
      in case a of None \<Rightarrow> releaseLock now w aid s1 | Some o' \<Rightarrow> cleanup now o' s1)"

definition cleanupUnassignedSlot :: "int \<Rightarrow> int \<Rightarrow> jstr \<Rightarrow> jstr \<Rightarrow> jstr \<Rightarrow> bstore \<Rightarrow> bstore" where
  "cleanupUnassignedSlot now dateNow w inc aid s =
     release now w inc aid (cleanupDispatch now dateNow w aid (None :: ownership option) s)"

text \<open>\<^verbatim>\<open>settle\<close> without quarantine: a rejected settlement of a slot also finishes the cleanup the
  dispatcher may have given up on.\<close>

definition settle :: "host \<Rightarrow> store_config \<Rightarrow> int \<Rightarrow> int \<Rightarrow> jstr \<Rightarrow> jstr \<Rightarrow> settlement \<Rightarrow> jstr option
    \<Rightarrow> settlement option \<Rightarrow> assignment option \<Rightarrow> registration option \<Rightarrow> bstore
    \<Rightarrow> (bridge_error, unit) result \<times> bstore" where
  "settle H cfg now dateNow w aid x0 identityId existing asg reg s =
     (case settle_decide H cfg dateNow w x0 identityId existing asg reg of
        Err e \<Rightarrow> (Err e, s)
      | Ok None \<Rightarrow> (Ok (), s)
      | Ok (Some (a, x)) \<Rightarrow>
          (case settle_script now (assignmentOutcomeTtlSeconds dateNow a) w aid a x identityId s of
             (Refused c, s1) \<Rightarrow> (Err (StoreError c), s1)
           | (_, s1) \<Rightarrow>
               if workspaceLeaseSlot a \<noteq> None \<and> is_rejected x then
                 (case commitPendingWorkspace now a x None s1 of
                    (Err e, s2) \<Rightarrow> (Err e, s2)
                  | (Ok _, s2) \<Rightarrow> (Ok (), cleanupDispatch now dateNow w aid (Some a) s2))
               else (Ok (), s1)))"

section \<open>Closing an assignment\<close>

text \<open>The script that ends \<^verbatim>\<open>waitForSettlement\<close>: a settlement that won is returned; otherwise the
  deadline, which gates fulfilment, is revoked, and the assignment too unless it still holds its fence.\<close>

definition close_script :: "int \<Rightarrow> assignment \<Rightarrow> bstore \<Rightarrow> settlement option \<times> bstore" where
  "close_script now a s =
     (let aid = assignmentId a in
      case settlement_at now aid s of
        Some x \<Rightarrow> (Some x, s)
      | None \<Rightarrow>
          let s1 = DEL (DeadlineKey aid) s
          in (None, if assignmentWorkspace a \<noteq> None \<and> GET now s1 (fence_key a) = Some (Txt aid) then s1
                    else DEL (AssignmentKey aid) s1))"

definition cancels_first :: "host \<Rightarrow> assignment \<Rightarrow> bool \<Rightarrow> bool" where
  "cancels_first H a aborted \<longleftrightarrow>
     (let tool = (executionKind a = Some WorkspaceTool \<and> isWorkspaceToolRequest H (request a)) in
      aborted \<and> (executionKind a = Some WorkspaceProgrammatic \<or> tool \<and> isWorkspaceMutation (request a))
      \<or> aborted \<and> durableRequestKey a \<noteq> None \<and> tool)"

text \<open>\<^verbatim>\<open>waitForSettlement\<close>: poll until the deadline or the caller's abort, at the instants and on
  the stores the environment gives; stop cancelled workspace work first and poll through its grace; then
  close. \<open>pollFailed\<close>: a poll was rejected and the assignment is still within its time at the end.\<close>

fun poll_settlement :: "jstr \<Rightarrow> turn list \<Rightarrow> bstore \<Rightarrow> settlement option \<times> bstore" where
  "poll_settlement aid [] s = (None, s)"
| "poll_settlement aid (t # ts) s =
     (case settlement_at (t_now t) aid (t_others t s) of
        Some x \<Rightarrow> (Some x, t_others t s)
      | None \<Rightarrow> poll_settlement aid ts (t_others t s))"

definition waitForSettlement :: "host \<Rightarrow> int \<Rightarrow> int \<Rightarrow> assignment \<Rightarrow> bool \<Rightarrow> bool \<Rightarrow> turn list \<Rightarrow> turn list \<Rightarrow> bstore
    \<Rightarrow> (bridge_error, settlement) result \<times> bstore" where
  "waitForSettlement H now dateNow a aborted pollFailed polls grace s =
     (case poll_settlement (assignmentId a) polls s of
        (Some x, s1) \<Rightarrow> (Ok x, s1)
      | (None, s1) \<Rightarrow>
          (case (if cancels_first H a aborted
                 then poll_settlement (assignmentId a) grace (cancel now dateNow (assignmentId a) (Some a) s1) else (None, s1)) of
             (Some x, s2) \<Rightarrow> (Ok x, s2)
           | (None, s2) \<Rightarrow>
               (case close_script now a s2 of
                  (Some x, s3) \<Rightarrow> (Ok x, s3)
                | (None, s3) \<Rightarrow>
                    (Err (if pollFailed \<and> \<not> aborted then PlainError else StoreError ASSIGNMENT_EXPIRED), s3))))"

section \<open>Quarantine\<close>

definition quarantined_by :: "jstr \<Rightarrow> jstr" where
  "quarantined_by aid = js ''quarantined:'' @ aid"

definition quarantine :: "int \<Rightarrow> jstr \<Rightarrow> jstr \<Rightarrow> jstr option \<Rightarrow> bstore \<Rightarrow> bstore" where
  "quarantine now w inc runtimeSession s =
     (let s1 = SET (QuarantineKey w inc) (Txt (js ''1'')) s;
          s2 = (case runtimeSession of None \<Rightarrow> s1 | Some r \<Rightarrow> SET (workspaceQuarantineKey w r) (Txt (js ''1'')) s1)
      in if GET now s2 (IncarnationKey w) = Some (Txt inc) then DEL (IncarnationKey w) (DEL (WorkerKey w) s2) else s2)"

text \<open>A failed finalization of native work marks the fence it still owns; other work quarantines the
  incarnation and its session.\<close>

definition mark_finalization :: "int \<Rightarrow> jstr \<Rightarrow> assignment \<Rightarrow> bstore \<Rightarrow> bstore" where
  "mark_finalization now w a s =
     (case workspaceFence a of
        Some f \<Rightarrow>
          (if GET now s (workspaceQuarantineKey w f) = Some (Txt (assignmentId a))
           then SET (workspaceQuarantineKey w f) (Txt (quarantined_by (assignmentId a))) s else s)
      | None \<Rightarrow> (case assignmentWorkspace a of None \<Rightarrow> s | Some r \<Rightarrow> quarantine now w (incarnationId a) (Some r) s))"

text \<open>\<^verbatim>\<open>quarantineSettledWorkspace\<close>: \<open>receipt\<close> and \<open>epoch\<close> are the fields of the receipt hash the
  method read; \<open>quar\<close> tells a quarantine from the confirmation of a local cleanup.\<close>

definition receipt_refused :: "jstr \<Rightarrow> jstr \<Rightarrow> settlement \<Rightarrow> jstr option \<Rightarrow> ownership \<Rightarrow> bool" where
  "receipt_refused w aid x identityId o' \<longleftrightarrow>
     workerId o' \<noteq> w \<or> assignmentId o' \<noteq> aid \<or> workspaceFence o' = None \<or> workspaceLeaseSlot o' = None
     \<or> \<not> is_rejected x \<or> incarnationId o' \<noteq> st_incarnationId x \<or> generation o' \<noteq> st_generation x
     \<or> leaseTokenHash o' \<noteq> tokenHash (st_leaseToken x) \<or> workerIdentityId o' \<noteq> identityId"

definition receipt_current :: "int \<Rightarrow> jstr \<Rightarrow> jstr option \<Rightarrow> ownership \<Rightarrow> bjson sval option \<Rightarrow> bstore \<Rightarrow> bool" where
  "receipt_current now w identityId o' epoch s \<longleftrightarrow>
     (let rk = FenceReceiptKey (assignmentId o') in
      HGET now s rk (js ''metadata'') = Some (Json (JOwn o')) \<and> HGET now s rk (js ''epoch'') = epoch
      \<and> GET now s (IncarnationKey w) = Some (Txt (incarnationId o'))
      \<and> (case GET now s (StableIdentityKey w) of None \<Rightarrow> Txt [] | Some v \<Rightarrow> v) = Txt (or_empty identityId)
      \<and> Some (case GET now s (workspaceEpochKey w (or_empty (workspaceFence o'))) of None \<Rightarrow> NumV 0 | Some v \<Rightarrow> v) = epoch)"

definition drop_lease :: "int \<Rightarrow> jstr \<Rightarrow> ownership \<Rightarrow> bstore \<Rightarrow> bstore" where
  "drop_lease now w o' s =
     (let c = LeaseClaimKey w (incarnationId o') (workspaceLeaseSlot o'); k = LeaseAckKey w (incarnationId o') (workspaceLeaseSlot o');
          v = Some (Txt (assignmentId o'));
          s1 = (if GET now s c = v then DEL c s else s)
      in if GET now s1 k = v then DEL k s1 else s1)"

definition is_quarantine_mark :: "bjson sval option \<Rightarrow> bool" where
  "is_quarantine_mark v = (case v of Some (Txt t) \<Rightarrow> startsWith t (js ''quarantined:'') | _ \<Rightarrow> False)"

definition receipt_script :: "int \<Rightarrow> int \<Rightarrow> jstr \<Rightarrow> settlement \<Rightarrow> jstr option \<Rightarrow> bool \<Rightarrow> ownership \<Rightarrow> bjson sval option
    \<Rightarrow> bstore \<Rightarrow> bool \<times> bstore" where
  "receipt_script now ttlSeconds w x identityId quar o' epoch s =
     (let aid = assignmentId o'; rk = FenceReceiptKey aid; f = workspaceQuarantineKey w (or_empty (workspaceFence o'));
          committed = (HGET now s rk (js ''resultCommitted'') = Some (Txt (js ''1'')))
      in if \<not> receipt_current now w identityId o' epoch s then (False, s)
         else if quar then
           (if HGET now s rk (js ''localCleanup'') = Some (Txt (js ''1'')) \<and> committed then (True, s)
            else let s1 = SET f (Txt (quarantined_by aid)) s;
                     s2 = (if EXISTS now s1 (SettlementKey aid) then s1
                           else SETEX now ttlSeconds (SettlementKey aid) (Json (JSet x)) s1)
                 in (True, drop_lease now w o' s2))
         else if is_quarantine_mark (GET now s f) then (False, s)
         else let s1 = HSET now rk (js ''localCleanup'') (Txt (js ''1'')) s;
                  s2 = (if committed \<and> GET now s1 f = Some (Txt aid) then DEL f s1 else s1)
              in (True, drop_lease now w o' s2))"

definition quarantineSettledWorkspace :: "int \<Rightarrow> int \<Rightarrow> jstr \<Rightarrow> jstr \<Rightarrow> settlement \<Rightarrow> jstr option \<Rightarrow> bool
    \<Rightarrow> ownership option \<Rightarrow> bjson sval option \<Rightarrow> bstore \<Rightarrow> (bridge_error, unit) result \<times> bstore" where
  "quarantineSettledWorkspace now dateNow w aid x identityId quar receipt epoch s =
     (case receipt of None \<Rightarrow> (Err (StoreError ASSIGNMENT_FENCED), s)
      | Some o' \<Rightarrow>
          if receipt_refused w aid x identityId o' then (Err (StoreError ASSIGNMENT_FENCED), s)
          else (case receipt_script now (assignmentOutcomeTtlSeconds dateNow o') w x identityId quar o' epoch s of
              (False, s1) \<Rightarrow> (Err (StoreError ASSIGNMENT_FENCED), s1)
            | (True, s1) \<Rightarrow> (Ok (), cleanupDispatch now dateNow w aid (Some o') s1)))"

definition confirmWorkspaceCleanup :: "int \<Rightarrow> int \<Rightarrow> jstr \<Rightarrow> jstr \<Rightarrow> settlement \<Rightarrow> jstr option
    \<Rightarrow> ownership option \<Rightarrow> bjson sval option \<Rightarrow> bstore \<Rightarrow> (bridge_error, unit) result \<times> bstore" where
  "confirmWorkspaceCleanup now dateNow w aid intent identityId receipt epoch s =
     quarantineSettledWorkspace now dateNow w aid intent identityId False receipt epoch s"

text \<open>\<^verbatim>\<open>settle\<close> with its \<^verbatim>\<open>quarantineWorkspace\<close> argument.\<close>

definition settle_or_quarantine :: "host \<Rightarrow> store_config \<Rightarrow> int \<Rightarrow> int \<Rightarrow> jstr \<Rightarrow> jstr \<Rightarrow> settlement \<Rightarrow> jstr option \<Rightarrow> bool
    \<Rightarrow> bstore \<Rightarrow> (bridge_error, unit) result \<times> bstore" where
  "settle_or_quarantine H cfg now dateNow w aid x identityId quarantineWorkspace s =
     (let rk = FenceReceiptKey aid;
          receipt = (case HGET now s rk (js ''metadata'') of Some (Json (JOwn r)) \<Rightarrow> Some r | _ \<Rightarrow> None)
      in if quarantineWorkspace
         then quarantineSettledWorkspace now dateNow w aid x identityId True receipt (HGET now s rk (js ''epoch'')) s
         else settle H cfg now dateNow w aid x identityId (settlement_at now aid s) (readAssignment now aid s)
                (registration_at now w s) s)"

definition resetWorkspace :: "int \<Rightarrow> jstr \<Rightarrow> jstr \<Rightarrow> jstr \<Rightarrow> bstore \<Rightarrow> (bridge_error, unit) result \<times> bstore" where
  "resetWorkspace now w inc runtimeSession s =
     (if GET now s (IncarnationKey w) \<noteq> Some (Txt inc) then (Err (StoreError WORKER_FENCED), s)
      else if EXISTS now s (LockKey w) then (Err (StoreError WORKER_BUSY), s)
      else let s1 = DEL (workspaceQuarantineKey w runtimeSession) s; ek = workspaceEpochKey w runtimeSession
           in (Ok (), if EXISTS now s1 ek then snd (INCR now ek s1) else s1))"

end
