(* ===== verification/Lifecycle.thy ===== *)
theory Lifecycle
  imports Assignments
begin

text \<open>
  The store under every interleaving. The steps are the atomic scripts of \<^verbatim>\<open>store.ts\<close> and
  \<^verbatim>\<open>slots.ts\<close> that touch the settlement, the deadline, the fence, the epoch and the receipt of
  an assignment or the lock of a worker; every other script leaves these keys alone. A label tells the
  steps a property restricts: an enqueue, a reset, the release of a lock.
\<close>

section \<open>Steps\<close>

fun watched :: "bkey \<Rightarrow> bool" where
  "watched (SettlementKey _) = True"
| "watched (DeadlineKey _) = True"
| "watched (WsQuarantineKey _ _) = True"
| "watched (WsEpochKey _ _) = True"
| "watched (FenceReceiptKey _) = True"
| "watched (LockKey _) = True"
| "watched _ = False"

text \<open>Assignment ids are base64url strings of 24 characters, with a prefix for durable requests.\<close>

definition assignment_id :: "jstr \<Rightarrow> bool" where
  "assignment_id aid \<longleftrightarrow> 24 \<le> length aid \<and> 58 \<notin> set aid"

datatype event = Enqueue jstr | Reset jstr jstr | Acquire jstr jstr | Unlock jstr jstr | Other

inductive script :: "event \<Rightarrow> int \<Rightarrow> bstore \<Rightarrow> bstore \<Rightarrow> bool" where
  acquires: "assignment_id aid \<Longrightarrow> script (Acquire w aid) now s (snd (acquireLock now w aid inc ttl reuse g s))"
| releases: "script (Unlock w aid) now s (releaseLock now w aid s)"
| reserves: "script Other now s (snd (reserve now dateNow ra s))"
| frees: "script Other now s (release now w inc aid s)"
| enqueues: "assignment_id (assignmentId a) \<Longrightarrow>
    script (Enqueue (assignmentId a)) now s
      (snd (enqueueForActiveIncarnation now dateNow a (assignmentTtlSeconds dateNow (expiresAt a)) tok g lanes s))"
| clears: "assignment_id (assignmentId a) \<Longrightarrow> script Other now s (clearUndeliveredWorkspaceFence now a s)"
| settles: "assignment_id aid \<Longrightarrow> settle_decide H cfg dateNow w x0 i existing asg reg = Ok (Some (a, x)) \<Longrightarrow>
    script Other now s (snd (settle_script now (assignmentOutcomeTtlSeconds dateNow a) w aid a x i s))"
| commits_slot: "assignment_id (assignmentId a) \<Longrightarrow> script Other now s (snd (commit_slot now a s))"
| commits_fence: "assignment_id (assignmentId a) \<Longrightarrow> script Other now s (snd (commit_fence now a d s))"
| cleans: "assignment_id (assignmentId (a :: ownership)) \<Longrightarrow> script Other now s (snd (cleanup_script now a s))"
| closes: "script Other now s (snd (close_script now a s))"
| quarantines: "script Other now s (quarantine now w inc r s)"
| marks: "assignment_id (assignmentId a) \<Longrightarrow> script Other now s (mark_finalization now w a s)"
| receipts: "assignment_id (assignmentId r) \<Longrightarrow> \<not> receipt_refused w (assignmentId r) x i r \<Longrightarrow>
    script Other now s (snd (receipt_script now (assignmentOutcomeTtlSeconds dateNow r) w x i quar r epoch s))"
| resets: "script (Reset w session) now s (snd (resetWorkspace now w inc session s))"
| others: "(\<And>k. watched k \<Longrightarrow> s' k = s k) \<Longrightarrow> script Other now s s'"

inductive store_step :: "(event \<Rightarrow> bool) \<Rightarrow> int \<times> bstore \<Rightarrow> int \<times> bstore \<Rightarrow> bool" for P where
  "now \<le> now' \<Longrightarrow> P l \<Longrightarrow> script l now' s s' \<Longrightarrow> store_step P (now, s) (now', s')"

inductive_cases store_stepE [elim]: "store_step P c c'"

section \<open>The scripts that leave these keys alone\<close>

lemma watched_register: "watched k \<Longrightarrow> snd (register cfg now reg auth s) k = s k"
proof -
  assume k: "watched k"
  then have ne: "k \<noteq> StableIdentityKey v" "k \<noteq> WorkerKey v" "k \<noteq> IncarnationKey v" "k \<noteq> SlotCapacityKey v" "k \<noteq> ReadyKey v"
    "k \<noteq> RegGenerationKey v" "k \<noteq> RegGenerationIncarnationKey v" "k \<noteq> IncarnationFenceKey v i" for v i by auto
  have f: "fence_current now r s1 k = s1 k" for r s1
    using ne by (simp add: fence_current_def redis_frame split: option.splits sval.splits)
  obtain r s' where r: "register cfg now reg auth s = (r, s')" by fastforce
  then have "s' k = s k"
  proof (cases rule: register_cases)
    case (committed reg' s1 g)
    have "s' k = s1 k" using committed(7) ne f
      by (auto simp: register_commit_def take_generation_def INCR_def Let_def redis_frame split: prod.splits if_splits)
    then show ?thesis using committed(5) ne by simp
  qed (use ne in auto)
  then show ?thesis using r by simp
qed

lemma watched_confirm: "watched k \<Longrightarrow> snd (confirmReady cfg now w inc g s) k = s k"
  by (cases k) (auto simp: confirmReady_def redis_frame)

lemma watched_claim: "watched k \<Longrightarrow> snd (claimOrPopLease now w inc i slot s) k = s k"
proof (cases "LPOP now (QueueKey w inc slot) s")
  case (Pair a b)
  assume "watched k"
  then have ne: "k \<noteq> QueueKey w inc slot" "k \<noteq> LeaseClaimKey w inc slot" by auto
  have "b k = s k" using write_other(11) [OF ne(1), of now s] Pair by simp
  then show ?thesis using ne Pair by (auto simp: claimOrPopLease_def Let_def redis_frame split: option.splits sval.splits)
qed

lemma watched_leases:
  assumes "watched k"
  shows "discardLeaseClaim now w inc aid slot s k = s k" "returnLeaseById now w inc aid slot s k = s k"
    "snd (ack_script now ttl w inc slot aid s) k = s k" "cancel now dateNow aid a s k = s k"
  using assms by (cases k; auto simp: discardLeaseClaim_def returnLeaseById_def ack_script_def cancel_def Let_def redis_frame)+

lemma watched_admission:
  assumes "watched k"
  shows "drop_expired now w dateNow s k = s k" "snd (enter now dateNow w i d ws s) k = s k"
    "snd (isHead now dateNow w i s) k = s k" "leave now w i s k = s k"
proof -
  have ne: "k \<noteq> AdmissionKey w" "k \<noteq> AdmissionDeadlinesKey w" "k \<noteq> AdmissionSequenceKey w" "k \<noteq> AdmissionWorkspacesKey w"
    using assms by auto
  show d: "drop_expired now w dateNow s k = s k" using ne by (simp add: drop_expired_frame)
  show "leave now w i s k = s k" using ne by (simp add: leave_def forget_frame)
  show "snd (isHead now dateNow w i s) k = s k" using d by (simp add: isHead_def Let_def)
  show "snd (enter now dateNow w i d ws s) k = s k"
    using d ne by (simp add: enter_def push_admission_def touch_admission_def INCR_def Let_def redis_frame split: option.splits)
qed

text \<open>Reservations touch the lock only.\<close>

lemma watched_slots:
  assumes "watched k" "\<And>v. k \<noteq> LockKey v"
  shows "snd (reserve now dateNow ra s) k = s k" "release now w inc aid s k = s k"
proof -
  have ne: "k \<noteq> SlotsKey v" "k \<noteq> LockIncarnationKey v" for v using assms(1) by auto
  have refresh: "refresh_slot now dateNow ra n t k = t k" for n t
    using ne assms(2) by (simp add: refresh_slot_def Let_def extend_expiry_def redis_frame)
  have scan: "snd (scan_slots now dateNow ra slots st t) k = t k" for slots st t
    by (induction slots arbitrary: st t) (simp_all add: Let_def refresh clear_slot_frame ne)
  have pick: "snd (reserve_pick now dateNow ra st t) k = t k" for st t
    using ne assms watched_admission(1) [OF assms(1)]
    by (auto simp: reserve_pick_def write_slot_def Let_def redis_frame split: option.splits)
  have "snd (reserve_script now dateNow ra s) k = s k"
    using scan [of "[0..<MAX_WORKSPACE_LEASE_SLOTS]" "empty_scan ra" s] pick
    by (auto simp: reserve_script_def split: option.splits prod.splits sum.splits)
  then show "snd (reserve now dateNow ra s) k = s k"
    by (auto simp: reserve_def split: prod.splits reserve_reply.splits)
  show "release now w inc aid s k = s k"
    using ne assms(2) release_scan_frame [of k w now inc aid "[0..<MAX_WORKSPACE_LEASE_SLOTS]" 0 s]
    by (auto simp: release_def Let_def redis_frame split: prod.splits)
qed

lemma fold_SREM_other: "k \<noteq> q \<Longrightarrow> fold (SREM now q) ks s k = s k"
  by (induction ks arbitrary: s) (simp_all add: redis_frame)

lemma fence_key_neq [simp]:
  "fence_key a \<noteq> SettlementKey i" "fence_key a \<noteq> DeadlineKey i" "fence_key a \<noteq> WsEpochKey w d" "fence_key a \<noteq> FenceReceiptKey i"
  "fence_key a \<noteq> LockKey w" "fence_key a \<noteq> QueueKey w inc n" "fence_key a \<noteq> LeaseClaimKey w inc n"
  "fence_key a \<noteq> LeaseAckKey w inc n" "fence_key a \<noteq> AssignmentKey i" "fence_key a \<noteq> WsLanesKey w d"
  "fence_key a \<noteq> RequestCommittedKey r i"
  by (simp_all add: fence_key_def workspaceQuarantineKey_def split: option.splits)

lemmas fence_key_neqs [simp] = fence_key_neq [symmetric]

lemmas fence_keys = workspaceQuarantineKey_def workspaceEpochKey_def workspaceLaneFenceIndexKey_def

text \<open>Reading a cell of a conditional store: each branch reads it.\<close>

lemma cond_cell [redis_frame]:
  "(if b then s1 else s2) k = (if b then s1 k else s2 k)" for s1 s2 :: "('k, 'j) redis"
  by simp

lemma option_cell [redis_frame]:
  "(case x of None \<Rightarrow> s1 | Some y \<Rightarrow> s2 y) k = (case x of None \<Rightarrow> s1 k | Some y \<Rightarrow> s2 y k)" for s1 :: "('k, 'j) redis"
  by (simp split: option.split)

lemma option_same [simp]: "(case x of None \<Rightarrow> c | Some y \<Rightarrow> c) = c"
  by (simp split: option.split)

text \<open>What each script does to the settlement and to the deadline of an assignment.\<close>

lemma GET_HSET_other [simp]: "k' \<noteq> k \<Longrightarrow> GET n (HSET now k f v s) k' = GET n s k'"
  by (rule read_cong(2)) (simp add: redis_frame)

lemma put_receipt_cells:
  "k \<noteq> FenceReceiptKey (assignmentId a) \<Longrightarrow> (\<And>w d. k \<noteq> WsEpochKey w d) \<Longrightarrow> put_receipt now a ttl s k = s k"
  by (simp add: put_receipt_def fence_keys Let_def redis_frame split: option.split)

lemma enqueue_cells:
  "(\<And>w d. k \<noteq> WsLanesKey w d) \<Longrightarrow> unindex_lanes now a lanes s k = s k"
  "(\<And>w i n. k \<noteq> QueueKey w i n) \<Longrightarrow> (\<And>i. k \<noteq> AssignmentKey i) \<Longrightarrow> queue_assignment now a ttl s k = s k"
  "(\<And>w. k \<noteq> LockIncarnationKey w) \<Longrightarrow> bind_lock now a ttl s k = s k"
  "k \<noteq> DeadlineKey (assignmentId a) \<Longrightarrow> open_deadline a s k = s k"
  "k \<noteq> fence_key a \<Longrightarrow> (\<And>w d. k \<noteq> WsLanesKey w d) \<Longrightarrow> raise_fence now a s k = s k"
  "k \<noteq> FenceReceiptKey (assignmentId a) \<Longrightarrow> (\<And>w d. k \<noteq> WsEpochKey w d) \<Longrightarrow> give_receipt now a ttl s k = s k"
  "(\<And>r. k \<noteq> RequestKey r) \<Longrightarrow> admit_request now a g s k = s k"
  by (simp add: unindex_lanes_def fence_keys fold_SREM_other,
      simp add: queue_assignment_def Let_def redis_frame,
      simp add: bind_lock_def redis_frame,
      simp add: open_deadline_def redis_frame,
      simp add: raise_fence_def Let_def redis_frame fence_keys,
      simp add: give_receipt_def put_receipt_cells,
      cases g, simp_all add: admit_request_def redis_frame)

lemma enqueue_commit_cells:
  "enqueue_commit now a ttl lanes g ottl s (SettlementKey i) = s (SettlementKey i)"
  "enqueue_commit now a ttl lanes g ottl s (LockKey w) = s (LockKey w)"
  "i \<noteq> assignmentId a \<Longrightarrow> enqueue_commit now a ttl lanes g ottl s (DeadlineKey i) = s (DeadlineKey i)"
  "i \<noteq> assignmentId a \<Longrightarrow> enqueue_commit now a ttl lanes g ottl s (FenceReceiptKey i) = s (FenceReceiptKey i)"
  by (simp_all add: enqueue_commit_def enqueue_cells)

lemma snd_enqueue:
  "snd (enqueueForActiveIncarnation now dateNow a ttl tok g lanes s) = s \<or>
   (\<exists>ottl. snd (enqueueForActiveIncarnation now dateNow a ttl tok g lanes s) = enqueue_commit now a ttl lanes g ottl s
     \<and> \<not> enqueue_blocked now a lanes s)"
  by (auto simp: enqueueForActiveIncarnation_def)

lemma drop_lease_cell: "watched k \<Longrightarrow> drop_lease now w r s k = s k"
  by (cases k) (simp_all add: drop_lease_def Let_def redis_frame)

text \<open>Which of the watched keys each script leaves alone.\<close>

lemma script_leaves:
  assumes "watched k"
  shows "(\<And>v. k \<noteq> LockKey v) \<Longrightarrow> snd (acquireLock now w aid inc ttl reuse g s) k = s k"
    "(\<And>v. k \<noteq> LockKey v) \<Longrightarrow> releaseLock now w aid s k = s k"
    "(\<And>v d. k \<noteq> WsQuarantineKey v d) \<Longrightarrow> clearUndeliveredWorkspaceFence now b s k = s k"
    "(\<And>v d. k \<noteq> WsQuarantineKey v d) \<Longrightarrow> k \<noteq> SettlementKey aid \<Longrightarrow> snd (settle_script now ttl w aid b x ident s) k = s k"
    "(\<And>v d. k \<noteq> WsQuarantineKey v d) \<Longrightarrow> (\<And>i. k \<noteq> FenceReceiptKey i) \<Longrightarrow> snd (commit_slot now b s) k = s k"
    "(\<And>v d. k \<noteq> WsQuarantineKey v d) \<Longrightarrow> snd (commit_fence now b z s) k = s k"
    "(\<And>i. k \<noteq> DeadlineKey i) \<Longrightarrow> snd (close_script now b s) k = s k"
    "(\<And>v d. k \<noteq> WsQuarantineKey v d) \<Longrightarrow> quarantine now w inc r s k = s k"
    "(\<And>v d. k \<noteq> WsQuarantineKey v d) \<Longrightarrow> mark_finalization now w b s k = s k"
    "(\<And>v d. k \<noteq> WsQuarantineKey v d) \<Longrightarrow> (\<And>i. k \<noteq> FenceReceiptKey i) \<Longrightarrow> (\<And>i. k \<noteq> SettlementKey i) \<Longrightarrow>
       snd (receipt_script now ttl w x ident quar o' epoch s) k = s k"
    "(\<And>v d. k \<noteq> WsQuarantineKey v d) \<Longrightarrow> (\<And>v d. k \<noteq> WsEpochKey v d) \<Longrightarrow> snd (resetWorkspace now w inc q s) k = s k"
proof -
  have ne: "k \<noteq> LockIncarnationKey v" "k \<noteq> LeaseClaimKey v inc' n" "k \<noteq> LeaseAckKey v inc' n" "k \<noteq> AssignmentKey i"
    "k \<noteq> RequestCommittedKey i j" "k \<noteq> QuarantineKey v i" "k \<noteq> IncarnationKey v" "k \<noteq> WorkerKey v" "k \<noteq> NoWorkspaceKey i"
    for v inc' n i j using assms by auto
  have f: "k \<noteq> fence_key b" if "\<And>v d. k \<noteq> WsQuarantineKey v d" for b :: assignment
    using that ne by (simp add: fence_key_def fence_keys split: option.splits)
  show "snd (acquireLock now w aid inc ttl reuse g s) k = s k" if "\<And>v. k \<noteq> LockKey v"
    using that ne by (simp add: acquireLock_def redis_frame)
  show "releaseLock now w aid s k = s k" if "\<And>v. k \<noteq> LockKey v" using that ne by (simp add: releaseLock_def redis_frame)
  show "clearUndeliveredWorkspaceFence now b s k = s k" if "\<And>v d. k \<noteq> WsQuarantineKey v d"
    using f [OF that] by (simp add: clearUndeliveredWorkspaceFence_def redis_frame)
  show "snd (settle_script now ttl w aid b x ident s) k = s k" if "\<And>v d. k \<noteq> WsQuarantineKey v d" "k \<noteq> SettlementKey aid"
    using that ne by (simp add: settle_script_def Let_def redis_frame fence_keys split: option.split)
  show "snd (commit_slot now b s) k = s k" if "\<And>v d. k \<noteq> WsQuarantineKey v d" "\<And>i. k \<noteq> FenceReceiptKey i"
    using that by (simp add: commit_slot_def Let_def redis_frame fence_keys)
  show "snd (commit_fence now b z s) k = s k" if "\<And>v d. k \<noteq> WsQuarantineKey v d"
    using f [OF that] ne by (simp add: commit_fence_def Let_def redis_frame split: option.split)
  show "snd (close_script now b s) k = s k" if "\<And>i. k \<noteq> DeadlineKey i"
    using that ne by (simp add: close_script_def Let_def redis_frame split: option.split)
  show q: "quarantine now w inc r s k = s k" if "\<And>v d. k \<noteq> WsQuarantineKey v d" for w inc r
    using that ne by (simp add: quarantine_def Let_def redis_frame fence_keys split: option.split)
  show "mark_finalization now w b s k = s k" if "\<And>v d. k \<noteq> WsQuarantineKey v d"
    using that q [OF that] by (simp add: mark_finalization_def redis_frame fence_keys split: option.split)
  show "snd (receipt_script now ttl w x ident quar o' epoch s) k = s k"
    if "\<And>v d. k \<noteq> WsQuarantineKey v d" "\<And>i. k \<noteq> FenceReceiptKey i" "\<And>i. k \<noteq> SettlementKey i"
    using that assms by (simp add: receipt_script_def Let_def redis_frame fence_keys drop_lease_cell)
  show "snd (resetWorkspace now w inc q s) k = s k" if "\<And>v d. k \<noteq> WsQuarantineKey v d" "\<And>v d. k \<noteq> WsEpochKey v d"
    using that by (simp add: resetWorkspace_def Let_def redis_frame fence_keys)
qed

text \<open>The settlement: written by \<^verbatim>\<open>settle\<close> and by a quarantine, only where there is none, and
  fulfilled only while the deadline is open.\<close>

definition settled_cell :: "jstr \<Rightarrow> int \<Rightarrow> bstore \<Rightarrow> bstore \<Rightarrow> bool" where
  "settled_cell i now s s' \<longleftrightarrow> s' (SettlementKey i) = s (SettlementKey i) \<or>
     (GET now s (SettlementKey i) = None \<and>
      (\<exists>x t. s' (SettlementKey i) = Some (RStr (Json (JSet x)), Some t) \<and> (is_rejected x \<or> EXISTS now s (DeadlineKey i))))"

lemma settle_script_settled: "settled_cell i now s (snd (settle_script now ttl w aid a x ident s))"
  by (auto simp: settled_cell_def settle_script_def Let_def redis_frame fence_keys SETEX_def SETAT_def split: option.splits)

lemma receipt_script_settled:
  assumes "is_rejected x"
  shows "settled_cell i now s (snd (receipt_script now ttl w x ident quar r epoch s))"
proof -
  have "snd (receipt_script now ttl w x ident quar r epoch s) (SettlementKey i) = s (SettlementKey i) \<or>
    i = assignmentId r \<and> \<not> EXISTS now s (SettlementKey i) \<and>
    snd (receipt_script now ttl w x ident quar r epoch s) (SettlementKey i) = Some (RStr (Json (JSet x)), Some (now + ttl * 1000))"
    by (simp add: receipt_script_def Let_def drop_lease_cell redis_frame redis_simps fence_keys SETEX_def SETAT_def)
  moreover have "\<not> EXISTS now s (SettlementKey i) \<Longrightarrow> GET now s (SettlementKey i) = None"
    using GET_EXISTS by fastforce
  ultimately show ?thesis using assms by (auto simp: settled_cell_def)
qed

text \<open>Cleanup touches the fence only, and only while the fence is this assignment's.\<close>

lemma cleanup_cells:
  assumes "watched k"
  shows "k \<noteq> fence_key a \<Longrightarrow> snd (cleanup_script now a s) k = s k"
    "snd (cleanup_script now a s) k = s k \<or> snd (cleanup_script now a s) k = None \<and> GET now s k = Some (Txt (assignmentId a))"
proof -
  let ?q = "QueueKey (workerId a) (incarnationId a) (workspaceLeaseSlot a)"
  have ne: "k \<noteq> QueueKey w i n" "k \<noteq> LeaseClaimKey w i n" "k \<noteq> LeaseAckKey w i n" "k \<noteq> AssignmentKey j" for w i n j
    using assms by auto
  obtain queued s1 where l: "LREM now ?q (Txt (assignmentId a)) s = (queued, s1)" by fastforce
  have s1: "s1 k = s k" using write_other(12) [OF ne(1), of now _ _ _ "Txt (assignmentId a)" s] l by (metis snd_conv)
  have g: "GET now s1 k = GET now s k" using s1 by (rule read_cong(2))
  have u: "release_undelivered now a x y z t k = t k" if "k \<noteq> fence_key a" for x y z t
    using that ne by (simp add: release_undelivered_def Let_def redis_frame)
  have u': "release_undelivered now a x y z s1 k = s1 k \<or> release_undelivered now a x y z s1 k = None \<and> GET now s k = Some (Txt (assignmentId a))"
    for x y z using ne g by (cases "k = fence_key a") (simp_all add: release_undelivered_def Let_def redis_frame)
  have v: "forget_assignment a y z t k = t k" for y z t using ne by (simp add: forget_assignment_def Let_def redis_frame)
  show "snd (cleanup_script now a s) k = s k" if "k \<noteq> fence_key a" using s1 u [OF that] v by (simp add: cleanup_script_def Let_def l)
  show "snd (cleanup_script now a s) k = s k \<or> snd (cleanup_script now a s) k = None \<and> GET now s k = Some (Txt (assignmentId a))"
    using s1 u' v by (simp add: cleanup_script_def Let_def l)
qed

lemma script_settled:
  assumes "script l now s s'"
  shows "settled_cell i now s s'"
  using assms
proof (cases rule: script.cases)
  case (enqueues a dateNow tok g lanes)
  then show ?thesis using snd_enqueue [of now dateNow a "assignmentTtlSeconds dateNow (expiresAt a)" tok g lanes s]
    by (auto simp: settled_cell_def enqueue_commit_cells)
next
  case (receipts r w x ident dateNow quar epoch)
  then show ?thesis by (simp add: receipt_script_settled receipt_refused_def)
qed (simp_all add: settle_script_settled, simp_all add: settled_cell_def watched_slots script_leaves cleanup_cells(1))

text \<open>The deadline: opened by the enqueue of its assignment only.\<close>

lemma script_deadline:
  assumes "script l now s s'" "l \<noteq> Enqueue i"
  shows "s' (DeadlineKey i) = s (DeadlineKey i) \<or> s' (DeadlineKey i) = None"
  using assms(1)
proof (cases rule: script.cases)
  case (enqueues a dateNow tok g lanes)
  then show ?thesis using snd_enqueue [of now dateNow a "assignmentTtlSeconds dateNow (expiresAt a)" tok g lanes s] assms(2)
    by (auto simp: enqueue_commit_cells)
next
  case (closes a)
  then show ?thesis by (simp add: close_script_def Let_def redis_frame split: option.split)
qed (simp_all add: script_leaves watched_slots cleanup_cells(1))

text \<open>The fence of a workspace: raised where there is none, cleared by the assignment that owns it or by
  a reset, and overwritten by a quarantine mark otherwise.\<close>

definition fence_cell :: "jstr \<Rightarrow> digest \<Rightarrow> event \<Rightarrow> int \<Rightarrow> bstore \<Rightarrow> bstore \<Rightarrow> bool" where
  "fence_cell w d l now s s' \<longleftrightarrow> (let k = WsQuarantineKey w d in
     s' k = s k
     \<or> (s' k = None \<and> (\<exists>aid. assignment_id aid \<and> GET now s k = Some (Txt aid)))
     \<or> (\<exists>m. s' k = Some (RStr (Txt m), None) \<and> (\<not> assignment_id m \<or> \<not> EXISTS now s k))
     \<or> (\<exists>z. l = Reset w z \<and> d = Sha256 z))"

lemma not_id_marks: "\<not> assignment_id (quarantined_by aid)" "\<not> assignment_id (js ''1'')"
  by (simp_all add: assignment_id_def quarantined_by_def js_def)

lemma fence_keyD: "WsQuarantineKey w d = fence_key a \<Longrightarrow> assignmentWorkspace a \<noteq> None"
  by (auto simp: fence_key_def split: option.splits)

lemma enqueue_commit_fence:
  "enqueue_commit now a ttl lanes g ottl s (WsQuarantineKey w d) =
     (if WsQuarantineKey w d = fence_key a then Some (RStr (Txt (assignmentId a)), None) else s (WsQuarantineKey w d))"
proof -
  have "raise_fence now a t (WsQuarantineKey w d) =
      (if WsQuarantineKey w d = fence_key a then Some (RStr (Txt (assignmentId a)), None) else t (WsQuarantineKey w d))" for t
    using fence_keyD [of w d a] by (auto simp: raise_fence_def Let_def redis_frame SET_def fence_keys)
  then show ?thesis by (simp add: enqueue_commit_def enqueue_cells)
qed

lemma quarantine_fence: "fence_cell w d l now s (quarantine now v inc r s)"
  using not_id_marks(2) by (auto simp: fence_cell_def quarantine_def Let_def redis_frame fence_keys SET_def split: option.splits)

lemma script_fence:
  assumes "script l now s s'"
  shows "fence_cell w d l now s s'"
  using assms
proof (cases rule: script.cases)
  case (acquires aid v inc ttl reuse g)
  then show ?thesis by (simp add: fence_cell_def Let_def acquireLock_def redis_frame)
next
  case (releases v aid)
  then show ?thesis by (simp add: fence_cell_def Let_def releaseLock_def redis_frame)
next
  case (enqueues a dateNow tok g lanes)
  have "fence_cell w d l now s (enqueue_commit now a ttl lanes g ottl s)" if "\<not> enqueue_blocked now a lanes s" for ttl ottl
    using that fence_keyD [of w d a] by (auto simp: fence_cell_def Let_def enqueue_commit_fence enqueue_blocked_def)
  note committed = this
  from snd_enqueue [of now dateNow a "assignmentTtlSeconds dateNow (expiresAt a)" tok g lanes s] show ?thesis
  proof (elim disjE exE conjE)
    let ?ttl = "assignmentTtlSeconds dateNow (expiresAt a)"
    fix ottl assume "snd (enqueueForActiveIncarnation now dateNow a ?ttl tok g lanes s) = enqueue_commit now a ?ttl lanes g ottl s"
      "\<not> enqueue_blocked now a lanes s"
    with committed [of ?ttl ottl] enqueues show ?thesis by simp
  qed (use enqueues in \<open>simp add: fence_cell_def Let_def\<close>)
next
  case (clears a)
  then show ?thesis by (auto simp: fence_cell_def Let_def clearUndeliveredWorkspaceFence_def redis_frame)
next
  case (settles aid H cfg dateNow v x0 i existing asg reg a x)
  then show ?thesis by (auto simp: fence_cell_def settle_script_def Let_def redis_frame fence_keys split: option.split)
next
  case (commits_slot a)
  then show ?thesis by (auto simp: fence_cell_def commit_slot_def Let_def redis_frame fence_keys redis_simps)
next
  case (commits_fence a e)
  then show ?thesis by (auto simp: fence_cell_def commit_fence_def Let_def redis_frame split: option.split)
next
  case (cleans a)
  then show ?thesis using cleanup_cells(2) [of "WsQuarantineKey w d" now a s] by (auto simp: fence_cell_def Let_def)
next
  case (closes a)
  then show ?thesis by (simp add: fence_cell_def close_script_def Let_def redis_frame split: option.split)
next
  case (quarantines v inc r)
  then show ?thesis by (simp add: quarantine_fence)
next
  case (marks a v)
  then show ?thesis
    using not_id_marks(1) [of "assignmentId a"]
    by (auto simp: mark_finalization_def quarantine_fence split: option.splits)
       (auto simp: fence_cell_def Let_def redis_frame fence_keys SET_def)
next
  case (receipts r v x ident dateNow quar epoch)
  then show ?thesis using not_id_marks(1) [of "assignmentId r"]
    by (auto simp: fence_cell_def receipt_script_def Let_def redis_frame fence_keys drop_lease_cell SET_def)
next
  case (resets v z inc)
  then show ?thesis by (auto simp: fence_cell_def resetWorkspace_def Let_def redis_frame fence_keys)
qed (simp_all add: fence_cell_def Let_def watched_slots)

text \<open>The lock of a worker: while an assignment holds it, only that assignment changes it.\<close>

lemma slots_owner_not_id: "slots_owner inc = Txt aid \<Longrightarrow> \<not> assignment_id aid"
  by (auto simp: slots_owner_def assignment_id_def js_def)

lemma script_lock:
  assumes "script l now s s'" "l \<noteq> Unlock w aid" "l \<noteq> Acquire w aid" "assignment_id aid"
    and held: "GET now s (LockKey w) = Some (Txt aid)"
  shows "s' (LockKey w) = s (LockKey w)"
  using assms(1)
proof (cases rule: script.cases)
  case (acquires aid' w' inc ttl reuse g)
  show ?thesis
  proof (cases "w' = w")
    case True
    have "EXISTS now s (LockKey w)" using held by (rule GET_EXISTS)
    then show ?thesis using acquires assms(3) held True by (auto simp: acquireLock_def)
  qed (use acquires in \<open>simp add: acquireLock_def redis_frame\<close>)
next
  case (releases w' aid')
  then show ?thesis using assms(2) held by (auto simp: releaseLock_def redis_frame)
next
  case (reserves dateNow ra)
  have foreign: "slots_owner i \<noteq> Txt aid" for i using slots_owner_not_id assms(4) by blast
  show ?thesis
  proof (cases "ra_workerId ra = w")
    case True
    then have "reserve_refusal now ra s \<noteq> None" using held foreign [of "ra_incarnationId ra"] by (auto simp: reserve_refusal_def Let_def)
    then show ?thesis using reserves by (auto simp: reserve_def reserve_script_def split: option.splits reserve_reply.splits)
  next
    case False
    have refresh: "refresh_slot now dateNow ra n t (LockKey w) = t (LockKey w)" for n t
      using False by (simp add: refresh_slot_def Let_def extend_expiry_def redis_frame)
    have scan: "snd (scan_slots now dateNow ra slots st t) (LockKey w) = t (LockKey w)" for slots st t
      by (induction slots arbitrary: st t) (simp_all add: Let_def refresh clear_slot_frame)
    have pick: "snd (reserve_pick now dateNow ra st t) (LockKey w) = t (LockKey w)" for st t
      using False by (auto simp: reserve_pick_def write_slot_def Let_def redis_frame watched_admission(1) split: option.splits)
    have "snd (reserve_script now dateNow ra s) (LockKey w) = s (LockKey w)"
      using scan [of "[0..<MAX_WORKSPACE_LEASE_SLOTS]" "empty_scan ra" s] pick
      by (auto simp: reserve_script_def split: option.splits prod.splits sum.splits)
    then show ?thesis using reserves by (auto simp: reserve_def split: prod.splits reserve_reply.splits)
  qed
next
  case (frees w' inc aid')
  have "slots_owner inc \<noteq> Txt aid" using slots_owner_not_id assms(4) by blast
  moreover have r: "snd (release_scan now w' inc aid' [0..<MAX_WORKSPACE_LEASE_SLOTS] 0 s) (LockKey w) = s (LockKey w)"
    by (simp add: release_scan_frame)
  moreover have "GET now (snd (release_scan now w' inc aid' [0..<MAX_WORKSPACE_LEASE_SLOTS] 0 s)) (LockKey w) = Some (Txt aid)"
    using held read_cong(2) [of "snd (release_scan now w' inc aid' [0..<MAX_WORKSPACE_LEASE_SLOTS] 0 s)" "LockKey w" s now, OF r] by simp
  ultimately show ?thesis using frees by (cases "w' = w") (auto simp: release_def Let_def redis_frame split: prod.splits)
next
  case (enqueues a dateNow tok g lanes)
  then show ?thesis using snd_enqueue [of now dateNow a "assignmentTtlSeconds dateNow (expiresAt a)" tok g lanes s]
    by (auto simp: enqueue_commit_cells)
qed (simp_all add: cleanup_cells(1) script_leaves)

section \<open>Receipts and epochs\<close>

text \<open>The epoch of a workspace lives as long as every receipt that names it, and is at least the epoch of
  each.\<close>

definition receipt_epoch_key :: "ownership \<Rightarrow> bkey" where
  "receipt_epoch_key r = workspaceEpochKey (workerId r) (or_empty (workspaceFence r))"

definition holds_receipt :: "int \<Rightarrow> bstore \<Rightarrow> jstr \<Rightarrow> ownership \<Rightarrow> bjson sval option \<Rightarrow> int option \<Rightarrow> bool" where
  "holds_receipt now s i r g e \<longleftrightarrow> (\<exists>h. s (FenceReceiptKey i) = Some (RHash h, e) \<and> live now e
     \<and> map_of h (js ''metadata'') = Some (Json (JOwn r)) \<and> map_of h (js ''epoch'') = g)"

definition epochs_ok :: "int \<times> bstore \<Rightarrow> bool" where
  "epochs_ok c = (case c of (now, s) \<Rightarrow>
     (\<forall>w d. s (WsEpochKey w d) = None \<or> (\<exists>n t. s (WsEpochKey w d) = Some (RStr (NumV n), Some t)))
     \<and> (\<forall>i r g e. holds_receipt now s i r g e \<longrightarrow>
          (\<exists>tr te n m. e = Some tr \<and> s (receipt_epoch_key r) = Some (RStr (NumV n), Some te) \<and> tr \<le> te \<and> g = Some (NumV m) \<and> m \<le> n)))"

lemma HGET_receipt:
  "HGET now s (FenceReceiptKey i) (js ''metadata'') = Some (Json (JOwn r)) \<Longrightarrow>
   \<exists>e. holds_receipt now s i r (HGET now s (FenceReceiptKey i) (js ''epoch'')) e"
  by (auto simp: HGET_def hash_at_def holds_receipt_def peek_def split: option.splits rval.splits if_splits)

lemma holds_receipt_HSET:
  assumes "holds_receipt now (HSET now (FenceReceiptKey j) f v s) i r g e" "f \<noteq> js ''metadata''" "f \<noteq> js ''epoch''"
  shows "holds_receipt now s i r g e"
proof (cases "i = j")
  case True
  from assms(1) have *: "map_of (AList.update f v (hash_at now s (FenceReceiptKey j))) (js ''metadata'') = Some (Json (JOwn r))"
    "map_of (AList.update f v (hash_at now s (FenceReceiptKey j))) (js ''epoch'') = g"
    "e = expiry_at now s (FenceReceiptKey j)"
    unfolding True by (auto simp: holds_receipt_def HSET_def store_hash_def put_apply split: if_splits)
  then have "map_of (hash_at now s (FenceReceiptKey j)) (js ''metadata'') = Some (Json (JOwn r))"
    "map_of (hash_at now s (FenceReceiptKey j)) (js ''epoch'') = g" using assms(2,3) by (simp_all add: update_conv)
  with *(3) True show ?thesis
    by (auto simp: holds_receipt_def hash_at_def expiry_at_def peek_def split: option.splits rval.splits if_splits)
qed (use assms(1) in \<open>simp add: holds_receipt_def redis_frame\<close>)

lemma holds_receipt_cong: "s' (FenceReceiptKey i) = s (FenceReceiptKey i) \<Longrightarrow> holds_receipt now s' i r g e = holds_receipt now s i r g e"
  by (simp add: holds_receipt_def)

lemma holds_receipt_later: "holds_receipt now' s i r g e \<Longrightarrow> now \<le> now' \<Longrightarrow> holds_receipt now s i r g e"
  by (auto simp: holds_receipt_def intro: live_mono)

text \<open>No script but an enqueue of its assignment makes or changes a receipt.\<close>

lemma script_receipt:
  assumes "script l now s s'" "l \<noteq> Enqueue i" "holds_receipt now s' i r g e"
  shows "holds_receipt now s i r g e"
  using assms(1)
proof (cases rule: script.cases)
  case (enqueues a dateNow tok gd lanes)
  then have "s' (FenceReceiptKey i) = s (FenceReceiptKey i)"
    using snd_enqueue [of now dateNow a "assignmentTtlSeconds dateNow (expiresAt a)" tok gd lanes s] assms(2)
    by (auto simp: enqueue_commit_cells)
  with assms(3) show ?thesis using holds_receipt_cong by blast
next
  case (commits_slot a)
  let ?k = "FenceReceiptKey (assignmentId a)" and ?h = "HSET now (FenceReceiptKey (assignmentId a)) (js ''resultCommitted'') (Txt (js ''1'')) s"
  have "s' (FenceReceiptKey i) = s (FenceReceiptKey i) \<or> s' (FenceReceiptKey i) = ?h (FenceReceiptKey i)"
    using commits_slot by (simp add: commit_slot_def Let_def redis_frame fence_keys)
  then have "holds_receipt now s i r g e \<or> holds_receipt now ?h i r g e" using assms(3) holds_receipt_cong by metis
  then show ?thesis using holds_receipt_HSET by force
next
  case (receipts r' v x ident dateNow quar epoch)
  let ?h = "HSET now (FenceReceiptKey (assignmentId r')) (js ''localCleanup'') (Txt (js ''1'')) s"
  have "s' (FenceReceiptKey i) = s (FenceReceiptKey i) \<or> s' (FenceReceiptKey i) = ?h (FenceReceiptKey i)"
    using receipts by (simp add: receipt_script_def Let_def redis_frame fence_keys drop_lease_cell)
  then have "holds_receipt now s i r g e \<or> holds_receipt now ?h i r g e" using assms(3) holds_receipt_cong by metis
  then show ?thesis using holds_receipt_HSET by force
qed (use assms(3) in \<open>simp_all add: holds_receipt_def cleanup_cells(1) watched_slots script_leaves\<close>)

text \<open>Enqueueing issues a receipt at the current epoch and extends the epoch to outlive it.\<close>

definition epoch_typed :: "bstore \<Rightarrow> bkey \<Rightarrow> bool" where
  "epoch_typed s k \<longleftrightarrow> s k = None \<or> (\<exists>n t. s k = Some (RStr (NumV n), Some t))"

definition epoch_grows :: "int \<Rightarrow> bstore \<Rightarrow> bstore \<Rightarrow> bkey \<Rightarrow> bool" where
  "epoch_grows now s s' k \<longleftrightarrow> epoch_typed s' k \<and>
     (\<forall>n t. s k = Some (RStr (NumV n), Some t) \<and> now \<le> t \<longrightarrow>
        (\<exists>n' t'. s' k = Some (RStr (NumV n'), Some t') \<and> n \<le> n' \<and> t \<le> t'))"

lemma epoch_grows_refl: "s' k = s k \<Longrightarrow> epoch_typed s k \<Longrightarrow> epoch_grows now s s' k"
  by (auto simp: epoch_grows_def epoch_typed_def)

lemma put_receipt_epoch:
  assumes "0 < ttl" "epoch_typed s (workspaceEpochKey (workerId a) (or_empty (workspaceFence a)))"
  shows "\<exists>n t. put_receipt now a ttl s (workspaceEpochKey (workerId a) (or_empty (workspaceFence a))) = Some (RStr (NumV n), Some t)
     \<and> now + ttl * 1000 \<le> t
     \<and> (\<forall>n0 t0. s (workspaceEpochKey (workerId a) (or_empty (workspaceFence a))) = Some (RStr (NumV n0), Some t0) \<and> now \<le> t0 \<longrightarrow>
          n = n0 \<and> t0 \<le> t)
     \<and> (\<exists>h. put_receipt now a ttl s (FenceReceiptKey (assignmentId a)) = Some (RHash h, Some (now + ttl * 1000))
          \<and> map_of h (js ''metadata'') = Some (Json (JOwn (receipt_of a))) \<and> map_of h (js ''epoch'') = Some (NumV n))"
proof -
  let ?ek = "workspaceEpochKey (workerId a) (or_empty (workspaceFence a))" and ?rk = "FenceReceiptKey (assignmentId a)"
  define s1 where "s1 = (case GET now s ?ek of Some v \<Rightarrow> s | None \<Rightarrow> SETEX now ttl ?ek (NumV 0) s)"
  define v where "v = (case GET now s ?ek of Some v \<Rightarrow> v | None \<Rightarrow> NumV 0)"
  define s2 where "s2 = (if PTTL now s1 ?ek < ttl * 1000 then EXPIRE now ?ek ttl s1 else s1)"
  have def: "put_receipt now a ttl s = EXPIRE now ?rk ttl
      (HSET now ?rk (js ''epoch'') v (HSET now ?rk (js ''metadata'') (Json (JOwn (receipt_of a))) s2))"
    by (simp add: put_receipt_def s1_def s2_def v_def Let_def split: option.splits)
  obtain n t where e1: "s1 ?ek = Some (RStr (NumV n), Some t)" "now \<le> t" "v = NumV n"
    "\<forall>n0 t0. s ?ek = Some (RStr (NumV n0), Some t0) \<and> now \<le> t0 \<longrightarrow> n = n0 \<and> t = t0"
  proof (cases "\<exists>n0 t0. s ?ek = Some (RStr (NumV n0), Some t0) \<and> now \<le> t0")
    case True
    then obtain n0 t0 where c: "s ?ek = Some (RStr (NumV n0), Some t0)" "now \<le> t0" by blast
    then have "GET now s ?ek = Some (NumV n0)" by (simp add: GET_def peek_def)
    with c show thesis by (intro that [of n0 t0]) (simp_all add: s1_def v_def)
  next
    case False
    then have "GET now s ?ek = None" using assms(2) by (auto simp: epoch_typed_def GET_def peek_def)
    with False assms(1) show thesis
      by (intro that [of 0 "now + ttl * 1000"]) (auto simp: s1_def v_def SETEX_def SETAT_def put_apply)
  qed
  define t2 where "t2 = (if t - now < ttl * 1000 then now + ttl * 1000 else t)"
  have e2: "s2 ?ek = Some (RStr (NumV n), Some t2)" "now + ttl * 1000 \<le> t2" "t \<le> t2"
    using e1(1,2) assms(1) by (auto simp: s2_def t2_def PTTL_def peek_def EXPIRE_def PEXPIREAT_def PEXPIRE_def put_apply)
  have ne: "?ek \<noteq> ?rk" by (simp add: fence_keys)
  have epoch: "put_receipt now a ttl s ?ek = s2 ?ek" using ne by (simp add: def redis_frame)
  have receipt: "\<exists>h. put_receipt now a ttl s ?rk = Some (RHash h, Some (now + ttl * 1000))
      \<and> map_of h (js ''metadata'') = Some (Json (JOwn (receipt_of a))) \<and> map_of h (js ''epoch'') = Some (NumV n)"
    using assms(1) e1(3) live_expiry [of now s2 ?rk, unfolded expiry_at_def]
    by (simp add: def EXPIRE_def PEXPIREAT_def HSET_def store_hash_def hash_at_def expiry_at_def peek_put put_apply update_conv)
  show ?thesis using epoch e2 e1(2,4) receipt by (intro exI [of _ n] exI [of _ t2]) auto
qed


lemma script_epoch:
  assumes "script l now s s'" "\<And>v z. epoch_typed s (WsEpochKey v z)"
  shows "epoch_grows now s s' (WsEpochKey w d)"
  using assms(1)
proof (cases rule: script.cases)
  case (enqueues a dateNow tok g lanes)
  let ?ttl = "assignmentTtlSeconds dateNow (expiresAt a)"
  show ?thesis
  proof (cases "snd (enqueueForActiveIncarnation now dateNow a ?ttl tok g lanes s) = s")
    case True
    then show ?thesis using enqueues assms(2) by (simp add: epoch_grows_refl)
  next
    case False
    then obtain ottl where c: "s' = enqueue_commit now a ?ttl lanes g ottl s" "0 < ottl"
      using enqueues assignmentTtlSeconds_pos [of dateNow "expiresAt a"]
      by (auto simp: enqueueForActiveIncarnation_def assignmentOutcomeTtlSeconds_def split: if_splits option.splits)
    have cell: "s' (WsEpochKey w d) = give_receipt now a ottl (raise_fence now a (open_deadline a
        (bind_lock now a ?ttl (queue_assignment now a ?ttl (unindex_lanes now a lanes s))))) (WsEpochKey w d)"
      by (simp add: c enqueue_commit_def enqueue_cells)
    define u where "u = raise_fence now a (open_deadline a (bind_lock now a ?ttl (queue_assignment now a ?ttl (unindex_lanes now a lanes s))))"
    have u: "u (WsEpochKey v z) = s (WsEpochKey v z)" for v z by (simp add: u_def enqueue_cells)
    show ?thesis
    proof (cases "workspaceLeaseSlot a \<noteq> None \<and> WsEpochKey w d = workspaceEpochKey (workerId a) (or_empty (workspaceFence a))")
      case True
      then have k: "workspaceEpochKey (workerId a) (or_empty (workspaceFence a)) = WsEpochKey w d" by simp
      have "epoch_typed u (WsEpochKey w d)" using assms(2) u by (simp add: epoch_typed_def)
      from put_receipt_epoch [OF c(2), of u a now, unfolded k, OF this] obtain n t where
        "put_receipt now a ottl u (WsEpochKey w d) = Some (RStr (NumV n), Some t)"
        "\<forall>n0 t0. u (WsEpochKey w d) = Some (RStr (NumV n0), Some t0) \<and> now \<le> t0 \<longrightarrow> n = n0 \<and> t0 \<le> t" by blast
      then show ?thesis using conjunct1 [OF True] cell u [of w d] by (auto simp: epoch_grows_def epoch_typed_def give_receipt_def u_def [symmetric])
    next
      case F: False
      have "give_receipt now a ottl u (WsEpochKey w d) = u (WsEpochKey w d)"
        using F by (auto simp: give_receipt_def put_receipt_def Let_def redis_frame split: option.split)
      then show ?thesis using cell u assms(2) by (simp add: epoch_grows_refl u_def [symmetric])
    qed
  qed
next
  case (resets v z inc)
  show ?thesis
  proof (cases "fst (resetWorkspace now v inc z s) = Ok () \<and> w = v \<and> d = Sha256 z")
    case True
    then show ?thesis using resets assms(2) [of w d]
      by (auto simp: resetWorkspace_def Let_def fence_keys epoch_grows_def epoch_typed_def INCR_def redis_frame EXISTS_def GET_def
          peek_def counter_of_def expiry_at_def split: if_splits)
  next
    case False
    then have "s' (WsEpochKey w d) = s (WsEpochKey w d)"
      using resets by (auto simp: resetWorkspace_def Let_def fence_keys redis_frame split: if_splits)
    then show ?thesis using assms(2) by (simp add: epoch_grows_refl)
  qed
qed (use assms(2) in \<open>simp_all add: epoch_grows_refl script_leaves watched_slots cleanup_cells(1)\<close>)


text \<open>The invariant holds at every step, and a receipt of an earlier epoch stays out of date.\<close>

definition outdated :: "ownership \<Rightarrow> int \<Rightarrow> int \<times> bstore \<Rightarrow> bool" where
  "outdated r g c = (case c of (now, s) \<Rightarrow> \<forall>e n t. holds_receipt now s (assignmentId r) r (Some (NumV g)) e \<longrightarrow>
     s (receipt_epoch_key r) = Some (RStr (NumV n), t) \<longrightarrow> g < n)"

lemma epochs_okD:
  assumes "epochs_ok (now, s)"
  shows "epoch_typed s (WsEpochKey w d)"
    "holds_receipt now s i r g e \<Longrightarrow> \<exists>tr te n m. e = Some tr \<and> s (receipt_epoch_key r) = Some (RStr (NumV n), Some te) \<and> tr \<le> te
       \<and> g = Some (NumV m) \<and> m \<le> n"
  using assms by (auto simp: epochs_ok_def epoch_typed_def)

lemma receipt_epoch_key_eq: "\<exists>w d. receipt_epoch_key r = WsEpochKey w d"
  by (simp add: receipt_epoch_key_def fence_keys)

lemma receipt_epoch_grows:
  assumes "script l now s s'" "\<And>v z. epoch_typed s (WsEpochKey v z)" "s (receipt_epoch_key r) = Some (RStr (NumV n), Some t)" "now \<le> t"
  obtains n' t' where "s' (receipt_epoch_key r) = Some (RStr (NumV n'), Some t')" "n \<le> n'" "t \<le> t'"
proof -
  obtain w d where k: "receipt_epoch_key r = WsEpochKey w d" using receipt_epoch_key_eq by blast
  show thesis using script_epoch [OF assms(1,2), of w d] assms(3,4) that unfolding k epoch_grows_def by blast
qed

lemma epochs_ok_later: "epochs_ok (now, s) \<Longrightarrow> now \<le> now' \<Longrightarrow> epochs_ok (now', s)"
  using holds_receipt_later unfolding epochs_ok_def prod.case by meson

text \<open>The receipt an enqueue issues.\<close>

lemma enqueue_receipt:
  assumes "\<And>v z. epoch_typed s (WsEpochKey v z)" and s': "s' = snd (enqueueForActiveIncarnation now dateNow a
      (assignmentTtlSeconds dateNow (expiresAt a)) tok gd lanes s)"
    and h: "holds_receipt now s' (assignmentId a) r g e"
  shows "holds_receipt now s (assignmentId a) r g e \<or>
    (\<exists>tr te n. e = Some tr \<and> s' (receipt_epoch_key r) = Some (RStr (NumV n), Some te) \<and> tr \<le> te \<and> g = Some (NumV n))"
proof -
  let ?ttl = "assignmentTtlSeconds dateNow (expiresAt a)"
  show ?thesis
  proof (cases "s' = s")
    case False
    then obtain ottl where c: "s' = enqueue_commit now a ?ttl lanes gd ottl s" "0 < ottl"
      using s' assignmentTtlSeconds_pos [of dateNow "expiresAt a"]
      by (auto simp: enqueueForActiveIncarnation_def assignmentOutcomeTtlSeconds_def split: if_splits option.splits)
    define u where "u = raise_fence now a (open_deadline a (bind_lock now a ?ttl (queue_assignment now a ?ttl (unindex_lanes now a lanes s))))"
    have cell: "s' k = give_receipt now a ottl u k" if "\<And>q. k \<noteq> RequestKey q" for k
      using that by (simp add: c enqueue_commit_def enqueue_cells u_def)
    have u: "u (WsEpochKey v z) = s (WsEpochKey v z)" "u (FenceReceiptKey i) = s (FenceReceiptKey i)" for v z i
      by (simp_all add: u_def enqueue_cells)
    show ?thesis
    proof (cases "workspaceLeaseSlot a")
      case None
      then have "s' (FenceReceiptKey (assignmentId a)) = s (FenceReceiptKey (assignmentId a))"
        using cell [of "FenceReceiptKey (assignmentId a)"] u(2) by (simp add: give_receipt_def)
      with h show ?thesis using holds_receipt_cong by blast
    next
      case (Some slot)
      have "epoch_typed u (workspaceEpochKey (workerId a) (or_empty (workspaceFence a)))"
        using assms(1) u by (simp add: epoch_typed_def fence_keys)
      from put_receipt_epoch [OF c(2) this] obtain n t hh where p:
        "put_receipt now a ottl u (workspaceEpochKey (workerId a) (or_empty (workspaceFence a))) = Some (RStr (NumV n), Some t)"
        "now + ottl * 1000 \<le> t" "put_receipt now a ottl u (FenceReceiptKey (assignmentId a)) = Some (RHash hh, Some (now + ottl * 1000))"
        "map_of hh (js ''metadata'') = Some (Json (JOwn (receipt_of a)))" "map_of hh (js ''epoch'') = Some (NumV n)" by blast
      have cells: "s' (FenceReceiptKey (assignmentId a)) = Some (RHash hh, Some (now + ottl * 1000))"
        "s' (workspaceEpochKey (workerId a) (or_empty (workspaceFence a))) = Some (RStr (NumV n), Some t)"
        using p Some cell [of "FenceReceiptKey (assignmentId a)"] cell [of "workspaceEpochKey (workerId a) (or_empty (workspaceFence a))"]
        by (simp_all add: give_receipt_def fence_keys)
      have r: "r = receipt_of a" "g = Some (NumV n)" "e = Some (now + ottl * 1000)"
        using h p(4,5) cells(1) by (auto simp: holds_receipt_def)
      then have "receipt_epoch_key r = workspaceEpochKey (workerId a) (or_empty (workspaceFence a))"
        by (simp add: receipt_epoch_key_def receipt_of_def)
      with r cells(2) p(2) show ?thesis by auto
    qed
  qed (use h in simp)
qed

lemma epochs_ok_script:
  assumes ok: "epochs_ok (now, s)" and step: "script l now s s'"
  shows "epochs_ok (now, s')"
  unfolding epochs_ok_def prod.case
proof (intro conjI allI impI)
  fix w d
  show "s' (WsEpochKey w d) = None \<or> (\<exists>n t. s' (WsEpochKey w d) = Some (RStr (NumV n), Some t))"
    using script_epoch [OF step epochs_okD(1) [OF ok], of w d] by (simp add: epoch_grows_def epoch_typed_def)
next
  fix i r g e
  assume h: "holds_receipt now s' i r g e"
  have old: "\<exists>tr te n m. e = Some tr \<and> s' (receipt_epoch_key r) = Some (RStr (NumV n), Some te) \<and> tr \<le> te \<and> g = Some (NumV m) \<and> m \<le> n"
    if was: "holds_receipt now s i r g e"
  proof -
    obtain tr te n m where c: "e = Some tr" "s (receipt_epoch_key r) = Some (RStr (NumV n), Some te)" "tr \<le> te" "g = Some (NumV m)" "m \<le> n"
      using epochs_okD(2) [OF ok was] by blast
    have "now \<le> te" using was c(1,3) by (auto simp: holds_receipt_def)
    then obtain n' t' where "s' (receipt_epoch_key r) = Some (RStr (NumV n'), Some t')" "n \<le> n'" "te \<le> t'"
      by (rule receipt_epoch_grows [OF step epochs_okD(1) [OF ok] c(2)])
    with c show ?thesis by (intro exI [of _ tr] exI [of _ t'] exI [of _ n'] exI [of _ m]) auto
  qed
  show "\<exists>tr te n m. e = Some tr \<and> s' (receipt_epoch_key r) = Some (RStr (NumV n), Some te) \<and> tr \<le> te \<and> g = Some (NumV m) \<and> m \<le> n"
  proof (cases "l = Enqueue i")
    case False
    then show ?thesis using old script_receipt [OF step False h] by blast
  next
    case True
    with step obtain a dateNow tok gd lanes where i: "i = assignmentId a"
      "s' = snd (enqueueForActiveIncarnation now dateNow a (assignmentTtlSeconds dateNow (expiresAt a)) tok gd lanes s)"
      by (auto elim: script.cases)
    from enqueue_receipt [OF epochs_okD(1) [OF ok] i(2)] h i(1) old show ?thesis by fastforce
  qed
qed


lemma epochs_ok_step: "epochs_ok c \<Longrightarrow> store_step P c c' \<Longrightarrow> epochs_ok c'"
  by (erule store_step.cases) (auto intro: epochs_ok_script epochs_ok_later)

lemma outdated_step:
  assumes ok: "epochs_ok c" and out: "outdated r g c" and step: "store_step (\<lambda>l. l \<noteq> Enqueue (assignmentId r)) c c'"
  shows "outdated r g c'"
  using step
proof (cases rule: store_step.cases)
  case (1 now now' l s s')
  note ok' = epochs_ok_later [OF ok [unfolded 1(1)] 1(3)]
  show ?thesis unfolding 1(2) outdated_def prod.case
  proof (intro allI impI)
    fix e n t
    assume h: "holds_receipt now' s' (assignmentId r) r (Some (NumV g)) e" and n: "s' (receipt_epoch_key r) = Some (RStr (NumV n), t)"
    have h': "holds_receipt now' s (assignmentId r) r (Some (NumV g)) e" by (rule script_receipt [OF 1(5) _ h]) (use 1(4) in simp)
    from epochs_okD(2) [OF ok' this] obtain tr te n0 where c: "e = Some tr" "s (receipt_epoch_key r) = Some (RStr (NumV n0), Some te)" "tr \<le> te"
      by blast
    have "now' \<le> te" using h' c(1,3) by (auto simp: holds_receipt_def)
    then obtain n' t' where g: "s' (receipt_epoch_key r) = Some (RStr (NumV n'), Some t')" "n0 \<le> n'"
      by (rule receipt_epoch_grows [OF 1(5) epochs_okD(1) [OF ok'] c(2)])
    have "g < n0" using out c(2) holds_receipt_later [OF h' 1(3)] unfolding 1(1) outdated_def by auto
    with g n show "g < n" by simp
  qed
qed

interpretation epochs: stable_fact "store_step (\<lambda>l. l \<noteq> Enqueue (assignmentId r))" epochs_ok "outdated r g" for r g
  by unfold_locales (erule (1) epochs_ok_step, erule (2) outdated_step)

end
