(* ===== verification/Safety.thy ===== *)
theory Safety
  imports Lifecycle
begin

text \<open>
  What the store guarantees about an assignment under every interleaving of the scripts: a settlement
  is final, a closed assignment is never fulfilled, a quarantine lasts until a reset, a reset
  invalidates every earlier receipt, and a held lock stays with its holder.
\<close>

section \<open>Stable facts\<close>

definition settled :: "jstr \<Rightarrow> settlement \<Rightarrow> int \<Rightarrow> int \<times> bstore \<Rightarrow> bool" where
  "settled i x t c \<longleftrightarrow> (fst c \<le> t \<longrightarrow> snd c (SettlementKey i) = Some (RStr (Json (JSet x)), Some t))"

definition closed :: "jstr \<Rightarrow> int \<times> bstore \<Rightarrow> bool" where
  "closed i c \<longleftrightarrow> snd c (DeadlineKey i) = None \<and> (\<forall>x. settlement_at (fst c) i (snd c) = Some x \<longrightarrow> is_rejected x)"

definition marked :: "jstr \<Rightarrow> jstr \<Rightarrow> int \<times> bstore \<Rightarrow> bool" where
  "marked w z c \<longleftrightarrow> (\<exists>m. snd c (workspaceQuarantineKey w z) = Some (RStr (Txt m), None) \<and> \<not> assignment_id m)"

definition locked :: "jstr \<Rightarrow> jstr \<Rightarrow> int \<Rightarrow> int \<times> bstore \<Rightarrow> bool" where
  "locked w aid t c \<longleftrightarrow> (fst c \<le> t \<longrightarrow> snd c (LockKey w) = Some (RStr (Txt aid), Some t))"

lemma settled_step:
  assumes "settled i x t c" "store_step P c c'"
  shows "settled i x t c'"
  using assms(2)
proof (cases rule: store_step.cases)
  case (1 now now' l s s')
  show ?thesis unfolding 1(2) settled_def fst_conv snd_conv
  proof
    assume le: "now' \<le> t"
    then have cell: "s (SettlementKey i) = Some (RStr (Json (JSet x)), Some t)" using assms(1) 1 by (simp add: settled_def)
    with le have "GET now' s (SettlementKey i) \<noteq> None" by (simp add: GET_def peek_def)
    with cell script_settled [OF 1(5), of i] show "s' (SettlementKey i) = Some (RStr (Json (JSet x)), Some t)"
      by (simp add: settled_cell_def)
  qed
qed

lemma settlement_at_later:
  assumes "settlement_at now' i s = Some x" "now \<le> now'"
  shows "settlement_at now i s = Some x"
proof -
  from assms(1) have "GET now' s (SettlementKey i) = Some (Json (JSet x))"
    by (simp add: settlement_at_def split: option.splits sval.splits bjson.splits)
  from GET_mono [OF this assms(2)] show ?thesis by (simp add: settlement_at_def)
qed

lemma settlement_at_cong: "s' (SettlementKey i) = s (SettlementKey i) \<Longrightarrow> settlement_at now i s' = settlement_at now i s"
  by (simp add: settlement_at_def GET_def peek_def)

lemma closed_step:
  assumes "closed i c" "store_step (\<lambda>l. l \<noteq> Enqueue i) c c'"
  shows "closed i c'"
  using assms(2)
proof (cases rule: store_step.cases)
  case (1 now now' l s s')
  have d: "s (DeadlineKey i) = None" and rej: "\<And>x. settlement_at now i s = Some x \<Longrightarrow> is_rejected x"
    using assms(1) 1(1) by (auto simp: closed_def)
  have d': "s' (DeadlineKey i) = None" using script_deadline [OF 1(5), of i] 1(4) d by auto
  have "is_rejected x" if x: "settlement_at now' i s' = Some x" for x
  proof (cases "s' (SettlementKey i) = s (SettlementKey i)")
    case True
    then have "settlement_at now' i s = Some x" using x settlement_at_cong [of s' i s now', OF True] by simp
    then show ?thesis using rej settlement_at_later [OF _ 1(3)] by blast
  next
    case False
    then obtain y t where y: "s' (SettlementKey i) = Some (RStr (Json (JSet y)), Some t)" "is_rejected y \<or> EXISTS now' s (DeadlineKey i)"
      using script_settled [OF 1(5), of i] by (auto simp: settled_cell_def)
    moreover have "\<not> EXISTS now' s (DeadlineKey i)" using d by (simp add: EXISTS_def peek_def)
    moreover have "y = x" using x y(1) by (auto simp: settlement_at_def GET_def peek_def split: if_splits)
    ultimately show ?thesis by simp
  qed
  then show ?thesis using d' by (simp add: 1(2) closed_def)
qed

lemma marked_step:
  assumes "marked w z c" "store_step (\<lambda>l. l \<noteq> Reset w z) c c'"
  shows "marked w z c'"
  using assms(2)
proof (cases rule: store_step.cases)
  case (1 now now' l s s')
  obtain m where m: "s (workspaceQuarantineKey w z) = Some (RStr (Txt m), None)" "\<not> assignment_id m"
    using assms(1) 1(1) by (auto simp: marked_def)
  then have g: "GET now' s (workspaceQuarantineKey w z) = Some (Txt m)" "EXISTS now' s (workspaceQuarantineKey w z)"
    by (simp_all add: GET_def EXISTS_def peek_def)
  from script_fence [OF 1(5), of w "Sha256 z"] m g 1(4) show ?thesis
    unfolding 1(2) marked_def fence_cell_def Let_def workspaceQuarantineKey_def by auto
qed

lemma locked_step:
  assumes "assignment_id aid" "locked w aid t c" "store_step (\<lambda>l. l \<noteq> Unlock w aid \<and> l \<noteq> Acquire w aid) c c'"
  shows "locked w aid t c'"
  using assms(3)
proof (cases rule: store_step.cases)
  case (1 now now' l s s')
  show ?thesis unfolding 1(2) locked_def fst_conv snd_conv
  proof
    assume le: "now' \<le> t"
    then have cell: "s (LockKey w) = Some (RStr (Txt aid), Some t)" using assms(2) 1 by (simp add: locked_def)
    with le have "GET now' s (LockKey w) = Some (Txt aid)" by (simp add: GET_def peek_def)
    with script_lock [OF 1(5) _ _ assms(1), of w] 1(4) cell show "s' (LockKey w) = Some (RStr (Txt aid), Some t)" by simp
  qed
qed

interpretation settlement: stable_fact "store_step P" "\<lambda>_. True" "settled i x t" for P i x t
  by unfold_locales (simp, erule (1) settled_step)

interpretation closing: stable_fact "store_step (\<lambda>l. l \<noteq> Enqueue i)" "\<lambda>_. True" "closed i" for i
  by unfold_locales (simp, erule (1) closed_step)

interpretation quarantining: stable_fact "store_step (\<lambda>l. l \<noteq> Reset w z)" "\<lambda>_. True" "marked w z" for w z
  by unfold_locales (simp, erule (1) marked_step)

interpretation locking: stable_fact "store_step (\<lambda>l. l \<noteq> Unlock w aid \<and> l \<noteq> Acquire w aid)"
  "\<lambda>_. assignment_id aid" "locked w aid t" for w aid t
  by unfold_locales (assumption, erule (2) locked_step)

section \<open>Properties\<close>

text \<open>C2. A settlement is final. Once an assignment is settled, no interleaving of settlements,
  quarantines, cancellations and cleanups changes its settlement before it expires: it reads the
  same, a repeated settlement is recognised and any other is refused.\<close>

theorem settlement_final:
  assumes "s (SettlementKey i) = Some (RStr (Json (JSet x)), Some t)"
    and "(store_step P)\<^sup>*\<^sup>* (now, s) (now', s')" and "now' \<le> t"
  shows "settlement_at now' i s' = Some x
    \<and> fst (settle_script now' ttl w i a y ident s') = (if y = x then Repeated else Refused ASSIGNMENT_FENCED)"
proof -
  have "settled i x t (now', s')"
    by (rule settlement.stays [OF assms(2)]) (use assms(1) in \<open>simp_all add: settled_def\<close>)
  then have "GET now' s' (SettlementKey i) = Some (Json (JSet x))" using assms(3) by (simp add: settled_def GET_def peek_def)
  then show ?thesis by (simp add: settlement_at_def settle_script_def Let_def)
qed

lemma waitForSettlement_closes:
  assumes "waitForSettlement H now dateNow a aborted pollFailed polls grace s = (Err e, s')"
  obtains t where "close_script now a t = (None, s')"
  using assms that by (auto simp: waitForSettlement_def split: prod.splits option.splits if_splits)

text \<open>C3. An assignment given up is never fulfilled. When \<^verbatim>\<open>waitForSettlement\<close> ends without a
  settlement, every settlement the assignment gets later, under every interleaving that does not enqueue
  it again, is a rejection.\<close>

theorem closed_never_fulfilled:
  assumes "waitForSettlement H now dateNow a aborted pollFailed polls grace s = (Err e, s1)"
    and "(store_step (\<lambda>l. l \<noteq> Enqueue (assignmentId a)))\<^sup>*\<^sup>* (now, s1) (now', s')"
    and "settlement_at now' (assignmentId a) s' = Some x"
  shows "is_rejected x"
proof -
  obtain t where close: "close_script now a t = (None, s1)" using assms(1) by (rule waitForSettlement_closes)
  then have none: "settlement_at now (assignmentId a) t = None" and s1: "s1 (DeadlineKey (assignmentId a)) = None"
      "s1 (SettlementKey (assignmentId a)) = t (SettlementKey (assignmentId a))"
    by (auto simp: close_script_def Let_def redis_frame split: option.splits if_splits)
  have "settlement_at now (assignmentId a) s1 = None" using none settlement_at_cong [of s1 "assignmentId a" t now, OF s1(2)] by simp
  then have "closed (assignmentId a) (now, s1)" using s1(1) by (simp add: closed_def)
  then have "closed (assignmentId a) (now', s')" by (rule closing.stays [OF assms(2) TrueI])
  with assms(3) show ?thesis by (simp add: closed_def)
qed

text \<open>C9. A quarantine lasts until a reset. While a workspace carries a quarantine mark, no interleaving
  without a reset of that workspace removes it, and no assignment of the workspace can be enqueued.\<close>

theorem quarantine_until_reset:
  assumes "s (workspaceQuarantineKey w z) = Some (RStr (Txt (quarantined_by aid)), None)"
    and "(store_step (\<lambda>l. l \<noteq> Reset w z))\<^sup>*\<^sup>* (now, s) (now', s')"
    and "workerId a = w" "assignmentWorkspace a = Some z"
  shows "EXISTS now' s' (workspaceQuarantineKey w z)
    \<and> fst (enqueueForActiveIncarnation now' dateNow a ttl tok g lanes s') \<noteq> Ok True"
proof -
  have "marked w z (now, s)" using assms(1) not_id_marks(1) [of aid] by (simp add: marked_def)
  then have "marked w z (now', s')" by (rule quarantining.stays [OF assms(2) TrueI])
  then have "EXISTS now' s' (workspaceQuarantineKey w z)" by (auto simp: marked_def EXISTS_def peek_def)
  moreover have "fence_key a = workspaceQuarantineKey w z" using assms(3,4) by (simp add: fence_key_def)
  ultimately show ?thesis using assms(4) by (simp add: enqueueForActiveIncarnation_def enqueue_blocked_def)
qed

text \<open>C4. A reset invalidates every earlier receipt. A receipt issued before its workspace was reset never
  takes effect again: whatever happens afterwards, expiry of the receipt and of the epoch included,
  the script that quarantines or clears the workspace on its behalf refuses.\<close>

theorem reset_invalidates_receipts:
  assumes start: "\<And>i. s0 (FenceReceiptKey i) = None" "\<And>w d. s0 (WsEpochKey w d) = None" and before: "(store_step (\<lambda>_. True))\<^sup>*\<^sup>* (t0, s0) (t1, s1)"
    and receipt: "HGET t1 s1 (FenceReceiptKey (assignmentId r)) (js ''metadata'') = Some (Json (JOwn r))"
      "HGET t1 s1 (FenceReceiptKey (assignmentId r)) (js ''epoch'') = Some (NumV g)"
    and fence: "workspaceFence r = Some z"
    and reset: "resetWorkspace t1 (workerId r) inc z s1 = (Ok (), s2)"
    and after: "(store_step (\<lambda>l. l \<noteq> Enqueue (assignmentId r)))\<^sup>*\<^sup>* (t1, s2) (t3, s3)"
  shows "receipt_script t3 ttl (workerId r) x ident quar r (Some (NumV g)) s3 = (False, s3)"
proof -
  have "epochs_ok (t0, s0)" using start by (simp add: epochs_ok_def holds_receipt_def)
  with before have ok1: "epochs_ok (t1, s1)" by (induction rule: rtranclp_induct) (auto intro: epochs_ok_step)
  obtain e where h1: "holds_receipt t1 s1 (assignmentId r) r (Some (NumV g)) e" using HGET_receipt [OF receipt(1)] receipt(2) by auto
  from epochs_okD(2) [OF ok1 this] obtain tr te n where c: "e = Some tr" "s1 (receipt_epoch_key r) = Some (RStr (NumV n), Some te)" "tr \<le> te" "g \<le> n"
    by blast
  have live: "t1 \<le> te" using h1 c(1,3) by (auto simp: holds_receipt_def)
  have k: "receipt_epoch_key r = workspaceEpochKey (workerId r) z" using fence by (simp add: receipt_epoch_key_def or_empty_def)
  have "s2 (receipt_epoch_key r) = Some (RStr (NumV (n + 1)), Some te)"
    using reset c(2) live unfolding k
    by (auto simp: resetWorkspace_def Let_def INCR_def EXISTS_def GET_def peek_def counter_of_def expiry_at_def redis_frame fence_keys
        split: if_splits)
  then have "outdated r g (t1, s2)" using c(4) by (auto simp: outdated_def)
  moreover have ok2: "epochs_ok (t1, s2)" using epochs_ok_script [OF ok1 script.resets, of "workerId r" inc z] reset by simp
  ultimately have out: "outdated r g (t3, s3)" using epochs.stays [OF after] by blast
  have ok3: "epochs_ok (t3, s3)" by (rule epochs.reachable_inv [OF after ok2])
  have "\<not> receipt_current t3 (workerId r) ident r (Some (NumV g)) s3"
  proof
    assume cur: "receipt_current t3 (workerId r) ident r (Some (NumV g)) s3"
    then obtain e3 where h3: "holds_receipt t3 s3 (assignmentId r) r (Some (NumV g)) e3"
      using HGET_receipt [of t3 s3 "assignmentId r" r] by (auto simp: receipt_current_def Let_def)
    from epochs_okD(2) [OF ok3 h3] obtain tr3 te3 n3 where c3: "e3 = Some tr3" "s3 (receipt_epoch_key r) = Some (RStr (NumV n3), Some te3)" "tr3 \<le> te3"
      by blast
    have "t3 \<le> te3" using h3 c3(1,3) by (auto simp: holds_receipt_def)
    then have "GET t3 s3 (receipt_epoch_key r) = Some (NumV n3)" using c3(2) by (simp add: GET_def peek_def)
    moreover have "g < n3" using out h3 c3(2) by (auto simp: outdated_def)
    ultimately show False using cur by (simp add: receipt_current_def Let_def receipt_epoch_key_def)
  qed
  then show ?thesis by (simp add: receipt_script_def Let_def)
qed

text \<open>C16. A held lock stays with its holder. After an assignment has acquired the lock of a worker, until
  it releases or renews it or the lock expires, no interleaving takes the lock from it: no other
  assignment acquires it, no workspace slot is granted and a release by another assignment has no effect.\<close>

theorem lock_exclusive:
  assumes "assignment_id aid" "acquireLock now w aid inc ttl False g s = (True, s1)"
    and "(store_step (\<lambda>l. l \<noteq> Unlock w aid \<and> l \<noteq> Acquire w aid))\<^sup>*\<^sup>* (now, s1) (now', s')" "now' \<le> now + ttl * 1000"
    and "b \<noteq> aid"
  shows "GET now' s' (LockKey w) = Some (Txt aid)
    \<and> acquireLock now' w b inc' ttl' reuse g' s' = (False, s')
    \<and> releaseLock now' w b s' = s'
    \<and> (\<forall>n. fst (reserve now' dateNow (ra\<lparr>ra_workerId := w\<rparr>) s') \<noteq> Ok (Some n))"
proof -
  have "s1 (LockKey w) = Some (RStr (Txt aid), Some (now + ttl * 1000))"
    using assms(2) by (auto simp: acquireLock_def SETPX_def SETAT_def redis_frame split: if_splits)
  then have "locked w aid (now + ttl * 1000) (now, s1)" by (simp add: locked_def)
  then have "locked w aid (now + ttl * 1000) (now', s')" by (rule locking.stays [OF assms(3,1)])
  then have cell: "s' (LockKey w) = Some (RStr (Txt aid), Some (now + ttl * 1000))" using assms(4) by (simp add: locked_def)
  then have get: "GET now' s' (LockKey w) = Some (Txt aid)" using assms(4) by (simp add: GET_def peek_def)
  then have ex: "EXISTS now' s' (LockKey w)" by (rule GET_EXISTS)
  have foreign: "slots_owner i \<noteq> Txt aid" for i using slots_owner_not_id assms(1) by blast
  have "fst (reserve_script now' dateNow (ra\<lparr>ra_workerId := w\<rparr>) s') \<in> {GuardFailed, Replaced, Unavailable}"
    using get foreign [of "ra_incarnationId ra"] by (auto simp: reserve_script_def reserve_refusal_def Let_def)
  then have "\<forall>n. fst (reserve now' dateNow (ra\<lparr>ra_workerId := w\<rparr>) s') \<noteq> Ok (Some n)"
    by (auto simp: reserve_def split: prod.splits reserve_reply.splits)
  then show ?thesis using get ex assms(5) by (auto simp: acquireLock_def releaseLock_def)
qed

section \<open>One assignment\<close>

lemma sanitize_owner [simp]:
  "st_generation (sanitizeLaneGit H cfg x a reg) = st_generation x" "st_leaseToken (sanitizeLaneGit H cfg x a reg) = st_leaseToken x"
  "st_incarnationId (sanitizeLaneGit H cfg x a reg) = st_incarnationId x" "is_rejected (sanitizeLaneGit H cfg x a reg) = is_rejected x"
  by (simp_all add: sanitizeLaneGit_def withoutLaneGit_def is_rejected_def split: outcome.splits)

lemma commit_keeps_settlement: "snd (commitPendingWorkspace now a x d s) (SettlementKey i) = s (SettlementKey i)"
  using script_leaves(5,6) [of "SettlementKey i" now a]
  by (auto simp: commitPendingWorkspace_def split: prod.splits) (metis snd_conv bkey.distinct)+

lemma cleanup_keeps_settlement:
  fixes a :: "'z ownership_scheme option"
  shows "cleanupDispatch now dateNow w aid a s (SettlementKey i) = s (SettlementKey i)"
proof -
  have k: "watched (SettlementKey i)" "\<And>v. SettlementKey i \<noteq> LockKey v" "\<And>b :: 'z ownership_scheme. SettlementKey i \<noteq> fence_key b" by simp_all
  have "cleanup now b t (SettlementKey i) = t (SettlementKey i)" for b :: "'z ownership_scheme" and t
    using cleanup_cells(1) [OF k(1) k(3), of now b t] watched_slots(2) [OF k(1,2)] script_leaves(2) [OF k(1,2)]
    by (auto simp: cleanup_def split: prod.splits bool.splits)
  then show ?thesis
    by (simp add: cleanupDispatch_def Let_def script_leaves(2) watched_leases(4) split: option.split)
qed

text \<open>C17. Only the owner of the lease settles. When \<^verbatim>\<open>settle\<close> stores a settlement, the assignment it
  read belongs to the worker, the settlement carries its incarnation, generation and lease token, that
  incarnation is the current one and the identity is the bound one at the moment of the commit; a
  fulfilment comes before the deadline and while the deadline is open. The stored settlement is the
  given one, at most without its lane Git data.\<close>

theorem settle_authority:
  assumes "settle H cfg now dateNow w aid x0 ident existing asg reg s = (Ok (), s')"
    and "existing = None" "GET now s (SettlementKey aid) = None"
  shows "\<exists>a x. asg = Some a \<and> workerId a = w \<and> incarnationId a = st_incarnationId x0 \<and> generation a = st_generation x0
    \<and> leaseTokenHash a = tokenHash (st_leaseToken x0) \<and> workerIdentityId a = ident
    \<and> GET now s (IncarnationKey w) = Some (Txt (incarnationId a)) \<and> identity_matches now w ident s
    \<and> (is_rejected x0 \<or> dateNow < expiresAt a \<and> EXISTS now s (DeadlineKey aid))
    \<and> (assignmentWorkspace a \<noteq> None \<longrightarrow> GET now s (workspaceQuarantineKey w (or_empty (assignmentWorkspace a))) = Some (Txt aid))
    \<and> settlement_at now aid s' = Some x \<and> x \<in> {x0, withoutLaneGit x0}"
proof -
  from assms(1,2) obtain a where d: "asg = Some a" "workerId a = w" "st_incarnationId x0 = incarnationId a" "st_generation x0 = generation a"
    "tokenHash (st_leaseToken x0) = leaseTokenHash a" "workerIdentityId a = ident" "is_rejected x0 \<or> dateNow < expiresAt a"
    and dec: "settle_decide H cfg dateNow w x0 ident existing asg reg = Ok (Some (a, sanitizeLaneGit H cfg x0 a reg))"
    by (auto simp: settle_def settle_decide_def Let_def split: option.splits if_splits sum.splits)
  define x where "x = sanitizeLaneGit H cfg x0 a reg"
  let ?ttl = "assignmentOutcomeTtlSeconds dateNow a"
  obtain r s1 where sc: "settle_script now ?ttl w aid a x ident s = (r, s1)" by fastforce
  have r: "r = Stored" "EXISTS now s (AssignmentKey aid)" "is_rejected x \<or> EXISTS now s (DeadlineKey aid)" "identity_matches now w ident s"
    "GET now s (IncarnationKey w) = Some (Txt (st_incarnationId x))"
    "assignmentWorkspace a \<noteq> None \<longrightarrow> GET now s (workspaceQuarantineKey w (or_empty (assignmentWorkspace a))) = Some (Txt aid)"
    "s1 (SettlementKey aid) = Some (RStr (Json (JSet x)), Some (now + ?ttl * 1000))"
    using sc assms(1,3) dec
    by (auto simp: settle_def x_def [symmetric] settle_script_def Let_def redis_frame SETEX_def SETAT_def fence_keys split: if_splits)
  have "s' (SettlementKey aid) = s1 (SettlementKey aid)"
    using assms(1) dec sc r(1) commit_keeps_settlement [of now a x None s1 aid]
    by (auto simp: settle_def x_def [symmetric] cleanup_keeps_settlement split: if_splits prod.splits sum.splits)
  moreover have "0 \<le> ?ttl" using assignmentTtlSeconds_pos [of dateNow "expiresAt a"]
    by (simp add: assignmentOutcomeTtlSeconds_def split: option.split)
  ultimately have "settlement_at now aid s' = Some x" using r(7) by (simp add: settlement_at_def GET_def peek_def)
  moreover have "x \<in> {x0, withoutLaneGit x0}" by (simp add: x_def sanitizeLaneGit_def split: outcome.split)
  ultimately show ?thesis using d r by (intro exI [of _ a] exI [of _ x]) (auto simp: x_def)
qed

section \<open>Witnesses\<close>

text \<open>A worker with one registered incarnation and one slotted workspace assignment.\<close>

definition demo_aid :: jstr where
  "demo_aid = js ''abcdefghijklmnopqrstuvwx''"

definition demo_root :: jstr where
  "demo_root = NATIVE_WORKSPACE_FENCE_PREFIX @ js ''r''"

definition demo_asg :: assignment where
  "demo_asg = \<lparr>assignmentId = demo_aid, workerId = js ''w'', incarnationId = js ''a'', workspaceFence = Some demo_root,
     workspaceLeaseSlot = Some 0, generation = 1, leaseTokenHash = Sha256 (js ''t''), workerIdentityId = None,
     expiresAt = 10000, runtimeSessionId = None, durableRequestKey = None, protocolVersion = 1, leaseToken = js ''t'',
     executionKind = Some WorkspaceTool, asgWorkspaceId = None, request = JObj []\<rparr>"

definition demo_rejection :: settlement where
  "demo_rejection = \<lparr>st_protocolVersion = 1, st_generation = 1, st_leaseToken = js ''t'', st_incarnationId = js ''a'',
     st_outcome = Rejected (js ''stopped'') None\<rparr>"

definition demo_enqueued :: bstore where
  "demo_enqueued = snd (enqueueForActiveIncarnation 0 0 demo_asg (assignmentTtlSeconds 0 10000) None None [] demo_first)"

definition demo_host :: host where
  "demo_host = \<lparr>h_lower = (\<lambda>x. x), h_ignorable = (\<lambda>_. False), h_unprintable = (\<lambda>_. False), h_sha256 = (\<lambda>x. x)\<rparr>"

lemma demo_ttl [simp]: "assignmentTtlSeconds 0 10000 = 40"
  by (simp add: assignmentTtlSeconds_def ceil_div_def)

lemma demo_scope [simp]: "workspaceFenceParent demo_root = None"
  by (simp add: demo_root_def workspaceFenceParent_native workspaceIsolationParent_def LINKED_WORKTREE_KEY_PREFIX_def js_def startsWith_def)


lemma demo_job_fields [simp]:
  "assignmentId demo_asg = demo_aid" "workerId demo_asg = js ''w''" "incarnationId demo_asg = js ''a''"
  "workspaceFence demo_asg = Some demo_root" "workspaceLeaseSlot demo_asg = Some 0" "expiresAt demo_asg = 10000"
  "durableRequestKey demo_asg = None" "assignmentWorkspace demo_asg = Some demo_root" "fence_scope_of demo_asg = Checkout"
  "fence_key demo_asg = workspaceQuarantineKey (js ''w'') demo_root" "workerIdentityId demo_asg = None"
  "leaseTokenHash demo_asg = Sha256 (js ''t'')" "generation demo_asg = 1"
  by (simp_all add: demo_asg_def assignmentWorkspace_def fence_scope_of_def fence_key_def or_empty_def)

lemma demo_id: "assignment_id demo_aid"
  by (simp add: assignment_id_def demo_aid_def js_def)

lemma demo_current: "GET 0 demo_first (IncarnationKey (js ''w'')) = Some (Txt (js ''a''))"
  by (simp add: demo_first_def register_eval)

lemma demo_absent:
  "demo_first (WsQuarantineKey v d) = None" "demo_first (FenceReceiptKey i) = None" "demo_first (WsEpochKey v d) = None"
  "demo_first (SettlementKey i) = None" "demo_first (LockKey v) = None" "demo_first (StableIdentityKey v) = None"
  "demo_first (QueueKey v i n) = None" "demo_first (LeaseClaimKey v i n) = None"
  by (simp_all add: demo_first_def register_eval)

lemma demo_enqueue:
  "enqueueForActiveIncarnation 0 0 demo_asg (assignmentTtlSeconds 0 10000) None None [] demo_first = (Ok True, demo_enqueued)"
proof -
  have "fst (enqueueForActiveIncarnation 0 0 demo_asg (assignmentTtlSeconds 0 10000) None None [] demo_first) = Ok True"
    by (simp add: enqueueForActiveIncarnation_def enqueue_guarded_def enqueue_blocked_def demo_current or_empty_def EXISTS_def peek_def
        demo_absent workspaceQuarantineKey_def)
  then show ?thesis by (simp add: demo_enqueued_def prod_eq_iff)
qed

lemma demo_enqueued_step: "store_step (\<lambda>_. True) (0, demo_first) (0, demo_enqueued)"
  using script.enqueues [of demo_asg 0 demo_first 0 None None "[]"] demo_id
  by (intro store_step.intros) (simp_all add: demo_enqueued_def)


lemma demo_enqueued_eq:
  "demo_enqueued = enqueue_commit 0 demo_asg 40 [] None 40 demo_first"
  using demo_enqueue by (auto simp: enqueueForActiveIncarnation_def split: if_splits)

lemma demo_receipt_cell:
  "\<exists>h. demo_enqueued (FenceReceiptKey demo_aid) = Some (RHash h, Some 40000) \<and>
     map_of h (js ''metadata'') = Some (Json (JOwn (receipt_of demo_asg))) \<and> map_of h (js ''epoch'') = Some (NumV 0)"
proof -
  define u where "u = raise_fence 0 demo_asg (open_deadline demo_asg (bind_lock 0 demo_asg 40 (queue_assignment 0 demo_asg 40
    (unindex_lanes 0 demo_asg [] demo_first))))"
  have none: "u (WsEpochKey v d) = None" "u (FenceReceiptKey i) = None" for v d i
    by (simp_all add: u_def enqueue_cells demo_absent workspaceQuarantineKey_def)
  have "demo_enqueued (FenceReceiptKey demo_aid) = put_receipt 0 demo_asg 40 u (FenceReceiptKey demo_aid)"
    by (simp add: demo_enqueued_eq enqueue_commit_def enqueue_cells u_def give_receipt_def)
  then show ?thesis
    using none by (simp add: put_receipt_def Let_def GET_def peek_def workspaceEpochKey_def PTTL_def HSET_def store_hash_def put_apply
        hash_at_def expiry_at_def EXPIRE_def PEXPIREAT_def SETEX_def SETAT_def update_conv)
qed

lemma demo_receipt:
  "HGET 0 demo_enqueued (FenceReceiptKey demo_aid) (js ''metadata'') = Some (Json (JOwn (receipt_of demo_asg)))"
  "HGET 0 demo_enqueued (FenceReceiptKey demo_aid) (js ''epoch'') = Some (NumV 0)"
  using demo_receipt_cell by (auto simp: HGET_def hash_at_def peek_def)

text \<open>The enqueued assignment is closed at its deadline; the worker's late rejection is still stored.\<close>

definition demo_closed :: bstore where
  "demo_closed = snd (close_script 10001 demo_asg demo_enqueued)"

definition demo_late :: bstore where
  "demo_late = snd (settle_script 10001 (assignmentOutcomeTtlSeconds 10001 demo_asg) (js ''w'') demo_aid demo_asg demo_rejection None demo_closed)"

lemma demo_cells:
  "demo_enqueued (SettlementKey i) = None"
  "demo_enqueued (AssignmentKey demo_aid) = Some (RStr (Json (JAsg demo_asg)), Some 40000)"
  "demo_enqueued (WsQuarantineKey (js ''w'') (Sha256 demo_root)) = Some (RStr (Txt demo_aid), None)"
  "demo_enqueued (StableIdentityKey v) = None" "demo_enqueued (IncarnationKey v) = demo_first (IncarnationKey v)"
  "demo_enqueued (LockKey v) = None" "demo_enqueued (LeaseClaimKey v i n) = None" "demo_enqueued (WorkerKey v) = demo_first (WorkerKey v)"
  by (simp_all add: demo_enqueued_eq enqueue_commit_cells enqueue_commit_fence demo_absent workspaceQuarantineKey_def)
     (simp_all add: enqueue_commit_def enqueue_cells demo_absent workspaceQuarantineKey_def queue_assignment_def SETEX_def SETAT_def redis_frame Let_def)

lemma demo_close: "close_script 10001 demo_asg demo_enqueued = (None, demo_closed)"
proof -
  have "fst (close_script 10001 demo_asg demo_enqueued) = None"
    by (simp add: close_script_def settlement_at_def GET_def peek_def demo_cells Let_def)
  then show ?thesis by (simp add: demo_closed_def prod_eq_iff)
qed

lemma demo_wait:
  "waitForSettlement demo_host 10001 10001 demo_asg False False [] [] demo_enqueued = (Err (StoreError ASSIGNMENT_EXPIRED), demo_closed)"
  by (simp add: waitForSettlement_def cancels_first_def demo_close)

lemma demo_closed_cells:
  "demo_closed = DEL (DeadlineKey demo_aid) demo_enqueued"
  by (simp add: demo_closed_def close_script_def settlement_at_def GET_def peek_def demo_cells Let_def redis_frame workspaceQuarantineKey_def)

lemma demo_first_incarnation: "demo_first (IncarnationKey (js ''w'')) = Some (RStr (Txt (js ''a'')), Some 60000)"
  by (simp add: demo_first_def register_eval)

lemma demo_settles:
  "settle_decide demo_host demo_config 10001 (js ''w'') demo_rejection None None (Some demo_asg) (Some (demo_worker ''a'')) =
     Ok (Some (demo_asg, demo_rejection))"
  by (simp add: settle_decide_def Let_def demo_rejection_def is_rejected_def tokenHash_def sanitizeLaneGit_def)

lemma demo_late_settlement: "settlement_at 10001 demo_aid demo_late = Some demo_rejection"
  by (simp add: demo_late_def settle_script_def demo_closed_cells GET_def EXISTS_def peek_def redis_frame demo_cells Let_def identity_matches_def
      or_empty_def workspaceQuarantineKey_def demo_first_incarnation demo_rejection_def is_rejected_def settlement_at_def SETEX_def SETAT_def
      assignmentOutcomeTtlSeconds_def assignmentTtlSeconds_def)

theorem closed_never_fulfilled_witness: "settlement_at 10001 demo_aid demo_late = Some demo_rejection \<and> is_rejected demo_rejection"
proof -
  have "script Other 10001 demo_closed demo_late"
    using script.settles [OF demo_id demo_settles, of 10001 demo_closed] by (simp add: demo_late_def)
  then have "store_step (\<lambda>l. l \<noteq> Enqueue (assignmentId demo_asg)) (10001, demo_closed) (10001, demo_late)"
    by (intro store_step.intros) auto
  then show ?thesis using closed_never_fulfilled [OF demo_wait r_into_rtranclp] demo_late_settlement by simp
qed


theorem settlement_final_witness:
  "fst (settle_script 10002 5 (js ''w'') demo_aid demo_asg (demo_rejection\<lparr>st_generation := 2\<rparr>) None demo_late) = Refused ASSIGNMENT_FENCED"
proof -
  have cell: "demo_late (SettlementKey demo_aid) = Some (RStr (Json (JSet demo_rejection)), Some 40001)"
    by (simp add: demo_late_def settle_script_def demo_closed_cells GET_def EXISTS_def peek_def redis_frame demo_cells Let_def identity_matches_def
      or_empty_def workspaceQuarantineKey_def demo_first_incarnation demo_rejection_def is_rejected_def SETEX_def SETAT_def
      assignmentOutcomeTtlSeconds_def assignmentTtlSeconds_def ceil_div_def)
  have "store_step (\<lambda>_. True) (10001, demo_late) (10002, demo_late)"
    by (rule store_step.intros [of _ _ _ Other]) (simp_all add: script.others)
  then have "(store_step (\<lambda>_. True))\<^sup>*\<^sup>* (10001, demo_late) (10002, demo_late)" by (rule r_into_rtranclp)
  from settlement_final [OF cell this] show ?thesis by (simp add: demo_rejection_def)
qed

theorem quarantine_until_reset_witness:
  "EXISTS 0 (SET (workspaceQuarantineKey (js ''w'') demo_root) (Txt (quarantined_by demo_aid)) demo_first) (workspaceQuarantineKey (js ''w'') demo_root)
   \<and> fst (enqueueForActiveIncarnation 0 0 demo_asg 40 None None []
        (SET (workspaceQuarantineKey (js ''w'') demo_root) (Txt (quarantined_by demo_aid)) demo_first)) \<noteq> Ok True"
proof -
  let ?s = "SET (workspaceQuarantineKey (js ''w'') demo_root) (Txt (quarantined_by demo_aid)) demo_first"
  show ?thesis by (rule quarantine_until_reset [of ?s "js ''w''" demo_root demo_aid 0]) (simp_all add: SET_def put_apply)
qed

theorem reset_invalidates_receipts_witness:
  "fst (receipt_script 0 40 (js ''w'') demo_rejection None True (receipt_of demo_asg) (Some (NumV 0))
     (snd (resetWorkspace 0 (js ''w'') (js ''a'') demo_root demo_enqueued))) = False"
proof -
  let ?r = "receipt_of demo_asg" and ?s2 = "snd (resetWorkspace 0 (js ''w'') (js ''a'') demo_root demo_enqueued)"
  have r: "assignmentId ?r = demo_aid" "workerId ?r = js ''w''" "workspaceFence ?r = Some demo_root" by (simp_all add: receipt_of_def)
  have "fst (resetWorkspace 0 (js ''w'') (js ''a'') demo_root demo_enqueued) = Ok ()"
    by (simp add: resetWorkspace_def GET_def EXISTS_def peek_def demo_cells demo_first_incarnation Let_def)
  then have "resetWorkspace 0 (workerId ?r) (js ''a'') demo_root demo_enqueued = (Ok (), ?s2)" using r by (simp add: prod_eq_iff)
  moreover have "(store_step (\<lambda>_. True))\<^sup>*\<^sup>* (0, demo_first) (0, demo_enqueued)" using demo_enqueued_step by (rule r_into_rtranclp)
  ultimately have "receipt_script 0 40 (workerId ?r) demo_rejection None True ?r (Some (NumV 0)) ?s2 = (False, ?s2)"
    using reset_invalidates_receipts [of demo_first 0 0 demo_enqueued ?r 0 demo_root "js ''a''" ?s2 0 ?s2] demo_absent(2,3) r demo_receipt
    by simp
  then show ?thesis using demo_receipt r by simp
qed

theorem lock_exclusive_witness:
  "\<exists>s. GET 5 s (LockKey (js ''w'')) = Some (Txt demo_aid) \<and> fst (acquireLock 5 (js ''w'') (js ''b'') (js ''a'') 1 True None s) = False"
proof -
  let ?s = "snd (acquireLock 5 (js ''w'') demo_aid (js ''a'') 1 False None (\<lambda>_. None))"
  have a: "acquireLock 5 (js ''w'') demo_aid (js ''a'') 1 False None (\<lambda>_. None) = (True, ?s)"
    by (simp add: acquireLock_def EXISTS_def peek_def)
  have "js ''b'' \<noteq> demo_aid" by (simp add: demo_aid_def)
  from lock_exclusive [OF demo_id a rtranclp.rtrancl_refl _ this, of "js ''a''" 1 True None 0 undefined] show ?thesis by (intro exI [of _ ?s]) simp
qed

theorem settle_authority_witness:
  "\<exists>x. settlement_at 5 demo_aid (snd (settle demo_host demo_config 5 5 (js ''w'') demo_aid demo_rejection None None (Some demo_asg)
      (Some (demo_worker ''a'')) demo_enqueued)) = Some x \<and> x \<in> {demo_rejection, withoutLaneGit demo_rejection}"
proof -
  let ?r = "settle demo_host demo_config 5 5 (js ''w'') demo_aid demo_rejection None None (Some demo_asg) (Some (demo_worker ''a'')) demo_enqueued"
  have d: "settle_decide demo_host demo_config 5 (js ''w'') demo_rejection None None (Some demo_asg) (Some (demo_worker ''a'')) =
      Ok (Some (demo_asg, demo_rejection))"
    by (simp add: settle_decide_def Let_def demo_rejection_def is_rejected_def tokenHash_def sanitizeLaneGit_def)
  obtain s1 where sc: "settle_script 5 (assignmentOutcomeTtlSeconds 5 demo_asg) (js ''w'') demo_aid demo_asg demo_rejection None demo_enqueued = (Stored, s1)"
    and s1: "s1 (FenceReceiptKey demo_aid) = demo_enqueued (FenceReceiptKey demo_aid)"
    by (simp add: settle_script_def GET_def EXISTS_def peek_def redis_frame demo_cells Let_def identity_matches_def or_empty_def
        workspaceQuarantineKey_def demo_first_incarnation demo_rejection_def is_rejected_def)
  have "EXISTS 5 demo_enqueued (FenceReceiptKey demo_aid)"
    using demo_receipt_cell by (auto simp: EXISTS_def peek_def)
  then have "EXISTS 5 s1 (FenceReceiptKey demo_aid)" using s1 by (simp add: EXISTS_def peek_def)
  then have "fst ?r = Ok ()"
    by (simp add: settle_def d sc commitPendingWorkspace_def commit_slot_def Let_def split: prod.split)
  then have "?r = (Ok (), snd ?r)" by (simp add: prod_eq_iff)
  from settle_authority [OF this refl] show ?thesis by (auto simp: GET_def peek_def demo_cells)
qed

end
