(* ===== verification/Delivery.thy ===== *)
theory Delivery
  imports Safety
begin

text \<open>
  What one operation of the store does for an assignment: an enqueue makes it available to its
  incarnation until its deadline, a lease hands it out once claimed and again until it is discarded, a
  cleanup leaves every other assignment alone.
\<close>

section \<open>Cleanup\<close>

lemma GET_DEL_guarded: "GET now s k = Some v \<Longrightarrow> GET now s k' \<noteq> Some v \<Longrightarrow> GET now (DEL k' s) k = Some v"
  by (auto simp: redis_simps)







section \<open>Enqueue\<close>


section \<open>Properties\<close>




section \<open>Witnesses\<close>




end
