(* ===== verification/Canonical.thy ===== *)
theory Canonical
  imports Text "HOL-Library.List_Lexorder"
begin

text \<open>
  The canonical JSON text of \<^verbatim>\<open>service/src/workspace-tools/requests.ts\<close>, from which the key and the
  fingerprint of a durable request are hashed: the keys of every object in code-unit order, leaves as
  \<^verbatim>\<open>JSON.stringify\<close> prints them. Two values have the same text exactly when they are the same up to
  the order of object keys.
\<close>

section \<open>Leaves\<close>

text \<open>\<^verbatim>\<open>JSON.stringify\<close> of a string: the two-character escapes, \<^verbatim>\<open>\\u\<close> escapes of the other
  control characters and of lone surrogates, every other code unit as it is.\<close>

definition hex_digit :: "nat \<Rightarrow> nat" where
  "hex_digit d = (if d < 10 then 48 + d else 87 + d)"

definition hex4 :: "nat \<Rightarrow> jstr" where
  "hex4 c = map hex_digit [c div 4096, c div 256 mod 16, c div 16 mod 16, c mod 16]"

definition quote_unit :: "nat \<Rightarrow> jstr" where
  "quote_unit c =
     (if c = 8 then [92, 98] else if c = 9 then [92, 116] else if c = 10 then [92, 110]
      else if c = 12 then [92, 102] else if c = 13 then [92, 114] else if c = 34 then [92, 34]
      else if c = 92 then [92, 92]
      else if c < 32 \<or> is_high c \<or> is_low c then [92, 117] @ hex4 c else [c])"

fun quote_body :: "jstr \<Rightarrow> jstr" where
  "quote_body [] = []"
| "quote_body [c] = quote_unit c"
| "quote_body (c # d # cs) =
     (if is_high c \<and> is_low d then c # d # quote_body cs else quote_unit c @ quote_body (d # cs))"

definition quote_json :: "jstr \<Rightarrow> jstr" where
  "quote_json s = [34] @ quote_body s @ [34]"

definition show_int :: "int \<Rightarrow> jstr" where
  "show_int n = (if n < 0 then 45 # show_nat (nat (- n)) else show_nat (nat n))"

section \<open>The canonical text\<close>

primrec canonical :: "json \<Rightarrow> jstr" where
  "canonical JNull = js ''null''"
| "canonical (JBool b) = (if b then js ''true'' else js ''false'')"
| "canonical (JInt n) = show_int n"
| "canonical (JFloat s) = s"
| "canonical (JStr s) = quote_json s"
| "canonical (JArr xs) = [91] @ join_with [44] (map canonical xs) @ [93]"
| "canonical (JObj fs) =
     [123] @ join_with [44] (map (\<lambda>(k, v). quote_json k @ [58] @ v) (sort_key fst (map (map_prod (\<lambda>k. k) canonical) fs))) @ [125]"

text \<open>Values a JSON parser returns: code units, numbers with their shortest decimal text, which is an
  integer's below \<open>10 ^ 21\<close> and has a fraction or an exponent otherwise, and distinct keys.\<close>

definition number_char :: "nat \<Rightarrow> bool" where
  "number_char c \<longleftrightarrow> 48 \<le> c \<and> c \<le> 57 \<or> c = 45 \<or> c = 43 \<or> c = 46 \<or> c = 101"

primrec json_ok :: "json \<Rightarrow> bool" where
  "json_ok JNull = True"
| "json_ok (JBool b) = True"
| "json_ok (JInt n) = (\<bar>n\<bar> < 10 ^ 21)"
| "json_ok (JFloat s) = (s \<noteq> [] \<and> list_all number_char s \<and> (46 \<in> set s \<or> 101 \<in> set s))"
| "json_ok (JStr s) = units s"
| "json_ok (JArr xs) = list_all (\<lambda>b. b) (map json_ok xs)"
| "json_ok (JObj fs) =
     (distinct (map fst fs) \<and> list_all units (map fst fs) \<and> list_all snd (map (map_prod (\<lambda>k. k) json_ok) fs))"

text \<open>The value with its keys in order.\<close>

primrec sort_keys :: "json \<Rightarrow> json" where
  "sort_keys JNull = JNull"
| "sort_keys (JBool b) = JBool b"
| "sort_keys (JInt n) = JInt n"
| "sort_keys (JFloat s) = JFloat s"
| "sort_keys (JStr s) = JStr s"
| "sort_keys (JArr xs) = JArr (map sort_keys xs)"
| "sort_keys (JObj fs) = JObj (sort_key fst (map (map_prod (\<lambda>k. k) sort_keys) fs))"

section \<open>Strings are printed unambiguously\<close>

text \<open>Reading a string literal back, up to the closing quote.\<close>

definition hex_value :: "nat \<Rightarrow> nat" where
  "hex_value c = (if c < 58 then c - 48 else c - 87)"

definition unescape :: "nat \<Rightarrow> nat" where
  "unescape e = (if e = 98 then 8 else if e = 116 then 9 else if e = 110 then 10 else if e = 102 then 12
                 else if e = 114 then 13 else e)"

fun unquote :: "jstr \<Rightarrow> jstr \<times> jstr" where
  "unquote [] = ([], [])"
| "unquote (c # r) =
     (if c = 34 then ([], r)
      else if c \<noteq> 92 then (case unquote r of (s, r') \<Rightarrow> (c # s, r'))
      else case r of
             [] \<Rightarrow> ([], [])
           | e # r1 \<Rightarrow>
               if e = 117 then
                 (case r1 of h3 # h2 # h1 # h0 # r2 \<Rightarrow>
                    (case unquote r2 of (s, r') \<Rightarrow>
                       ((((hex_value h3 * 16 + hex_value h2) * 16 + hex_value h1) * 16 + hex_value h0) # s, r'))
                  | _ \<Rightarrow> ([], []))
               else (case unquote r1 of (s, r') \<Rightarrow> (unescape e # s, r')))"

lemma hex_value_digit [simp]: "d < 16 \<Longrightarrow> hex_value (hex_digit d) = d"
  by (simp add: hex_value_def hex_digit_def)

declare unquote.simps(2) [simp del]

lemma unquote_steps:
  "unquote (34 # r) = ([], r)"
  "c \<noteq> 34 \<Longrightarrow> c \<noteq> 92 \<Longrightarrow> unquote (c # r) = (case unquote r of (s, r') \<Rightarrow> (c # s, r'))"
  "e \<noteq> 117 \<Longrightarrow> unquote (92 # e # r) = (case unquote r of (s, r') \<Rightarrow> (unescape e # s, r'))"
  by (simp_all add: unquote.simps(2))

lemma hex4_value: "((c div 4096 * 16 + c div 256 mod 16) * 16 + c div 16 mod 16) * 16 + c mod 16 = c" for c :: nat
proof -
  have "c div 4096 = c div 16 div 16 div 16" "c div 256 = c div 16 div 16" by (simp_all add: div_mult2_eq [symmetric])
  then show ?thesis by (simp only: div_mult_mod_eq)
qed

lemma unquote_hex:
  assumes "c < 0x10000"
  shows "unquote (92 # 117 # hex4 c @ r) = (case unquote r of (s, r') \<Rightarrow> (c # s, r'))"
proof -
  have "c div 4096 < 16" using assms by (simp add: div_less_iff_less_mult)
  then have "((hex_value (hex_digit (c div 4096)) * 16 + hex_value (hex_digit (c div 256 mod 16))) * 16
      + hex_value (hex_digit (c div 16 mod 16))) * 16 + hex_value (hex_digit (c mod 16)) = c"
    by (simp only: hex_value_digit mod_less_divisor zero_less_numeral hex4_value)
  then show ?thesis by (simp only: hex4_def unquote.simps(2) [of 92] list.map append_Cons append_Nil list.case if_True) simp
qed

lemma unquote_unit:
  assumes "c < 0x10000"
  shows "unquote (quote_unit c @ r) = (case unquote r of (s, r') \<Rightarrow> (c # s, r'))"
  using unquote_hex [OF assms, of r] by (simp add: quote_unit_def unescape_def unquote_steps)

lemma unquote_raw: "is_high c \<or> is_low c \<Longrightarrow> unquote (c # r) = (case unquote r of (s, r') \<Rightarrow> (c # s, r'))"
  by (rule unquote_steps(2)) (auto simp: surrogate_defs)

lemma unquote_quote: "units s \<Longrightarrow> unquote (quote_body s @ 34 # r) = (s, r)"
  by (induction s rule: quote_body.induct) (simp_all add: units_def unquote_unit unquote_raw unquote_steps(1))

lemma quote_json_prefix:
  assumes "units s" "units t" "quote_json s @ r = quote_json t @ r'"
  shows "s = t \<and> r = r'"
proof -
  from assms(3) have "quote_body s @ 34 # r = quote_body t @ 34 # r'" by (simp add: quote_json_def)
  then have "unquote (quote_body s @ 34 # r) = unquote (quote_body t @ 34 # r')" by (rule arg_cong)
  then show ?thesis unfolding unquote_quote [OF assms(1)] unquote_quote [OF assms(2)] by simp
qed

section \<open>The text determines the value\<close>

text \<open>The text of a value whose keys are in order already.\<close>

primrec print_json :: "json \<Rightarrow> jstr" where
  "print_json JNull = js ''null''"
| "print_json (JBool b) = (if b then js ''true'' else js ''false'')"
| "print_json (JInt n) = show_int n"
| "print_json (JFloat s) = s"
| "print_json (JStr s) = quote_json s"
| "print_json (JArr xs) = [91] @ join_with [44] (map print_json xs) @ [93]"
| "print_json (JObj fs) =
     [123] @ join_with [44] (map (\<lambda>(k, v). quote_json k @ [58] @ v) (map (map_prod (\<lambda>k. k) print_json) fs)) @ [125]"

lemma sort_key_map_value: "sort_key fst (map (map_prod (\<lambda>k. k) f) fs) = map (map_prod (\<lambda>k. k) f) (sort_key fst fs)"
  for fs :: "('a :: linorder \<times> 'b) list"
proof -
  have insert: "insort_key fst (map_prod (\<lambda>k. k) f p) (map (map_prod (\<lambda>k. k) f) ps) = map (map_prod (\<lambda>k. k) f) (insort_key fst p ps)"
    for p :: "'a \<times> 'b" and ps by (induction ps) auto
  show ?thesis by (induction fs) (simp_all add: insert)
qed

lemma canonical_print: "canonical v = print_json (sort_keys v)"
proof (induction v)
  case (JArr xs)
  then have "map canonical xs = map print_json (map sort_keys xs)" by simp
  then show ?case by (simp only: canonical.simps sort_keys.simps print_json.simps)
next
  case (JObj fs)
  have "map (map_prod (\<lambda>k. k) canonical) fs = map (map_prod (\<lambda>k. k) print_json) (map (map_prod (\<lambda>k. k) sort_keys) fs)"
    using JObj by (fastforce simp: prod.map_comp intro!: map_cong [OF refl])
  then show ?case by (simp only: canonical.simps sort_keys.simps print_json.simps sort_key_map_value)
qed simp_all

text \<open>What may follow a value: nothing, a comma or a closing bracket.\<close>

definition delimited :: "jstr \<Rightarrow> bool" where
  "delimited r \<longleftrightarrow> r = [] \<or> hd r \<in> {44, 93, 125}"

lemma show_nat_digits: "show_nat n \<noteq> [] \<and> (\<forall>c \<in> set (show_nat n). 48 \<le> c \<and> c \<le> 57)"
proof (induction n rule: show_nat.induct)
  case (1 n)
  have "48 + n mod 10 \<le> 57" using mod_less_divisor [of 10 n] by linarith
  then show ?case using 1 by (cases "n < 10") (auto simp: show_nat.simps [of n])
qed

lemma show_int_chars: "show_int n \<noteq> []" "c \<in> set (show_int n) \<Longrightarrow> 48 \<le> c \<and> c \<le> 57 \<or> c = 45"
  using show_nat_digits [of "nat n"] show_nat_digits [of "nat (- n)"] by (auto simp: show_int_def split: if_splits)

lemma show_int_inject: "show_int n = show_int m \<Longrightarrow> n = m"
proof -
  have head: "45 # t \<noteq> show_nat k" "show_nat k \<noteq> 45 # t" for t k using show_nat_digits [of k] by (auto dest: sym)
  assume "show_int n = show_int m"
  then show ?thesis by (auto simp: show_int_def head split: if_splits)
qed

definition is_number :: "json \<Rightarrow> bool" where
  "is_number v = (case v of JInt _ \<Rightarrow> True | JFloat _ \<Rightarrow> True | _ \<Rightarrow> False)"

lemma is_numberE:
  assumes "is_number v"
  obtains n where "v = JInt n" | t where "v = JFloat t"
  using assms by (auto simp: is_number_def split: json.splits)

lemma number_text:
  assumes "is_number v" "json_ok v"
  shows "print_json v \<noteq> []" "list_all number_char (print_json v)"
  using assms(2) show_int_chars
  by (cases rule: is_numberE [OF assms(1)]; auto simp: list_all_iff number_char_def)+

lemma number_inject:
  assumes "is_number v" "is_number w" "json_ok v" "json_ok w" "print_json v = print_json w"
  shows "v = w"
proof -
  have "46 \<notin> set (show_int n)" "101 \<notin> set (show_int n)" for n using show_int_chars(2) [of _ n] by fastforce+
  with assms(3-5) show ?thesis
    by (cases rule: is_numberE [OF assms(1)]; cases rule: is_numberE [OF assms(2)]) (auto dest: show_int_inject)
qed

lemma number_prefix:
  assumes "is_number v" "is_number w" "json_ok v" "json_ok w" "delimited r" "delimited r'"
    and "print_json v @ r = print_json w @ r'"
  shows "v = w \<and> r = r'"
proof -
  have "takeWhile number_char (print_json x @ q) = print_json x" if "is_number x" "json_ok x" "delimited q" for x q
    using number_text [OF that(1,2)] that(3)
    by (cases q) (auto simp: delimited_def takeWhile_append list_all_iff takeWhile_eq_all_conv number_char_def)
  from this [OF assms(1,3,5)] this [OF assms(2,4,6)] assms(7) have "print_json v = print_json w" by metis
  with number_inject [OF assms(1-4)] assms(7) show ?thesis by simp
qed

text \<open>The members of an array or of an object, each followed by a comma or by the closing bracket.\<close>

fun print_members :: "nat \<Rightarrow> jstr list \<Rightarrow> jstr" where
  "print_members e [] = [e]"
| "print_members e (x # xs) = 44 # x @ print_members e xs"

lemma join_members: "join_with [44] (x # xs) @ e # r = x @ print_members e xs @ r"
  by (induction xs arbitrary: x) simp_all

definition separates :: "'a set \<Rightarrow> 'a set \<Rightarrow> ('a \<Rightarrow> jstr) \<Rightarrow> bool" where
  "separates X Y f \<longleftrightarrow>
     (\<forall>x \<in> X. \<forall>y \<in> Y. \<forall>r r'. delimited r \<longrightarrow> delimited r' \<longrightarrow> f x @ r = f y @ r' \<longrightarrow> x = y \<and> r = r')"

lemma separatesD:
  "separates X Y f \<Longrightarrow> x \<in> X \<Longrightarrow> y \<in> Y \<Longrightarrow> delimited r \<Longrightarrow> delimited r' \<Longrightarrow> f x @ r = f y @ r' \<Longrightarrow> x = y \<and> r = r'"
  unfolding separates_def by blast

lemma delimited_members: "e \<in> {93, 125} \<Longrightarrow> delimited (print_members e xs @ r)"
  by (cases xs) (auto simp: delimited_def)

lemma members_prefix:
  assumes "separates (set xs) (set ys) f" "e \<in> {93, 125}"
    and "print_members e (map f xs) @ r = print_members e (map f ys) @ r'"
  shows "xs = ys \<and> r = r'"
  using assms(1,3)
proof (induction xs arbitrary: ys)
  case Nil
  then show ?case using assms(2) by (cases ys) auto
next
  case (Cons x xs)
  then obtain y zs where ys: "ys = y # zs" using assms(2) by (cases ys) auto
  with Cons.prems have "f x @ (print_members e (map f xs) @ r) = f y @ (print_members e (map f zs) @ r')" by simp
  then have "x = y \<and> print_members e (map f xs) @ r = print_members e (map f zs) @ r'"
    by (rule separatesD [OF Cons.prems(1), rotated -1]) (use ys delimited_members [OF assms(2)] in simp_all)
  moreover have "separates (set xs) (set zs) f" using Cons.prems(1) ys by (simp add: separates_def)
  ultimately show ?case using Cons.IH [of zs] ys by simp
qed

lemma list_prefix:
  assumes "separates (set xs) (set ys) f" "e \<in> {93, 125}" "\<And>x. x \<in> set xs \<union> set ys \<Longrightarrow> \<exists>c t. f x = c # t \<and> c \<noteq> e"
    and "join_with [44] (map f xs) @ e # r = join_with [44] (map f ys) @ e # r'"
  shows "xs = ys \<and> r = r'"
proof (cases "xs = [] \<or> ys = []")
  case True
  then show ?thesis using assms(4) assms(3) [of "hd xs"] assms(3) [of "hd ys"]
    by (cases xs; cases ys) (auto simp: join_members simp del: join_with.simps(2,3))
next
  case False
  then have "print_members e (map f xs) @ r = print_members e (map f ys) @ r'"
    using assms(4) by (cases xs; cases ys) (simp_all add: join_members del: join_with.simps(2,3))
  then show ?thesis by (rule members_prefix [OF assms(1,2)])
qed

text \<open>The first character tells the kind of a value.\<close>

primrec kind :: "json \<Rightarrow> nat" where
  "kind JNull = 110" | "kind (JBool b) = (if b then 116 else 102)" | "kind (JInt n) = 48" | "kind (JFloat s) = 48"
| "kind (JStr s) = 34" | "kind (JArr xs) = 91" | "kind (JObj fs) = 123"

definition kind_of_char :: "nat \<Rightarrow> nat" where
  "kind_of_char c = (if number_char c then 48 else c)"

lemma print_head:
  assumes "json_ok v"
  shows "\<exists>c t. print_json v = c # t \<and> kind_of_char c = kind v"
proof (cases "is_number v")
  case True
  then obtain c t where "print_json v = c # t" "number_char c" using number_text [OF True assms] by (cases "print_json v") auto
  moreover have "kind v = 48" using True by (rule is_numberE) simp_all
  ultimately show ?thesis by (simp add: kind_of_char_def)
qed (cases v, simp_all add: is_number_def js_def kind_of_char_def number_char_def quote_json_def)

lemma print_head_closing: "json_ok v \<Longrightarrow> \<exists>c t. print_json v = c # t \<and> c \<noteq> 93 \<and> c \<noteq> 125"
  using print_head [of v] by (cases v) (force simp: kind_of_char_def number_char_def)+

lemma print_kind:
  assumes "json_ok v" "json_ok w" "print_json v @ r = print_json w @ r'"
  shows "kind v = kind w"
  using print_head [OF assms(1)] print_head [OF assms(2)] assms(3) by auto

lemma json_ok_members [simp]:
  "json_ok (JArr xs) \<longleftrightarrow> (\<forall>x \<in> set xs. json_ok x)"
  "json_ok (JObj fs) \<longleftrightarrow> distinct (map fst fs) \<and> (\<forall>(k, v) \<in> set fs. units k \<and> json_ok v)"
  by (auto simp: list_all_iff case_prod_beta)

declare json_ok.simps(6,7) [simp del]

lemma print_prefix:
  assumes "json_ok v" "json_ok w" "delimited r" "delimited r'" "print_json v @ r = print_json w @ r'"
  shows "v = w \<and> r = r'"
  using assms
proof (induction v arbitrary: w r r')
  case (JArr xs)
  then obtain ys where w: "w = JArr ys" using print_kind [OF JArr.prems(1,2,5)] by (cases w) (auto split: if_splits)
  have ok: "\<forall>x \<in> set xs. json_ok x" "\<forall>y \<in> set ys. json_ok y" using JArr.prems(1,2) w by simp_all
  have "separates (set xs) (set ys) print_json" unfolding separates_def using JArr.IH ok by meson
  moreover have "join_with [44] (map print_json xs) @ 93 # r = join_with [44] (map print_json ys) @ 93 # r'"
    using JArr.prems(5) w by simp
  moreover have "\<exists>c t. print_json x = c # t \<and> c \<noteq> 93" if "x \<in> set xs \<union> set ys" for x
    using that ok print_head_closing by blast
  ultimately show ?case using list_prefix [of xs ys print_json 93 r r'] w by simp
next
  case (JObj fs)
  then obtain gs where w: "w = JObj gs" using print_kind [OF JObj.prems(1,2,5)] by (cases w) (auto split: if_splits)
  let ?f = "\<lambda>p. quote_json (fst p) @ 58 # print_json (snd p)"
  have "separates (set fs) (set gs) ?f"
    unfolding separates_def
  proof (intro ballI allI impI)
    fix x y q q' assume x: "x \<in> set fs" and y: "y \<in> set gs" and q: "delimited q" "delimited q'" and eq: "?f x @ q = ?f y @ q'"
    obtain k v l u where kv: "x = (k, v)" "y = (l, u)" by fastforce
    have ok: "units k" "units l" "json_ok v" "json_ok u" using JObj.prems(1,2) w x y kv by auto
    have "quote_json k @ (58 # print_json v @ q) = quote_json l @ (58 # print_json u @ q')" using eq kv by simp
    from quote_json_prefix [OF ok(1,2) this] have "k = l" "print_json v @ q = print_json u @ q'" by simp_all
    then show "x = y \<and> q = q'" using JObj.IH [OF x, of v u q q'] ok q kv by simp
  qed
  moreover have "join_with [44] (map ?f fs) @ 125 # r = join_with [44] (map ?f gs) @ 125 # r'"
    using JObj.prems(5) w by (simp add: comp_def case_prod_beta)
  ultimately show ?case using list_prefix [of fs gs ?f 125 r r'] w by (auto simp: quote_json_def)
next
  case (JStr t)
  then obtain u where w: "w = JStr u" using print_kind [OF JStr.prems(1,2,5)] by (cases w) (auto split: if_splits)
  then show ?case using JStr.prems quote_json_prefix [of t u r r'] by simp
next
  case (JInt n)
  then show ?case using number_prefix [of "JInt n" w r r'] print_kind [OF JInt.prems(1,2,5)]
    by (cases w) (simp_all add: is_number_def split: if_splits)
next
  case (JFloat n)
  then show ?case using number_prefix [of "JFloat n" w r r'] print_kind [OF JFloat.prems(1,2,5)]
    by (cases w) (simp_all add: is_number_def split: if_splits)
next
  case JNull
  then show ?case using print_kind [OF JNull.prems(1,2,5)] by (cases w) (simp_all split: if_splits)
next
  case (JBool b)
  then show ?case using print_kind [OF JBool.prems(1,2,5)] by (cases w) (simp_all split: if_splits)
qed

lemma json_ok_sort_keys: "json_ok v \<Longrightarrow> json_ok (sort_keys v)"
proof (induction v)
  case (JObj fs)
  have "distinct (map fst (sort_key fst fs))" using JObj.prems by (simp add: distinct_map) 
  then show ?case using JObj by (fastforce simp: sort_key_map_value comp_def)
qed simp_all

text \<open>The canonical text is faithful: two JSON values have the same text, and with it the same
  fingerprint, exactly when they are equal up to the order of their object keys.\<close>

lemma canonical_iff:
  assumes "json_ok v" "json_ok w"
  shows "canonical v = canonical w \<longleftrightarrow> sort_keys v = sort_keys w"
  using print_prefix [OF json_ok_sort_keys [OF assms(1)] json_ok_sort_keys [OF assms(2)], of "[]" "[]"]
  by (auto simp: canonical_print delimited_def)

end
