(* ===== verification/Requests.thy ===== *)
theory Requests
  imports Lifecycle Canonical
begin

text \<open>
  Durable workspace requests: \<^verbatim>\<open>RedisWorkspaceRequests\<close> of
  \<^verbatim>\<open>service/src/workspace-tools/requests.ts\<close> and the three \<^verbatim>\<open>Durable\<close> methods of
  \<^verbatim>\<open>service/src/bridge/store.ts\<close> it drives. Redis owns a request; a client submits, reads and
  cancels it, and any API replica that holds its claim advances it by one bounded transition.

  A method that awaits several commands runs each of them at the clocks and on the store its
  environment gives: the \<open>n\<close>-th turn of a schedule. The text of an error message is an argument.
\<close>

section \<open>Requests and their keys\<close>

definition RETENTION_MS :: int where "RETENTION_MS = 24 * 60 * 60000"
definition CLAIM_MS :: int where "CLAIM_MS = 10000"

definition WORKSPACE_REQUEST_ID_PATTERN :: "jstr \<Rightarrow> bool" where
  "WORKSPACE_REQUEST_ID_PATTERN i \<longleftrightarrow> 16 \<le> length i \<and> length i \<le> 128
     \<and> list_all (\<lambda>c. is_letter c \<or> 48 \<le> c \<and> c \<le> 57 \<or> c = 95 \<or> c = 45) i"

record owner =
  ow_tenantId :: jstr
  ow_userId :: jstr

definition requestKey :: "host \<Rightarrow> owner \<Rightarrow> jstr \<Rightarrow> jstr \<Rightarrow> jstr" where
  "requestKey H owner requestId scope =
     js ''codeapi:workspace-requests:v1:''
     @ h_sha256 H (canonical (JArr [JStr scope, JStr (ow_tenantId owner), JStr (ow_userId owner), JStr requestId]))"

record submit_args =
  sa_owner :: owner
  sa_requestId :: jstr
  sa_workerId :: jstr
  sa_requireTenantBinding :: bool
  sa_request :: json
  sa_queueWaitMs :: int
  sa_executionTimeoutMs :: int

definition request_fingerprint :: "submit_args \<Rightarrow> digest" where
  "request_fingerprint a = Sha256 (canonical (JObj [(js ''workerId'', JStr (sa_workerId a)), (js ''request'', sa_request a),
     (js ''queueWaitMs'', JInt (sa_queueWaitMs a)), (js ''executionTimeoutMs'', JInt (sa_executionTimeoutMs a)),
     (js ''requireTenantBinding'', JBool (sa_requireTenantBinding a))]))"

definition admission_of :: "json \<Rightarrow> jstr" where
  "admission_of req = workspaceAdmissionId (or_empty (str_of (fld req ''workspaceId'')))
     (str_of (fld req ''workspaceInstanceId'')) (str_of (fld req ''worktree''))"

section \<open>The stored record\<close>

definition state_of :: "jstr \<Rightarrow> request_state option" where
  "state_of t = find (\<lambda>st. state_text st = t) [Queued, Admitted, Completed, Failed, Cancelled]"

definition pending :: "request_state \<Rightarrow> bool" where
  "pending st \<longleftrightarrow> st = Queued \<or> st = Admitted"

text \<open>What an outcome document adds to the record: the fields it has.\<close>

definition first_of :: "'a option \<Rightarrow> 'a option \<Rightarrow> 'a option" where
  "first_of x y = (case x of None \<Rightarrow> y | Some _ \<Rightarrow> x)"

definition with_outcome :: "durable_outcome \<Rightarrow> stored_request \<Rightarrow> stored_request" where
  "with_outcome o' r = r\<lparr>rq_result := first_of (do_result o') (rq_result r), rq_error := first_of (do_error o') (rq_error r),
     rq_settlement := first_of (do_settlement o') (rq_settlement r), rq_finishedAtMs := Some (do_finishedAtMs o')\<rparr>"

text \<open>\<^verbatim>\<open>read\<close>: the submitted record overlaid with the outcome and with the fields the scripts keep
  beside it. A state outside the five is unreachable and reads as no record.\<close>

definition overlay :: "(jstr \<Rightarrow> bjson sval option) \<Rightarrow> request_state \<Rightarrow> stored_request \<Rightarrow> stored_request" where
  "overlay m st r =
     (case m (js ''outcome'') of Some (Json (JOut o')) \<Rightarrow> with_outcome o' r | _ \<Rightarrow> r)
     \<lparr>rq_state := st,
      rq_assignment := (case m (js ''assignment'') of Some (Json (JAsg a)) \<Rightarrow> Some a | _ \<Rightarrow> None),
      rq_admittedAtMs := (case m (js ''admittedAtMs'') of Some (NumV n) \<Rightarrow> Some n | _ \<Rightarrow> None),
      rq_cancelRequested := (m (js ''cancelRequested'') = Some (Txt (js ''1'')))\<rparr>"

definition read_fields :: "(jstr \<Rightarrow> bjson sval option) \<Rightarrow> stored_request option" where
  "read_fields m =
     (case m (js ''record'') of
        Some (Json (JReq r)) \<Rightarrow>
          (case m (js ''state'') of Some (Txt t) \<Rightarrow> map_option (\<lambda>st. overlay m st r) (state_of t) | _ \<Rightarrow> None)
      | _ \<Rightarrow> None)"

definition read_request :: "int \<Rightarrow> jstr \<Rightarrow> bstore \<Rightarrow> stored_request option" where
  "read_request now key s = read_fields (HGET now s (RequestKey key))"

record request_status =
  ws_requestId :: jstr
  ws_state :: request_state
  ws_workerId :: jstr
  ws_workspaceId :: "json option"
  ws_workspaceInstanceId :: "json option"
  ws_worktree :: "json option"
  ws_queuePosition :: "nat option"
  ws_queueWaitMs :: int
  ws_executionDeadlineAt :: "int option"
  ws_cancelRequested :: bool
  ws_result :: "json option"
  ws_error :: "(jstr \<times> jstr) option"

definition status :: "int \<Rightarrow> int \<Rightarrow> stored_request \<Rightarrow> jstr \<Rightarrow> bstore \<Rightarrow> request_status" where
  "status now dateNow r requestId s =
     \<lparr>ws_requestId = requestId, ws_state = rq_state r, ws_workerId = rq_workerId r,
      ws_workspaceId = fld (rq_request r) ''workspaceId'', ws_workspaceInstanceId = fld (rq_request r) ''workspaceInstanceId'',
      ws_worktree = fld (rq_request r) ''worktree'',
      ws_queuePosition = (if rq_state r = Queued then position now (rq_workerId r) (rq_id r) s else None),
      ws_queueWaitMs = max 0 ((case rq_admittedAtMs r of Some n \<Rightarrow> n
          | None \<Rightarrow> min (case rq_finishedAtMs r of Some n \<Rightarrow> n | None \<Rightarrow> dateNow) (rq_queueDeadlineAtMs r)) - rq_createdAtMs r),
      ws_executionDeadlineAt = map_option expiresAt (rq_assignment r), ws_cancelRequested = rq_cancelRequested r,
      ws_result = rq_result r, ws_error = rq_error r\<rparr>"

section \<open>Selecting the worker\<close>

record durable_args =
  da_workerId :: jstr
  da_tenantId :: jstr
  da_requireTenantBinding :: bool
  da_request :: json
  da_executionTimeoutMs :: int
  da_queueWaitMs :: int

definition tenant_refused :: "bool \<Rightarrow> jstr \<Rightarrow> registration \<Rightarrow> bool" where
  "tenant_refused requireTenantBinding tenantId reg \<longleftrightarrow>
     (case r_binding reg of None \<Rightarrow> requireTenantBinding | Some b \<Rightarrow> bd_tenantId b \<noteq> tenantId)"

definition prepareDurableWorkspaceTool ::
  "host \<Rightarrow> store_config \<Rightarrow> durable_args \<Rightarrow> (registration \<times> jstr option) option \<Rightarrow> (bridge_error, registration) result" where
  "prepareDurableWorkspaceTool H cfg a current =
     (if \<not> isWorkspaceToolRequest H (da_request a) \<or> da_executionTimeoutMs a < 1 \<or> da_executionTimeoutMs a > 305000
         \<or> da_queueWaitMs a < 1 \<or> da_queueWaitMs a > 300000
      then Err (StoreError ASSIGNMENT_INVALID)
      else case current of
        None \<Rightarrow> Err (StoreError WORKER_OFFLINE)
      | Some (reg, _) \<Rightarrow>
          if tenant_refused (da_requireTenantBinding a) (da_tenantId a) reg then Err (StoreError WORKER_UNAUTHORIZED)
          else if lease_slots reg > maxWorkspaceLeaseSlots cfg \<or> \<not> supportsWorkspaceTool reg (da_request a)
          then Err (StoreError WORKER_MISMATCH)
          else Ok reg)"

section \<open>Submit, get, cancel\<close>

type_synonym schedule = "nat \<Rightarrow> turn"

datatype submit_error = BridgeError bridge_error | WorkspaceRequestConflict

definition new_request :: "host \<Rightarrow> jstr \<Rightarrow> submit_args \<Rightarrow> json \<Rightarrow> registration \<Rightarrow> jstr \<Rightarrow> int \<Rightarrow> stored_request" where
  "new_request H scope a req reg rid dateNow =
     \<lparr>rq_id = rid, rq_key = requestKey H (sa_owner a) (sa_requestId a) scope, rq_fingerprint = request_fingerprint a,
      rq_workerId = sa_workerId a, rq_tenantId = ow_tenantId (sa_owner a), rq_requireTenantBinding = sa_requireTenantBinding a,
      rq_request = req, rq_registration = reg, rq_createdAtMs = dateNow, rq_queueDeadlineAtMs = dateNow + sa_queueWaitMs a,
      rq_executionTimeoutMs = sa_executionTimeoutMs a, rq_assignment = None, rq_settlement = None, rq_admittedAtMs = None,
      rq_finishedAtMs = None, rq_state = Queued, rq_cancelRequested = False, rq_result = None, rq_error = None\<rparr>"

definition submit_record :: "int \<Rightarrow> int \<Rightarrow> jstr \<Rightarrow> stored_request \<Rightarrow> bstore \<Rightarrow> submission \<times> bstore" where
  "submit_record now dateNow scope r s =
     submit now dateNow (rq_workerId r) (rq_id r) (rq_queueDeadlineAtMs r) (Some (admission_of (rq_request r)))
       (rq_key r) scope (rq_fingerprint r) r RETENTION_MS s"

text \<open>What the submission did is read back and reported; a record that is gone by then is a failure.\<close>

definition submit_report :: "turn \<Rightarrow> jstr \<Rightarrow> jstr \<Rightarrow> submission \<Rightarrow> bstore \<Rightarrow> (submit_error, request_status) result \<times> bstore" where
  "submit_report t key requestId accepted s =
     (case accepted of
        Conflict \<Rightarrow> (Err WorkspaceRequestConflict, s)
      | Full \<Rightarrow> (Err (BridgeError (StoreError WORKER_QUEUE_FULL)), s)
      | _ \<Rightarrow>
          (case read_request (t_now t) key (t_others t s) of
             None \<Rightarrow> (Err (BridgeError PlainError), t_others t s)
           | Some r \<Rightarrow> (Ok (status (t_now t) (t_dateNow t) r requestId (t_others t s)), t_others t s)))"

text \<open>\<^verbatim>\<open>submit\<close>: \<open>prepare\<close> is what the caller's callback returned, if it has one, and \<open>rid\<close> the random
  id of a new record.\<close>

definition submit_request :: "host \<Rightarrow> store_config \<Rightarrow> schedule \<Rightarrow> jstr \<Rightarrow> submit_args
    \<Rightarrow> (bridge_error, json) result option \<Rightarrow> jstr \<Rightarrow> bstore \<Rightarrow> (submit_error, request_status) result \<times> bstore" where
  "submit_request H cfg e scope a prepare rid s =
     (if \<not> WORKSPACE_REQUEST_ID_PATTERN (sa_requestId a) then (Err (BridgeError (StoreError ASSIGNMENT_INVALID)), s)
      else
        let key = requestKey H (sa_owner a) (sa_requestId a) scope; s0 = t_others (e 0) s in
        case read_request (t_now (e 0)) key s0 of
          Some r \<Rightarrow>
            if rq_fingerprint r \<noteq> request_fingerprint a then (Err WorkspaceRequestConflict, s0)
            else (Ok (status (t_now (e 0)) (t_dateNow (e 0)) r (sa_requestId a) s0), s0)
        | None \<Rightarrow>
            let s1 = t_others (e 1) s0 in
            case prepareDurableWorkspaceTool H cfg \<lparr>da_workerId = sa_workerId a, da_tenantId = ow_tenantId (sa_owner a),
                   da_requireTenantBinding = sa_requireTenantBinding a, da_request = sa_request a,
                   da_executionTimeoutMs = sa_executionTimeoutMs a, da_queueWaitMs = sa_queueWaitMs a\<rparr>
                   (dispatchableRegistration (t_now (e 1)) (sa_workerId a) s1) of
              Err x \<Rightarrow> (Err (BridgeError x), s1)
            | Ok reg \<Rightarrow>
                (case prepare of
                   Some (Err x) \<Rightarrow> (Err (BridgeError x), s1)
                 | _ \<Rightarrow>
                     let req = (case prepare of Some (Ok v) \<Rightarrow> v | _ \<Rightarrow> sa_request a);
                         r = new_request H scope a req reg rid (t_dateNow (e 2));
                         (accepted, s2) = submit_record (t_now (e 2)) (t_dateNow (e 2)) scope r (t_others (e 2) s1)
                     in submit_report (e 3) key (sa_requestId a) accepted s2))"

definition get_request :: "host \<Rightarrow> int \<Rightarrow> int \<Rightarrow> jstr \<Rightarrow> owner \<Rightarrow> jstr \<Rightarrow> bstore \<Rightarrow> request_status option" where
  "get_request H now dateNow scope owner requestId s =
     (if \<not> WORKSPACE_REQUEST_ID_PATTERN requestId then None
      else map_option (\<lambda>r. status now dateNow r requestId s) (read_request now (requestKey H owner requestId scope) s))"

definition cancel_script :: "int \<Rightarrow> int \<Rightarrow> jstr \<Rightarrow> jstr \<Rightarrow> bstore \<Rightarrow> bstore" where
  "cancel_script now dateNow scope key s =
     (let st = HGET now s (RequestKey key) (js ''state'') in
      if st \<noteq> Some (Txt (state_text Queued)) \<and> st \<noteq> Some (Txt (state_text Admitted)) then s
      else ZADD now (ActiveKey scope) dateNow key (HSET now (RequestKey key) (js ''cancelRequested'') (Txt (js ''1'')) s))"

definition cancel_request :: "host \<Rightarrow> schedule \<Rightarrow> jstr \<Rightarrow> owner \<Rightarrow> jstr \<Rightarrow> bstore \<Rightarrow> request_status option \<times> bstore" where
  "cancel_request H e scope owner requestId s =
     (if \<not> WORKSPACE_REQUEST_ID_PATTERN requestId then (None, s)
      else let s1 = cancel_script (t_now (e 0)) (t_dateNow (e 0)) scope (requestKey H owner requestId scope) (t_others (e 0) s);
               s2 = t_others (e 1) s1
           in (get_request H (t_now (e 1)) (t_dateNow (e 1)) scope owner requestId s2, s2))"

section \<open>Advancing a request\<close>

definition failed_with :: "string \<Rightarrow> string \<Rightarrow> durable_outcome" where
  "failed_with code message =
     \<lparr>do_state = Failed, do_result = None, do_error = Some (js code, js message), do_settlement = None, do_finishedAtMs = 0\<rparr>"

definition queue_timeout :: durable_outcome where
  "queue_timeout = failed_with ''WORKSPACE_QUEUE_TIMEOUT'' ''Workspace admission deadline expired. The operation was not started.''"

definition just_cancelled :: durable_outcome where
  "just_cancelled = \<lparr>do_state = Cancelled, do_result = None, do_error = None, do_settlement = None, do_finishedAtMs = 0\<rparr>"

definition same_worker :: "registration \<Rightarrow> registration \<Rightarrow> bool" where
  "same_worker a b \<longleftrightarrow> r_incarnationId a = r_incarnationId b \<and> r_identityId a = r_identityId b
     \<and> map_option bd_tenantId (r_binding a) = map_option bd_tenantId (r_binding b)"

type_synonym advanced = "(bridge_error, durable_outcome option) result \<times> bstore"

text \<open>A queued request, first turn: cancelled, too late, or its worker is still the one it was submitted
  for.\<close>

definition advance_select :: "host \<Rightarrow> store_config \<Rightarrow> turn \<Rightarrow> stored_request \<Rightarrow> bstore
    \<Rightarrow> (bridge_error, durable_outcome + registration) result" where
  "advance_select H cfg t r s =
     (if rq_cancelRequested r then Ok (Inl just_cancelled)
      else if rq_queueDeadlineAtMs r \<le> t_dateNow t then Ok (Inl queue_timeout)
      else case prepareDurableWorkspaceTool H cfg \<lparr>da_workerId = rq_workerId r, da_tenantId = rq_tenantId r,
             da_requireTenantBinding = rq_requireTenantBinding r, da_request = rq_request r,
             da_executionTimeoutMs = rq_executionTimeoutMs r, da_queueWaitMs = max 1 (rq_queueDeadlineAtMs r - t_dateNow t)\<rparr>
             (dispatchableRegistration (t_now t) (rq_workerId r) s) of
        Err x \<Rightarrow> Err x
      | Ok reg \<Rightarrow> if same_worker reg (rq_registration r) then Ok (Inr reg) else Err (StoreError WORKER_FENCED))"

text \<open>Second and third turn: its place in the queue and the slot or lock. \<open>None\<close> is not yet.\<close>

definition advance_hold :: "turn \<Rightarrow> turn \<Rightarrow> stored_request \<Rightarrow> guard \<Rightarrow> registration \<Rightarrow> bstore
    \<Rightarrow> (bridge_error, nat option option) result \<times> bstore" where
  "advance_hold t1 t2 r g reg s =
     (let capacity = lease_slots reg;
          (turn, s1) = (if capacity = 1 then isHead (t_now t1) (t_dateNow t1) (rq_workerId r) (rq_id r) (t_others t1 s) else (True, s));
          s2 = t_others t2 s1;
          ttlSeconds = assignmentTtlSeconds (t_dateNow t2) (t_dateNow t2 + rq_executionTimeoutMs r)
      in if \<not> turn then (Ok None, s1)
         else if capacity > 1 then
           (case reserve (t_now t2) (t_dateNow t2) \<lparr>ra_workerId = rq_workerId r, ra_incarnationId = r_incarnationId reg,
                   ra_assignmentId = rq_id r, ra_workspaceId = admission_of (rq_request r), ra_capacity = capacity,
                   ra_expiresAtMs = t_dateNow t2 + ttlSeconds * 1000, ra_refreshOwned = True, ra_guard = Some g\<rparr> s2 of
              (Err x, s3) \<Rightarrow> (Err x, s3)
            | (Ok None, s3) \<Rightarrow> (Ok None, s3)
            | (Ok (Some n), s3) \<Rightarrow> (Ok (Some (Some n)), s3))
         else (case acquireLock (t_now t2) (rq_workerId r) (rq_id r) (r_incarnationId reg) ttlSeconds True (Some g) s2 of
                 (got, s3) \<Rightarrow> (Ok (if got then Some None else None), s3)))"

definition durable_assignment :: "stored_request \<Rightarrow> registration \<Rightarrow> nat option \<Rightarrow> int \<Rightarrow> jstr \<Rightarrow> int \<Rightarrow> assignment" where
  "durable_assignment r reg slot gen token dateNow =
     \<lparr>assignmentId = rq_id r, workerId = rq_workerId r, incarnationId = r_incarnationId reg,
      workspaceFence = Some (NATIVE_WORKSPACE_FENCE_PREFIX @ admission_of (rq_request r)), workspaceLeaseSlot = slot,
      generation = gen, leaseTokenHash = tokenHash token, workerIdentityId = r_identityId reg,
      expiresAt = dateNow + rq_executionTimeoutMs r, runtimeSessionId = None, durableRequestKey = Some (rq_key r),
      protocolVersion = 1, leaseToken = token, executionKind = Some WorkspaceTool, asgWorkspaceId = None,
      request = rq_request r\<rparr>"

text \<open>The rest: too late after all; a generation; the worker once more; the enqueue.\<close>

definition advance_enqueue :: "turn \<Rightarrow> turn \<Rightarrow> turn \<Rightarrow> stored_request \<Rightarrow> guard \<Rightarrow> registration \<Rightarrow> nat option \<Rightarrow> jstr \<Rightarrow> bstore
    \<Rightarrow> advanced" where
  "advance_enqueue t3 t4 t5 r g reg slot token s =
     (if rq_queueDeadlineAtMs r \<le> t_dateNow t3 then (Ok (Some queue_timeout), s)
      else
        let (gen, s1) = INCR (t_now t3) (GenerationKey (rq_workerId r)) (t_others t3 s);
            a = durable_assignment r reg slot gen token (t_dateNow t3);
            s2 = t_others t4 s1; lanes = lane_fences (t_now t4) a s2; s3 = t_others t5 s2 in
        case dispatchableRegistration (t_now t4) (rq_workerId r) s2 of
          None \<Rightarrow> (Err (StoreError WORKER_OFFLINE), s2)
        | Some (ready, readyToken) \<Rightarrow>
            if \<not> same_worker ready reg \<or> \<not> supportsWorkspaceTool ready (rq_request r) then (Err (StoreError WORKER_FENCED), s2)
            else (case enqueueForActiveIncarnation (t_now t5) (t_dateNow t5) a (assignmentTtlSeconds (t_dateNow t5) (expiresAt a))
                         readyToken (Some g) lanes s3 of
                    (Err x, s4) \<Rightarrow> (Err x, s4)
                  | (Ok _, s4) \<Rightarrow> (Ok None, s4)))"

definition advance_queued :: "host \<Rightarrow> store_config \<Rightarrow> schedule \<Rightarrow> stored_request \<Rightarrow> guard \<Rightarrow> jstr \<Rightarrow> bstore \<Rightarrow> advanced" where
  "advance_queued H cfg e r g token s =
     (let s0 = t_others (e 0) s in
      case advance_select H cfg (e 0) r s0 of
        Err x \<Rightarrow> (Err x, s0)
      | Ok (Inl o') \<Rightarrow> (Ok (Some o'), s0)
      | Ok (Inr reg) \<Rightarrow>
          (case advance_hold (e 1) (e 2) r g reg s0 of
             (Err x, s1) \<Rightarrow> (Err x, s1)
           | (Ok None, s1) \<Rightarrow> (Ok None, s1)
           | (Ok (Some slot), s1) \<Rightarrow> advance_enqueue (e 3) (e 4) (e 5) r g reg slot token s1))"

text \<open>An admitted request: the outcome a settlement means.\<close>

definition settled_outcome :: "host \<Rightarrow> stored_request \<Rightarrow> settlement \<Rightarrow> durable_outcome" where
  "settled_outcome H r x =
     (case st_outcome x of
        Fulfilled v \<Rightarrow>
          if \<not> isWorkspaceToolResult H (rq_request r) v (fld (r_capabilities (rq_registration r)) ''workspaceTools'')
          then failed_with ''RESULT_INVALID'' ''Code environment returned an invalid workspace result. Do not replay this operation.''
          else \<lparr>do_state = Completed, do_result = Some v, do_error = None, do_settlement = Some x, do_finishedAtMs = 0\<rparr>
      | Rejected message code \<Rightarrow>
          \<lparr>do_state = (if rq_cancelRequested r then Cancelled else Failed), do_result = None,
           do_error = Some (case code of None \<Rightarrow> js ''WORKSPACE_TOOL_REJECTED'' | Some c \<Rightarrow> c, message),
           do_settlement = Some x, do_finishedAtMs = 0\<rparr>)"

definition advance_admitted :: "host \<Rightarrow> turn \<Rightarrow> turn \<Rightarrow> turn list \<Rightarrow> turn list \<Rightarrow> stored_request \<Rightarrow> assignment \<Rightarrow> bstore \<Rightarrow> advanced" where
  "advance_admitted H t0 t1 polls grace r a s =
     (let s0 = t_others t0 s in
      case settlement_at (t_now t0) (rq_id r) s0 of
        Some x \<Rightarrow> (Ok (Some (settled_outcome H r x)), s0)
      | None \<Rightarrow>
          if \<not> rq_cancelRequested r \<and> t_dateNow t0 < expiresAt a then (Ok None, s0)
          else case waitForSettlement H (t_now t1) (t_dateNow t1) a (rq_cancelRequested r) (t_early t1) polls grace s0 of
            (Ok x, s1) \<Rightarrow> (Ok (Some (settled_outcome H r x)), s1)
          | (Err x, s1) \<Rightarrow>
              if x \<noteq> StoreError ASSIGNMENT_EXPIRED then (Err x, s1)
              else if rq_cancelRequested r \<and> \<not> isWorkspaceMutation (rq_request r) then (Ok (Some just_cancelled), s1)
              else (Ok (Some (failed_with ''ASSIGNMENT_EXPIRED''
                      ''Assignment ended without a confirmed result. Do not replay this operation.'')), s1))"

definition advanceDurableWorkspaceTool :: "host \<Rightarrow> store_config \<Rightarrow> schedule \<Rightarrow> turn list \<Rightarrow> turn list \<Rightarrow> stored_request \<Rightarrow> guard
    \<Rightarrow> jstr \<Rightarrow> bstore \<Rightarrow> advanced" where
  "advanceDurableWorkspaceTool H cfg e polls grace r g token s =
     (if rq_state r = Queued then advance_queued H cfg e r g token s
      else case rq_assignment r of None \<Rightarrow> (Err PlainError, s)
           | Some a \<Rightarrow> advance_admitted H (e 0) (e 1) polls grace r a s)"

text \<open>\<^verbatim>\<open>finishDurableWorkspaceTool\<close>: commit the workspace, clean up, leave the queue.\<close>

definition finishDurableWorkspaceTool :: "int \<Rightarrow> int \<Rightarrow> stored_request \<Rightarrow> bstore \<Rightarrow> (bridge_error, unit) result \<times> bstore" where
  "finishDurableWorkspaceTool now dateNow r s =
     (case rq_assignment r of
        None \<Rightarrow> (Ok (), leave now (rq_workerId r) (rq_id r)
                   (cleanupUnassignedSlot now dateNow (rq_workerId r) (r_incarnationId (rq_registration r)) (rq_id r) s))
      | Some a \<Rightarrow>
          (case (case rq_settlement r of None \<Rightarrow> (Ok (), s) | Some x \<Rightarrow> commitPendingWorkspace now a x (Some (rq_key r)) s) of
             (Err x, s1) \<Rightarrow> (Err x, s1)
           | (Ok _, s1) \<Rightarrow> (Ok (), leave now (rq_workerId r) (rq_id r) (cleanupDispatch now dateNow (rq_workerId r) (rq_id r) (Some a) s1))))"

section \<open>Claims\<close>

definition claim_script :: "int \<Rightarrow> int \<Rightarrow> jstr \<Rightarrow> jstr \<Rightarrow> jstr \<Rightarrow> bstore \<Rightarrow> bool \<times> bstore" where
  "claim_script now dateNow scope key token s =
     (if EXISTS now s (RequestClaimKey key) then (False, s)
      else (True, ZADD now (ActiveKey scope) (dateNow + CLAIM_MS) key (SETPX now CLAIM_MS (RequestClaimKey key) (Txt token) s)))"

definition unclaim_script :: "int \<Rightarrow> jstr \<Rightarrow> jstr \<Rightarrow> bstore \<Rightarrow> bstore" where
  "unclaim_script now key token s =
     (if GET now s (RequestClaimKey key) = Some (Txt token) then DEL (RequestClaimKey key) s else s)"

definition write_outcome :: "int \<Rightarrow> jstr \<Rightarrow> durable_outcome \<Rightarrow> bstore \<Rightarrow> bstore" where
  "write_outcome now key o' s =
     HSET now (RequestKey key) (js ''outcome'') (Json (JOut o'))
       (HSET now (RequestKey key) (js ''state'') (Txt (state_text (do_state o'))) s)"

definition finish_script :: "int \<Rightarrow> jstr \<Rightarrow> jstr \<Rightarrow> durable_outcome \<Rightarrow> bstore \<Rightarrow> bstore" where
  "finish_script now key token o' s =
     (let st = HGET now s (RequestKey key) (js ''state'') in
      if GET now s (RequestClaimKey key) \<noteq> Some (Txt token) then s
      else if st \<noteq> Some (Txt (state_text Queued)) \<and> st \<noteq> Some (Txt (state_text Admitted)) then s
      else write_outcome now key o' s)"

definition fail_script :: "int \<Rightarrow> jstr \<Rightarrow> jstr \<Rightarrow> durable_outcome \<Rightarrow> bstore \<Rightarrow> bstore" where
  "fail_script now key token o' s =
     (if GET now s (RequestClaimKey key) \<noteq> Some (Txt token) then s
      else if HGET now s (RequestKey key) (js ''state'') \<noteq> Some (Txt (state_text Queued)) then s
      else write_outcome now key o' s)"

fun code_text :: "store_code \<Rightarrow> jstr" where
  "code_text WORKER_OFFLINE = js ''WORKER_OFFLINE''"
| "code_text WORKER_UNAUTHORIZED = js ''WORKER_UNAUTHORIZED''"
| "code_text WORKER_BUSY = js ''WORKER_BUSY''"
| "code_text WORKER_QUEUE_FULL = js ''WORKER_QUEUE_FULL''"
| "code_text WORKSPACE_QUEUE_TIMEOUT = js ''WORKSPACE_QUEUE_TIMEOUT''"
| "code_text ASSIGNMENT_EXPIRED = js ''ASSIGNMENT_EXPIRED''"
| "code_text ASSIGNMENT_FENCED = js ''ASSIGNMENT_FENCED''"
| "code_text ASSIGNMENT_NOT_FOUND = js ''ASSIGNMENT_NOT_FOUND''"
| "code_text WORKER_FENCED = js ''WORKER_FENCED''"
| "code_text WORKER_QUARANTINED = js ''WORKER_QUARANTINED''"
| "code_text WORKSPACE_QUARANTINED = js ''WORKSPACE_QUARANTINED''"
| "code_text WORKER_MISMATCH = js ''WORKER_MISMATCH''"
| "code_text ASSIGNMENT_INVALID = js ''ASSIGNMENT_INVALID''"
| "code_text RESULT_INVALID = js ''RESULT_INVALID''"

definition failed_by :: "store_code \<Rightarrow> jstr \<Rightarrow> int \<Rightarrow> durable_outcome" where
  "failed_by c message dateNow =
     \<lparr>do_state = Failed, do_result = None, do_error = Some (code_text c, message), do_settlement = None, do_finishedAtMs = dateNow\<rparr>"

text \<open>One transition of a pending request: \<open>Ok True\<close> ends the turn, the worker being offline.\<close>

definition advance_pending :: "host \<Rightarrow> store_config \<Rightarrow> schedule \<Rightarrow> turn list \<Rightarrow> turn list \<Rightarrow> jstr \<Rightarrow> stored_request \<Rightarrow> guard
    \<Rightarrow> jstr \<Rightarrow> jstr \<Rightarrow> bstore \<Rightarrow> (bridge_error, bool) result \<times> bstore" where
  "advance_pending H cfg e polls grace scope r g secret message s =
     (case advanceDurableWorkspaceTool H cfg e polls grace r g secret s of (outcome, s1) \<Rightarrow>
      let key = g_key g; t = e 6; s2 = t_others t s1 in
      case outcome of
        Ok None \<Rightarrow> (Ok False, s1)
      | Ok (Some o') \<Rightarrow> (Ok False, finish_script (t_now t) key (g_token g) (o'\<lparr>do_finishedAtMs := t_dateNow t\<rparr>) s2)
      | Err PlainError \<Rightarrow> (Err PlainError, s1)
      | Err (StoreError c) \<Rightarrow>
          if c = WORKER_OFFLINE then (Ok True, ZADD (t_now t) (ActiveKey scope) (t_dateNow t + 250) key s2)
          else if map_option rq_state (read_request (t_now t) key s2) = Some Admitted then (Err (StoreError c), s2)
          else (Ok False, fail_script (t_now (e 7)) key (g_token g) (failed_by c message (t_dateNow (e 7))) (t_others (e 7) s2)))"

definition conclude :: "turn \<Rightarrow> jstr \<Rightarrow> jstr \<Rightarrow> stored_request \<Rightarrow> bstore \<Rightarrow> (bridge_error, unit) result \<times> bstore" where
  "conclude t scope key r s =
     (if pending (rq_state r) then (Ok (), ZADD (t_now t) (ActiveKey scope) (t_dateNow t + 250) key s)
      else case finishDurableWorkspaceTool (t_now t) (t_dateNow t) r s of
        (Err x, s1) \<Rightarrow> (Err x, s1)
      | (Ok _, s1) \<Rightarrow> (Ok (), ZREM (t_now t) (ActiveKey scope) key s1))"

definition advance_claimed :: "host \<Rightarrow> store_config \<Rightarrow> schedule \<Rightarrow> turn list \<Rightarrow> turn list \<Rightarrow> jstr \<Rightarrow> guard
    \<Rightarrow> jstr \<Rightarrow> jstr \<Rightarrow> bstore \<Rightarrow> (bridge_error, unit) result \<times> bstore" where
  "advance_claimed H cfg e polls grace scope g secret message s =
     (let key = g_key g; s0 = t_others (e 0) s in
      case read_request (t_now (e 0)) key s0 of
        None \<Rightarrow> (Ok (), ZREM (t_now (e 0)) (ActiveKey scope) key s0)
      | Some r \<Rightarrow>
          if \<not> pending (rq_state r) then conclude (e 9) scope key r (t_others (e 9) s0)
          else case advance_pending H cfg (\<lambda>n. e (Suc n)) polls grace scope r g secret message s0 of
            (Err x, s1) \<Rightarrow> (Err x, s1)
          | (Ok True, s1) \<Rightarrow> (Ok (), s1)
          | (Ok False, s1) \<Rightarrow>
              let s2 = t_others (e 9) s1 in
              case read_request (t_now (e 9)) key s2 of
                None \<Rightarrow> (Err PlainError, s2)
              | Some r' \<Rightarrow> conclude (e 10) scope key r' (t_others (e 10) s2))"

text \<open>\<^verbatim>\<open>advance\<close>: under the claim of this replica, which is released at the end in every case.\<close>

definition advance :: "host \<Rightarrow> store_config \<Rightarrow> schedule \<Rightarrow> turn list \<Rightarrow> turn list \<Rightarrow> jstr \<Rightarrow> jstr \<Rightarrow> jstr
    \<Rightarrow> jstr \<Rightarrow> jstr \<Rightarrow> bstore \<Rightarrow> (bridge_error, unit) result \<times> bstore" where
  "advance H cfg e polls grace scope key token secret message s =
     (case claim_script (t_now (e 0)) (t_dateNow (e 0)) scope key token (t_others (e 0) s) of
        (False, s1) \<Rightarrow> (Ok (), s1)
      | (True, s1) \<Rightarrow>
          (case advance_claimed H cfg (\<lambda>n. e (Suc n)) polls grace scope \<lparr>g_key = key, g_token = token\<rparr> secret message s1 of
             (res, s2) \<Rightarrow> (res, unclaim_script (t_now (e 12)) key token (t_others (e 12) s2))))"

text \<open>\<^verbatim>\<open>reconcile\<close>: at most 32 due keys are advanced.\<close>

definition due_requests :: "int \<Rightarrow> int \<Rightarrow> jstr \<Rightarrow> bstore \<Rightarrow> jstr list" where
  "due_requests now dateNow scope s = take 32 (ZRANGEBYSCORE now s (ActiveKey scope) dateNow)"

section \<open>The life of a request\<close>

text \<open>The abstract contract: what may happen to a live record, as \<^verbatim>\<open>read\<close> returns it. A pending one may
  be asked to cancel; a queued one that was not may be admitted; a pending one may end. Nothing happens
  to one that has ended.\<close>

definition fresh_request :: "stored_request \<Rightarrow> bool" where
  "fresh_request r \<longleftrightarrow> rq_state r = Queued \<and> \<not> rq_cancelRequested r \<and> rq_assignment r = None \<and> rq_admittedAtMs r = None
     \<and> rq_finishedAtMs r = None \<and> rq_result r = None \<and> rq_error r = None \<and> rq_settlement r = None"

definition admitted_as :: "assignment \<Rightarrow> int \<Rightarrow> stored_request \<Rightarrow> stored_request" where
  "admitted_as a t r = r\<lparr>rq_state := Admitted, rq_assignment := Some a, rq_admittedAtMs := Some t\<rparr>"

definition ended_with :: "durable_outcome \<Rightarrow> stored_request \<Rightarrow> stored_request" where
  "ended_with o' r = with_outcome o' r\<lparr>rq_state := do_state o'\<rparr>"

inductive life :: "stored_request \<Rightarrow> stored_request \<Rightarrow> bool" where
  idles: "life r r"
| asks: "pending (rq_state r) \<Longrightarrow> life r (r\<lparr>rq_cancelRequested := True\<rparr>)"
| admits: "rq_state r = Queued \<Longrightarrow> \<not> rq_cancelRequested r \<Longrightarrow> life r (admitted_as a t r)"
| ends: "pending (rq_state r) \<Longrightarrow> \<not> pending (do_state o') \<Longrightarrow> life r (ended_with o' r)"

inductive_cases lifeE: "life r r'"

inductive evolves :: "stored_request option \<Rightarrow> stored_request option \<Rightarrow> bool" where
  lives: "life r r' \<Longrightarrow> evolves (Some r) (Some r')"
| lapses: "evolves (Some r) None"
| submitted: "fresh_request r \<Longrightarrow> evolves None (Some r)"

text \<open>The scripts that write a request's record; every other script leaves it alone.\<close>

inductive request_script :: "int \<Rightarrow> bstore \<Rightarrow> bstore \<Rightarrow> bool" where
  submits: "fresh_request r \<Longrightarrow> request_script now s (snd (submit_record now dateNow scope r s))"
| cancels: "request_script now s (cancel_script now dateNow scope key s)"
| enqueues: "request_script now s (snd (enqueueForActiveIncarnation now dateNow a ttl tok g lanes s))"
| finishes: "\<not> pending (do_state o') \<Longrightarrow> request_script now s (finish_script now key token o' s)"
| fails: "\<not> pending (do_state o') \<Longrightarrow> request_script now s (fail_script now key token o' s)"
| others: "(\<And>key. s' (RequestKey key) = s (RequestKey key)) \<Longrightarrow> request_script now s s'"

inductive request_step :: "int \<times> bstore \<Rightarrow> int \<times> bstore \<Rightarrow> bool" where
  "now \<le> now' \<Longrightarrow> request_script now' s s' \<Longrightarrow> request_step (now, s) (now', s')"

end
