(* ===== verification/RequestLife.thy ===== *)
theory RequestLife
  imports Requests
begin

text \<open>
  The records of durable requests under every interleaving: each script keeps a record well formed and
  does to it, as \<^verbatim>\<open>read\<close> returns it, what the abstract life of a request allows.
\<close>

section \<open>Well-formed records\<close>

type_synonym fields = "jstr \<Rightarrow> bjson sval option"

definition field_states :: "request_state \<Rightarrow> fields \<Rightarrow> bool" where
  "field_states st m \<longleftrightarrow> m (js ''state'') = Some (Txt (state_text st))
     \<and> (st = Queued \<longrightarrow> m (js ''assignment'') = None \<and> m (js ''admittedAtMs'') = None)
     \<and> (st = Admitted \<longrightarrow> (\<exists>a n. m (js ''assignment'') = Some (Json (JAsg a)) \<and> m (js ''admittedAtMs'') = Some (NumV n)))
     \<and> (if pending st then m (js ''outcome'') = None else \<exists>o'. m (js ''outcome'') = Some (Json (JOut o')) \<and> do_state o' = st)"

definition fields_ok :: "fields \<Rightarrow> bool" where
  "fields_ok m \<longleftrightarrow>
     (\<exists>r. m (js ''record'') = Some (Json (JReq r)) \<and> fresh_request r \<and> m (js ''fingerprint'') = Some (Json (JDigest (rq_fingerprint r))))
     \<and> (\<exists>st. field_states st m)"

definition request_cell_ok :: "(bkey, bjson) cell option \<Rightarrow> bool" where
  "request_cell_ok c \<longleftrightarrow> c = None \<or> (\<exists>h t. c = Some (RHash h, Some t) \<and> fields_ok (map_of h))"

definition requests_ok :: "int \<times> bstore \<Rightarrow> bool" where
  "requests_ok c \<longleftrightarrow> (\<forall>key. request_cell_ok (snd c (RequestKey key)))"

lemma state_of_text [simp]: "state_of (state_text st) = Some st"
  by (cases st) (simp_all add: state_of_def)

lemma state_text_inject [simp]: "state_text st = state_text st' \<longleftrightarrow> st = st'"
  by (cases st; cases st') simp_all

declare state_text.simps [simp del]

lemma fields_okE:
  assumes "fields_ok m"
  obtains r0 st where "m (js ''record'') = Some (Json (JReq r0))" "fresh_request r0"
    "m (js ''fingerprint'') = Some (Json (JDigest (rq_fingerprint r0)))" "field_states st m" "read_fields m = Some (overlay m st r0)"
  using assms unfolding fields_ok_def by (auto simp: read_fields_def field_states_def)

lemma fields_okI:
  assumes "m (js ''record'') = Some (Json (JReq r0))" "fresh_request r0"
    "m (js ''fingerprint'') = Some (Json (JDigest (rq_fingerprint r0)))" "field_states st m"
  shows "fields_ok m" "read_fields m = Some (overlay m st r0)"
  using assms unfolding fields_ok_def by (auto simp: read_fields_def field_states_def)

lemma overlay_simps [simp]:
  "rq_state (overlay m st r) = st" "rq_fingerprint (overlay m st r) = rq_fingerprint r"
  "rq_cancelRequested (overlay m st r) \<longleftrightarrow> m (js ''cancelRequested'') = Some (Txt (js ''1''))"
  by (simp_all add: overlay_def with_outcome_def split: option.splits sval.splits bjson.splits)

lemma overlay_typed:
  assumes "fresh_request r" "field_states st m"
  shows "(st = Queued \<longrightarrow> rq_assignment (overlay m st r) = None \<and> rq_admittedAtMs (overlay m st r) = None)
    \<and> (st = Admitted \<longrightarrow> rq_assignment (overlay m st r) \<noteq> None \<and> rq_admittedAtMs (overlay m st r) \<noteq> None)
    \<and> (pending st \<longleftrightarrow> rq_finishedAtMs (overlay m st r) = None)"
  using assms by (cases st) (auto simp: field_states_def overlay_def fresh_request_def with_outcome_def pending_def)

lemma fields_typed:
  assumes "fields_ok m" "read_fields m = Some r"
  shows "m (js ''state'') = Some (Txt (state_text (rq_state r)))"
    "rq_state r = Queued \<longrightarrow> rq_assignment r = None \<and> rq_admittedAtMs r = None"
    "rq_state r = Admitted \<longrightarrow> rq_assignment r \<noteq> None \<and> rq_admittedAtMs r \<noteq> None"
    "pending (rq_state r) \<longleftrightarrow> rq_finishedAtMs r = None"
proof -
  from assms obtain r0 st where r: "fresh_request r0" "field_states st m" "r = overlay m st r0" by (auto elim: fields_okE)
  from overlay_typed [OF r(1,2)] show "rq_state r = Queued \<longrightarrow> rq_assignment r = None \<and> rq_admittedAtMs r = None"
    "rq_state r = Admitted \<longrightarrow> rq_assignment r \<noteq> None \<and> rq_admittedAtMs r \<noteq> None" "pending (rq_state r) \<longleftrightarrow> rq_finishedAtMs r = None"
    unfolding r(3) overlay_simps by simp_all
  show "m (js ''state'') = Some (Txt (state_text (rq_state r)))" using r(2,3) by (simp add: field_states_def)
qed

text \<open>What the scripts write.\<close>

lemma fields_cancel:
  assumes "fields_ok m" "read_fields m = Some r"
  shows "fields_ok (m(js ''cancelRequested'' \<mapsto> Txt (js ''1'')))
    \<and> read_fields (m(js ''cancelRequested'' \<mapsto> Txt (js ''1''))) = Some (r\<lparr>rq_cancelRequested := True\<rparr>)"
proof -
  let ?m = "m(js ''cancelRequested'' \<mapsto> Txt (js ''1''))"
  from assms(1) show ?thesis
  proof (rule fields_okE)
    fix r0 st assume m: "m (js ''record'') = Some (Json (JReq r0))" "fresh_request r0"
      "m (js ''fingerprint'') = Some (Json (JDigest (rq_fingerprint r0)))" "field_states st m" "read_fields m = Some (overlay m st r0)"
    have "overlay ?m st r0 = r\<lparr>rq_cancelRequested := True\<rparr>" using m(5) assms(2) by (auto simp: overlay_def)
    moreover have "field_states st ?m" using m(4) by (simp add: field_states_def)
    ultimately show ?thesis using fields_okI [of ?m r0 st] m(1-3) by simp
  qed
qed

lemma fields_admit:
  assumes "fields_ok m" "read_fields m = Some r" "rq_state r = Queued"
  shows "fields_ok (m(js ''state'' \<mapsto> Txt (state_text Admitted), js ''assignment'' \<mapsto> Json (JAsg a), js ''admittedAtMs'' \<mapsto> NumV t))
    \<and> read_fields (m(js ''state'' \<mapsto> Txt (state_text Admitted), js ''assignment'' \<mapsto> Json (JAsg a), js ''admittedAtMs'' \<mapsto> NumV t))
      = Some (admitted_as a t r)"
proof -
  let ?m = "m(js ''state'' \<mapsto> Txt (state_text Admitted), js ''assignment'' \<mapsto> Json (JAsg a), js ''admittedAtMs'' \<mapsto> NumV t)"
  from assms(1) show ?thesis
  proof (rule fields_okE)
    fix r0 st assume m: "m (js ''record'') = Some (Json (JReq r0))" "fresh_request r0"
      "m (js ''fingerprint'') = Some (Json (JDigest (rq_fingerprint r0)))" "field_states st m" "read_fields m = Some (overlay m st r0)"
    have "overlay ?m Admitted r0 = admitted_as a t r" using m(5) assms(2) by (auto simp: overlay_def admitted_as_def)
    moreover have "field_states Admitted ?m" using m(4,5) assms(2,3) by (auto simp: field_states_def pending_def)
    ultimately show ?thesis using fields_okI [of ?m r0 Admitted] m(1-3) by simp
  qed
qed

lemma fields_end:
  assumes "fields_ok m" "read_fields m = Some r" "pending (rq_state r)" "\<not> pending (do_state o')"
  shows "fields_ok (m(js ''state'' \<mapsto> Txt (state_text (do_state o')), js ''outcome'' \<mapsto> Json (JOut o')))
    \<and> read_fields (m(js ''state'' \<mapsto> Txt (state_text (do_state o')), js ''outcome'' \<mapsto> Json (JOut o'))) = Some (ended_with o' r)"
proof -
  let ?m = "m(js ''state'' \<mapsto> Txt (state_text (do_state o')), js ''outcome'' \<mapsto> Json (JOut o'))"
  from assms(1) show ?thesis
  proof (rule fields_okE)
    fix r0 st assume m: "m (js ''record'') = Some (Json (JReq r0))" "fresh_request r0"
      "m (js ''fingerprint'') = Some (Json (JDigest (rq_fingerprint r0)))" "field_states st m" "read_fields m = Some (overlay m st r0)"
    have "m (js ''outcome'') = None" using m(4,5) assms(2,3) by (auto simp: field_states_def)
    then have "overlay ?m (do_state o') r0 = ended_with o' r"
      using m(5) assms(2) by (auto simp: overlay_def ended_with_def with_outcome_def)
    moreover have "field_states (do_state o') ?m" using assms(4) by (auto simp: field_states_def pending_def)
    ultimately show ?thesis using fields_okI [of ?m r0 "do_state o'"] m(1-3) by simp
  qed
qed

lemma fields_submit:
  assumes "fresh_request r" "m (js ''record'') = Some (Json (JReq r))" "m (js ''fingerprint'') = Some (Json (JDigest (rq_fingerprint r)))"
    "m (js ''state'') = Some (Txt (state_text Queued))" "m (js ''assignment'') = None" "m (js ''admittedAtMs'') = None"
    "m (js ''outcome'') = None" "m (js ''cancelRequested'') = None"
  shows "fields_ok m \<and> read_fields m = Some r"
proof -
  have "field_states Queued m" using assms by (simp add: field_states_def pending_def)
  moreover have "overlay m Queued r = r" using assms by (simp add: overlay_def fresh_request_def)
  ultimately show ?thesis using fields_okI [of m r Queued] assms by simp
qed

section \<open>What a script does to a record\<close>

lemma HSET_cell: "HSET now k f v s k = Some (RHash (AList.update f v (hash_at now s k)), expiry_at now s k)"
proof -
  have "AList.update f v h \<noteq> []" for h :: "'b hash" by (cases h) auto
  then show ?thesis by (simp add: HSET_def store_hash_def put_def)
qed

lemma hash_at_HSET: "hash_at now (HSET now k f v s) k = AList.update f v (hash_at now s k)"
  by (simp add: HSET_def hash_at_store_hash)

lemma expiry_at_HSET: "expiry_at now (HSET now k f v s) k = expiry_at now s k"
proof -
  have "peek now (HSET now k f v s) k = Some (RHash (AList.update f v (hash_at now s k)), expiry_at now s k)"
    using live_expiry [of now s k] by (simp add: peek_def HSET_cell)
  then show ?thesis by (simp add: expiry_at_def)
qed

lemmas HSET_cells = HSET_cell hash_at_HSET expiry_at_HSET

definition cell_life :: "int \<Rightarrow> (bkey, bjson) cell option \<Rightarrow> (bkey, bjson) cell option \<Rightarrow> bool" where
  "cell_life now c c' \<longleftrightarrow> c' = c
     \<or> (\<exists>h t h' r r'. c = Some (RHash h, Some t) \<and> now \<le> t \<and> c' = Some (RHash h', Some t) \<and> fields_ok (map_of h')
          \<and> read_fields (map_of h) = Some r \<and> read_fields (map_of h') = Some r' \<and> life r r')
     \<or> ((\<forall>x. c = Some x \<longrightarrow> \<not> live now (snd x)) \<and> (\<exists>h' t r. c' = Some (RHash h', Some t) \<and> now \<le> t \<and> fields_ok (map_of h')
          \<and> read_fields (map_of h') = Some r \<and> fresh_request r))"

lemma cell_lifeI:
  assumes "c = Some (RHash h, Some t)" "now \<le> t" "read_fields (map_of h) = Some r" "life r r'" "c' = Some (RHash h', Some t)"
    "fields_ok (map_of h') \<and> read_fields (map_of h') = Some r'"
  shows "cell_life now c c'"
  unfolding cell_life_def using assms by blast

lemma cell_life_same [simp]: "cell_life now c c"
  by (simp add: cell_life_def)

lemma live_record:
  assumes "request_cell_ok (s (RequestKey key))" "HGET now s (RequestKey key) f \<noteq> None"
  obtains h t r where "s (RequestKey key) = Some (RHash h, Some t)" "now \<le> t" "hash_at now s (RequestKey key) = h"
    "expiry_at now s (RequestKey key) = Some t" "fields_ok (map_of h)" "read_fields (map_of h) = Some r"
    "HGET now s (RequestKey key) = map_of h" "map_of h (js ''state'') = Some (Txt (state_text (rq_state r)))"
proof -
  from assms obtain h t where c: "s (RequestKey key) = Some (RHash h, Some t)" "now \<le> t" "fields_ok (map_of h)"
    by (auto simp: request_cell_ok_def HGET_def hash_at_def peek_def live_def split: option.splits if_splits)
  moreover have "hash_at now s (RequestKey key) = h" "expiry_at now s (RequestKey key) = Some t"
    using c by (simp_all add: hash_at_def expiry_at_def peek_def live_def)
  moreover from c(3) obtain r where "read_fields (map_of h) = Some r" "map_of h (js ''state'') = Some (Txt (state_text (rq_state r)))"
    by (rule fields_okE) (simp add: field_states_def)
  moreover have "HGET now s (RequestKey key) = map_of h" using calculation(4) by (simp add: HGET_def fun_eq_iff)
  ultimately show ?thesis by (intro that)
qed

lemma cancel_life:
  assumes "request_cell_ok (s (RequestKey k))"
  shows "cell_life now (s (RequestKey k)) (cancel_script now dateNow scope key s (RequestKey k))"
proof (cases "k = key \<and> HGET now s (RequestKey key) (js ''state'') \<in> {Some (Txt (state_text Queued)), Some (Txt (state_text Admitted))}")
  case True
  then have "HGET now s (RequestKey k) (js ''state'') \<noteq> None" by auto
  with assms show ?thesis
  proof (rule live_record)
    fix h t r assume r: "s (RequestKey k) = Some (RHash h, Some t)" "now \<le> t" "hash_at now s (RequestKey k) = h"
      "expiry_at now s (RequestKey k) = Some t" "fields_ok (map_of h)" "read_fields (map_of h) = Some r"
      "HGET now s (RequestKey k) = map_of h" "map_of h (js ''state'') = Some (Txt (state_text (rq_state r)))"
    have "pending (rq_state r)" using True r(7,8) by (auto simp: pending_def)
    then have "life r (r\<lparr>rq_cancelRequested := True\<rparr>)" by (rule life.asks)
    moreover have "cancel_script now dateNow scope key s (RequestKey k)
        = Some (RHash (AList.update (js ''cancelRequested'') (Txt (js ''1'')) h), Some t)"
      using True r(3,4) by (auto simp: cancel_script_def Let_def redis_frame HSET_cell)
    ultimately show ?thesis by (rule cell_lifeI [OF r(1,2,6)]) (simp add: update_conv' fields_cancel [OF r(5,6)])
  qed
next
  case False
  then have "cancel_script now dateNow scope key s (RequestKey k) = s (RequestKey k)"
    by (auto simp: cancel_script_def Let_def redis_frame)
  then show ?thesis by simp
qed

lemma write_outcome_life:
  assumes "request_cell_ok (s (RequestKey k))" "\<not> pending (do_state o')"
    and "HGET now s (RequestKey key) (js ''state'') \<in> {Some (Txt (state_text Queued)), Some (Txt (state_text Admitted))}"
  shows "cell_life now (s (RequestKey k)) (write_outcome now key o' s (RequestKey k))"
proof (cases "k = key")
  case True
  then have "HGET now s (RequestKey k) (js ''state'') \<noteq> None" using assms(3) by auto
  with assms(1) show ?thesis
  proof (rule live_record)
    fix h t r assume r: "s (RequestKey k) = Some (RHash h, Some t)" "now \<le> t" "hash_at now s (RequestKey k) = h"
      "expiry_at now s (RequestKey k) = Some t" "fields_ok (map_of h)" "read_fields (map_of h) = Some r"
      "HGET now s (RequestKey k) = map_of h" "map_of h (js ''state'') = Some (Txt (state_text (rq_state r)))"
    have p: "pending (rq_state r)" using assms(3) True r(7,8) by (auto simp: pending_def)
    then have "life r (ended_with o' r)" using assms(2) by (rule life.ends)
    moreover have "write_outcome now key o' s (RequestKey k) = Some (RHash (AList.update (js ''outcome'') (Json (JOut o'))
        (AList.update (js ''state'') (Txt (state_text (do_state o'))) h)), Some t)"
      using True r(3,4) by (simp add: write_outcome_def HSET_cells)
    ultimately show ?thesis by (rule cell_lifeI [OF r(1,2,6)]) (simp add: update_conv' fields_end [OF r(5,6) p assms(2)])
  qed
qed (simp add: write_outcome_def redis_frame)

lemma enqueue_commit_request:
  "enqueue_commit now a ttl lanes g ottl s (RequestKey k) = admit_request now a g s (RequestKey k)"
proof -
  let ?t = "give_receipt now a ottl (raise_fence now a (open_deadline a (bind_lock now a ttl (queue_assignment now a ttl (unindex_lanes now a lanes s)))))"
  have t: "?t (RequestKey j) = s (RequestKey j)" for j by (simp add: enqueue_cells fence_key_def fence_keys split: option.split)
  have "hash_at now ?t (RequestKey j) = hash_at now s (RequestKey j)" "expiry_at now ?t (RequestKey j) = expiry_at now s (RequestKey j)" for j
    using t [of j] by (simp_all add: hash_at_def expiry_at_def peek_def)
  then have "admit_request now a g ?t (RequestKey k) = admit_request now a g s (RequestKey k)"
    using t by (cases g; cases "k = g_key (the g)") (simp_all add: admit_request_def HSET_cells redis_frame)
  then show ?thesis by (simp add: enqueue_commit_def)
qed

lemma admit_life:
  assumes "request_cell_ok (s (RequestKey k))" "durableAdmissionFence now s g"
  shows "cell_life now (s (RequestKey k)) (admit_request now a (Some g) s (RequestKey k))"
proof (cases "k = g_key g")
  case True
  have f: "HGET now s (RequestKey k) (js ''state'') = Some (Txt (state_text Queued))"
      "HGET now s (RequestKey k) (js ''cancelRequested'') \<noteq> Some (Txt (js ''1''))"
    using assms(2) True by (simp_all add: durableAdmissionFence_def)
  then have "HGET now s (RequestKey k) (js ''state'') \<noteq> None" by simp
  with assms(1) show ?thesis
  proof (rule live_record)
    fix h t r assume r: "s (RequestKey k) = Some (RHash h, Some t)" "now \<le> t" "hash_at now s (RequestKey k) = h"
      "expiry_at now s (RequestKey k) = Some t" "fields_ok (map_of h)" "read_fields (map_of h) = Some r"
      "HGET now s (RequestKey k) = map_of h" "map_of h (js ''state'') = Some (Txt (state_text (rq_state r)))"
    have q: "rq_state r = Queued" using f(1) r(7,8) by simp
    moreover have "\<not> rq_cancelRequested r" using f(2) r(5-7) by (auto elim!: fields_okE)
    ultimately have "life r (admitted_as a now r)" by (rule life.admits)
    moreover have "admit_request now a (Some g) s (RequestKey k) = Some (RHash (AList.update (js ''admittedAtMs'') (NumV now)
        (AList.update (js ''assignment'') (Json (JAsg a)) (AList.update (js ''state'') (Txt (state_text Admitted)) h))), Some t)"
      using True r(3,4) by (simp add: admit_request_def HSET_cells)
    ultimately show ?thesis
      by (rule cell_lifeI [OF r(1,2,6)]) (simp add: update_conv' fields_admit [OF r(5,6) q])
  qed
qed (simp add: admit_request_def redis_frame)

lemma enqueue_life:
  assumes "request_cell_ok (s (RequestKey k))"
  shows "cell_life now (s (RequestKey k)) (snd (enqueueForActiveIncarnation now dateNow a ttl tok g lanes s) (RequestKey k))"
proof -
  have "enqueue_guarded now a g s \<Longrightarrow> cell_life now (s (RequestKey k)) (admit_request now a g s (RequestKey k))"
    using admit_life [of s k now _ a] assms by (cases g) (auto simp: enqueue_guarded_def admit_request_def)
  then show ?thesis by (simp add: enqueueForActiveIncarnation_def enqueue_commit_request)
qed

lemma touch_admission_request: "push_admission now w i d ws s (RequestKey k) = s (RequestKey k)"
  by (simp add: push_admission_def touch_admission_def INCR_def Let_def redis_frame split: option.split)

lemma dead_record:
  assumes "request_cell_ok (s (RequestKey k))" "HGET now s (RequestKey k) (js ''fingerprint'') = None"
  shows "peek now s (RequestKey k) = None"
proof (rule ccontr)
  assume "peek now s (RequestKey k) \<noteq> None"
  with assms(1) obtain h t where c: "s (RequestKey k) = Some (RHash h, Some t)" "now \<le> t" "fields_ok (map_of h)"
    by (auto simp: request_cell_ok_def peek_def live_def split: option.splits if_splits)
  then have "HGET now s (RequestKey k) = map_of h" by (simp add: HGET_def hash_at_def peek_def live_def fun_eq_iff)
  with c(3) assms(2) show False by (auto elim: fields_okE)
qed

definition new_fields :: "stored_request \<Rightarrow> bjson hash" where
  "new_fields r = [(js ''record'', Json (JReq r)), (js ''fingerprint'', Json (JDigest (rq_fingerprint r))),
     (js ''state'', Txt (state_text Queued)), (js ''queueDeadlineAtMs'', NumV (rq_queueDeadlineAtMs r))]"

lemma new_record:
  assumes "peek now s k = None"
  shows "PEXPIRE now k RETENTION_MS (HSET now k (js ''queueDeadlineAtMs'') (NumV (rq_queueDeadlineAtMs r))
     (HSET now k (js ''state'') (Txt (state_text Queued)) (HSET now k (js ''fingerprint'') (Json (JDigest (rq_fingerprint r)))
       (HSET now k (js ''record'') (Json (JReq r)) s)))) k = Some (RHash (new_fields r), Some (now + RETENTION_MS))" (is "PEXPIRE _ _ _ ?t k = _")
proof -
  have "hash_at now s k = []" "expiry_at now s k = None" using assms by (simp_all add: hash_at_def expiry_at_def)
  then have "?t k = Some (RHash (new_fields r), None)" by (simp add: HSET_cells new_fields_def)
  then have "peek now ?t k = Some (RHash (new_fields r), None)" by (simp add: peek_def)
  then show ?thesis by (simp add: PEXPIRE_def PEXPIREAT_def put_def RETENTION_MS_def)
qed

lemma submit_accepted:
  assumes "submit_record now dateNow scope r s = (Accepted, s')" "request_cell_ok (s (RequestKey (rq_key r)))"
  shows "peek now s (RequestKey (rq_key r)) = None \<and> s' (RequestKey (rq_key r)) = Some (RHash (new_fields r), Some (now + RETENTION_MS))"
proof -
  let ?s1 = "push_admission now (rq_workerId r) (rq_id r) (rq_queueDeadlineAtMs r) (Some (admission_of (rq_request r)))
      (drop_expired now (rq_workerId r) dateNow s)"
  let ?k = "RequestKey (rq_key r)"
  have s1: "?s1 ?k = s ?k" by (simp add: touch_admission_request drop_expired_frame)
  have "HGET now s ?k (js ''fingerprint'') = None"
    using assms(1) by (auto simp: submit_record_def submit_def split: option.splits if_splits)
  then have dead: "peek now s ?k = None" using dead_record [of s "rq_key r" now] assms(2) by simp
  then have "peek now ?s1 ?k = None" using s1 by (simp add: peek_def)
  from new_record [OF this, of r] dead show ?thesis
    using assms(1) by (auto simp: submit_record_def submit_def Let_def redis_frame split: option.splits if_splits)
qed

lemma new_fields_ok: "fresh_request r \<Longrightarrow> fields_ok (map_of (new_fields r)) \<and> read_fields (map_of (new_fields r)) = Some r"
  by (rule fields_submit) (simp_all add: new_fields_def)

lemma submit_life:
  assumes "request_cell_ok (s (RequestKey k))" "fresh_request r"
  shows "cell_life now (s (RequestKey k)) (snd (submit_record now dateNow scope r s) (RequestKey k))"
proof (cases "k = rq_key r \<and> fst (submit_record now dateNow scope r s) = Accepted")
  case True
  then have "peek now s (RequestKey k) = None"
      "snd (submit_record now dateNow scope r s) (RequestKey k) = Some (RHash (new_fields r), Some (now + RETENTION_MS))"
    using submit_accepted [of now dateNow scope r s "snd (submit_record now dateNow scope r s)"] assms(1) by (simp_all add: prod_eq_iff)
  then show ?thesis using new_fields_ok [OF assms(2)] assms(2)
    by (auto simp: cell_life_def RETENTION_MS_def peek_def split: if_splits)
next
  case False
  then have "snd (submit_record now dateNow scope r s) (RequestKey k) = s (RequestKey k)"
    by (auto simp: submit_record_def submit_def Let_def redis_frame touch_admission_request drop_expired_frame split: option.splits if_splits)
  then show ?thesis by simp
qed

lemma script_life:
  assumes "request_script now s s'" "request_cell_ok (s (RequestKey k))"
  shows "cell_life now (s (RequestKey k)) (s' (RequestKey k))"
  using assms(1)
proof cases
  case (finishes o' key token)
  then show ?thesis using write_outcome_life [of s k o' now key] assms(2) by (auto simp: finish_script_def Let_def)
next
  case (fails o' key token)
  then show ?thesis using write_outcome_life [of s k o' now key] assms(2) by (auto simp: fail_script_def)
qed (use assms(2) submit_life cancel_life enqueue_life in auto)

lemma cell_life_ok: "cell_life now c c' \<Longrightarrow> request_cell_ok c \<Longrightarrow> request_cell_ok c'"
  unfolding cell_life_def request_cell_ok_def by blast

lemma requests_ok_step: "requests_ok c \<Longrightarrow> request_step c c' \<Longrightarrow> requests_ok c'"
  by (erule request_step.cases) (auto simp: requests_ok_def intro: cell_life_ok script_life)

interpretation durable: invariant_system request_step requests_ok
  by unfold_locales (rule requests_ok_step)

lemma HGET_record:
  "s k = Some (RHash h, Some t) \<Longrightarrow> now \<le> t \<Longrightarrow> HGET now s k = map_of h"
  "s k = Some (RHash h, Some t) \<Longrightarrow> \<not> now \<le> t \<Longrightarrow> HGET now s k = Map.empty"
  "s k = None \<Longrightarrow> HGET now s k = Map.empty"
  by (simp_all add: fun_eq_iff HGET_def hash_at_def peek_def live_def)

lemma read_request_cell:
  "s (RequestKey key) = Some (RHash h, Some t) \<Longrightarrow> now \<le> t \<Longrightarrow> read_request now key s = read_fields (map_of h)"
  "s (RequestKey key) = Some (RHash h, Some t) \<Longrightarrow> \<not> now \<le> t \<Longrightarrow> read_request now key s = None"
  "s (RequestKey key) = None \<Longrightarrow> read_request now key s = None"
  by (simp_all add: read_request_def HGET_record, simp_all add: read_fields_def)

lemma read_requestE:
  assumes "read_request now key s = Some r" "request_cell_ok (s (RequestKey key))"
  obtains h t where "s (RequestKey key) = Some (RHash h, Some t)" "now \<le> t" "fields_ok (map_of h)" "read_fields (map_of h) = Some r"
proof -
  from assms(2) consider "s (RequestKey key) = None" | h t where "s (RequestKey key) = Some (RHash h, Some t)" "fields_ok (map_of h)"
    unfolding request_cell_ok_def by auto
  then show ?thesis
  proof cases
    case 1
    then show ?thesis using assms(1) read_request_cell(3) [of s key now] by simp
  next
    case (2 h t)
    then show ?thesis using assms(1) that read_request_cell(1,2) [of s key h t now] by (cases "now \<le> t") auto
  qed
qed


section \<open>Facts about a record that last until it expires\<close>

definition record_fact :: "jstr \<Rightarrow> int \<Rightarrow> (stored_request \<Rightarrow> bool) \<Rightarrow> int \<times> bstore \<Rightarrow> bool" where
  "record_fact key t F c \<longleftrightarrow> (fst c \<le> t \<longrightarrow>
     (\<exists>h r. snd c (RequestKey key) = Some (RHash h, Some t) \<and> read_fields (map_of h) = Some r \<and> F r))"

locale life_fact =
  fixes F :: "stored_request \<Rightarrow> bool"
  assumes life_keeps: "life r r' \<Longrightarrow> F r \<Longrightarrow> F r'"
begin

lemma record_fact_step:
  assumes "requests_ok c" "record_fact key t F c" "request_step c c'"
  shows "record_fact key t F c'"
  using assms(3)
proof cases
  case (1 now now' s s')
  show ?thesis unfolding 1(2) record_fact_def fst_conv snd_conv
  proof
    assume t: "now' \<le> t"
    then obtain h r where r: "s (RequestKey key) = Some (RHash h, Some t)" "read_fields (map_of h) = Some r" "F r"
      using assms(2) 1 by (auto simp: record_fact_def)
    have "cell_life now' (s (RequestKey key)) (s' (RequestKey key))"
      using script_life [OF 1(4)] assms(1) 1(1) by (simp add: requests_ok_def)
    with r t show "\<exists>h r. s' (RequestKey key) = Some (RHash h, Some t) \<and> read_fields (map_of h) = Some r \<and> F r"
      unfolding cell_life_def by (auto intro: life_keeps)
  qed
qed

end

sublocale life_fact \<subseteq> stable_fact request_step requests_ok "record_fact key t F" for key t
  by unfold_locales (rule record_fact_step)

interpretation admitted: life_fact "\<lambda>r. rq_state r \<noteq> Queued \<and> rq_assignment r = Some a" for a
  by unfold_locales (auto elim!: lifeE simp: ended_with_def with_outcome_def pending_def)

interpretation called_off: life_fact "\<lambda>r. rq_cancelRequested r \<and> rq_state r \<noteq> Admitted \<and> rq_assignment r = None"
  by unfold_locales (auto elim!: lifeE simp: ended_with_def with_outcome_def pending_def)

interpretation ended: life_fact "\<lambda>r. r = r1 \<and> \<not> pending (rq_state r)" for r1
  by unfold_locales (auto elim!: lifeE simp: pending_def)

interpretation submission: life_fact "\<lambda>r. rq_id r = rq_id r1 \<and> rq_fingerprint r = rq_fingerprint r1 \<and> rq_request r = rq_request r1" for r1
  by unfold_locales (auto elim!: lifeE simp: ended_with_def with_outcome_def admitted_as_def)

text \<open>A record read once, and what is read later.\<close>

lemma record_factI:
  assumes "requests_ok (now, s)" "read_request now key s = Some r" "F r" "expiry_at now s (RequestKey key) = Some t"
  shows "record_fact key t F (now, s)"
proof -
  have "request_cell_ok (s (RequestKey key))" using assms(1) by (simp add: requests_ok_def)
  from read_requestE [OF assms(2) this] obtain h t' where c: "s (RequestKey key) = Some (RHash h, Some t')" "now \<le> t'" "read_fields (map_of h) = Some r"
    by blast
  then have "t' = t" using assms(4) by (simp add: expiry_at_def peek_def live_def)
  with c assms(3) show ?thesis by (simp add: record_fact_def)
qed

lemma record_factD:
  assumes "record_fact key t F (now, s)" "now \<le> t"
  obtains r where "read_request now key s = Some r" "F r"
  using assms read_request_cell(1) by (fastforce simp: record_fact_def)

lemma unqueued_not_enqueued:
  assumes "requests_ok (now, s)" "read_request now (g_key g) s = Some r" "rq_state r \<noteq> Queued \<or> rq_cancelRequested r"
  shows "enqueueForActiveIncarnation now dateNow a ttl tok (Some g) lanes s = (Ok False, s)"
proof -
  have "\<not> durableAdmissionFence now s g"
  proof
    assume f: "durableAdmissionFence now s g"
    obtain h t where c: "s (RequestKey (g_key g)) = Some (RHash h, Some t)" "now \<le> t" "fields_ok (map_of h)" "read_fields (map_of h) = Some r"
      using assms(1,2) read_requestE [of now "g_key g" s r] by (auto simp: requests_ok_def)
    then have "HGET now s (RequestKey (g_key g)) = map_of h" by (simp add: HGET_record)
    with f c(3,4) assms(3) show False
      by (auto simp: durableAdmissionFence_def field_states_def elim!: fields_okE)
  qed
  then show ?thesis by (simp add: enqueueForActiveIncarnation_def enqueue_guarded_def)
qed

definition no_requests :: "bstore \<Rightarrow> bool" where
  "no_requests s \<longleftrightarrow> (\<forall>key. s (RequestKey key) = None)"

lemma requests_reachable: "no_requests s0 \<Longrightarrow> request_step\<^sup>*\<^sup>* (t0, s0) c \<Longrightarrow> requests_ok c"
  by (erule durable.reachable_inv) (simp add: no_requests_def requests_ok_def request_cell_ok_def)

section \<open>Properties\<close>


text \<open>C21. Every live record is well typed: it can be read back, it is in one of the five states, it has no
  assignment while it is queued, one while it is admitted, and a time it ended exactly when it has.\<close>

theorem durable_records_typed:
  assumes "no_requests s0" "request_step\<^sup>*\<^sup>* (t0, s0) (now, s)" "EXISTS now s (RequestKey key)"
  shows "\<exists>r. read_request now key s = Some r
    \<and> (rq_state r = Queued \<longrightarrow> rq_assignment r = None \<and> rq_admittedAtMs r = None)
    \<and> (rq_state r = Admitted \<longrightarrow> rq_assignment r \<noteq> None \<and> rq_admittedAtMs r \<noteq> None)
    \<and> (pending (rq_state r) \<longleftrightarrow> rq_finishedAtMs r = None)"
proof -
  have "request_cell_ok (s (RequestKey key))" using requests_reachable [OF assms(1,2)] by (simp add: requests_ok_def)
  then obtain h t where c: "s (RequestKey key) = Some (RHash h, Some t)" "now \<le> t" "fields_ok (map_of h)"
    using assms(3) by (auto simp: request_cell_ok_def EXISTS_def peek_def live_def split: if_splits)
  have eq: "read_request now key s = read_fields (map_of h)" using c(1,2) by (simp add: read_request_cell(1))
  from c(3) obtain r where "read_fields (map_of h) = Some r" by (rule fields_okE)
  then show ?thesis using fields_typed [OF c(3)] unfolding eq by (intro exI [of _ r] conjI) simp_all
qed

text \<open>C1. A durable request is dispatched at most once. After an enqueue admitted it, under every
  interleaving and until its record expires, the record keeps that assignment and every other enqueue on
  its behalf, by whichever replica, is refused without effect.\<close>

theorem durable_at_most_once:
  assumes "no_requests s0" "request_step\<^sup>*\<^sup>* (t0, s0) (now, s)"
    and "enqueueForActiveIncarnation now dateNow a ttl tok (Some g) lanes s = (Ok True, s1)"
    and "request_step\<^sup>*\<^sup>* (now, s1) (now', s')" "expiry_at now s (RequestKey (g_key g)) = Some t" "now' \<le> t"
    and "g_key g' = g_key g"
  shows "(\<exists>r. read_request now' (g_key g) s' = Some r \<and> rq_assignment r = Some a)
    \<and> enqueueForActiveIncarnation now' dateNow' b ttl' tok' (Some g') lanes' s' = (Ok False, s')"
proof -
  have ok: "requests_ok (now, s)" by (rule requests_reachable [OF assms(1,2)])
  have fence: "durableAdmissionFence now s g" using assms(3)
    by (auto simp: enqueueForActiveIncarnation_def enqueue_guarded_def split: if_splits)
  have s1: "s1 (RequestKey (g_key g)) = admit_request now a (Some g) s (RequestKey (g_key g))"
    using assms(3) by (auto simp: enqueueForActiveIncarnation_def enqueue_commit_request split: if_splits)
  have step: "request_step (now, s) (now, s1)"
    using request_script.enqueues [of now s dateNow a ttl tok "Some g" lanes] assms(3) by (auto intro: request_step.intros)
  then have ok1: "requests_ok (now, s1)" using ok by (rule requests_ok_step [rotated])
  have "record_fact (g_key g) t (\<lambda>r. rq_state r \<noteq> Queued \<and> rq_assignment r = Some a) (now, s1)"
  proof -
    have "HGET now s (RequestKey (g_key g)) (js ''state'') \<noteq> None" using fence by (simp add: durableAdmissionFence_def)
    moreover have "request_cell_ok (s (RequestKey (g_key g)))" using ok by (simp add: requests_ok_def)
    ultimately obtain h r where r: "hash_at now s (RequestKey (g_key g)) = h" "fields_ok (map_of h)" "read_fields (map_of h) = Some r"
        "HGET now s (RequestKey (g_key g)) = map_of h" "map_of h (js ''state'') = Some (Txt (state_text (rq_state r)))"
      using live_record [of s "g_key g" now] by metis
    have "rq_state r = Queued" using fence r(4,5) by (simp add: durableAdmissionFence_def)
    then show ?thesis
      using s1 assms(5) r(1) fields_admit [OF r(2,3), of a now]
      by (auto simp: record_fact_def admit_request_def HSET_cells update_conv' admitted_as_def)
  qed
  then have "record_fact (g_key g) t (\<lambda>r. rq_state r \<noteq> Queued \<and> rq_assignment r = Some a) (now', s')"
    by (rule admitted.stays [OF assms(4) ok1])
  then obtain r where "read_request now' (g_key g) s' = Some r" "rq_state r \<noteq> Queued" "rq_assignment r = Some a"
    using assms(6) by (rule record_factD) auto
  then show ?thesis using unqueued_not_enqueued [OF durable.reachable_inv [OF assms(4) ok1], of g'] assms(7) by simp
qed

text \<open>C6. A cancellation that reaches a queued request wins. Under every interleaving and until the record
  expires, the request is never admitted, and every enqueue on its behalf is refused without effect.\<close>

theorem durable_cancel_wins:
  assumes "no_requests s0" "request_step\<^sup>*\<^sup>* (t0, s0) (now, s)"
    and "read_request now key s = Some r" "rq_state r = Queued"
    and "request_step\<^sup>*\<^sup>* (now, cancel_script now dateNow scope key s) (now', s')" "expiry_at now s (RequestKey key) = Some t" "now' \<le> t"
    and "g_key g = key"
  shows "(\<exists>r'. read_request now' key s' = Some r' \<and> rq_assignment r' = None)
    \<and> enqueueForActiveIncarnation now' dateNow' a ttl tok (Some g) lanes s' = (Ok False, s')"
proof -
  let ?F = "\<lambda>r. rq_cancelRequested r \<and> rq_state r \<noteq> Admitted \<and> rq_assignment r = None"
  let ?s1 = "cancel_script now dateNow scope key s"
  have ok: "requests_ok (now, s)" by (rule requests_reachable [OF assms(1,2)])
  have ok1: "requests_ok (now, ?s1)" by (rule requests_ok_step [OF ok]) (auto intro: request_step.intros request_script.cancels)
  have "request_cell_ok (s (RequestKey key))" using ok by (simp add: requests_ok_def)
  from read_requestE [OF assms(3) this] obtain h t' where c: "s (RequestKey key) = Some (RHash h, Some t')" "now \<le> t'" "fields_ok (map_of h)"
      "read_fields (map_of h) = Some r" by blast
  have t: "t' = t" "hash_at now s (RequestKey key) = h" using c assms(6) by (simp_all add: expiry_at_def hash_at_def peek_def live_def)
  have "rq_assignment r = None" "map_of h (js ''state'') = Some (Txt (state_text Queued))"
    using fields_typed [OF c(3,4)] assms(4) by simp_all
  then have "record_fact key t ?F (now, ?s1)"
    using assms(4,6) t c fields_cancel [OF c(3,4)]
    by (auto simp: record_fact_def cancel_script_def Let_def HGET_record redis_frame HSET_cells update_conv')
  then have "record_fact key t ?F (now', s')" by (rule called_off.stays [OF assms(5) ok1])
  then obtain r' where "read_request now' key s' = Some r'" "?F r'" using assms(7) by (rule record_factD) auto
  then show ?thesis using unqueued_not_enqueued [OF durable.reachable_inv [OF assms(5) ok1], of g] assms(8) by simp
qed

text \<open>C7. An outcome is final. Once a durable request has completed, failed or been cancelled, no
  interleaving changes anything a client reads of it before the record expires.\<close>

theorem durable_outcome_final:
  assumes "no_requests s0" "request_step\<^sup>*\<^sup>* (t0, s0) (now, s)"
    and "read_request now key s = Some r" "\<not> pending (rq_state r)"
    and "request_step\<^sup>*\<^sup>* (now, s) (now', s')" "expiry_at now s (RequestKey key) = Some t" "now' \<le> t"
  shows "read_request now' key s' = Some r"
proof -
  have ok: "requests_ok (now, s)" by (rule requests_reachable [OF assms(1,2)])
  have "record_fact key t (\<lambda>r'. r' = r \<and> \<not> pending (rq_state r')) (now, s)"
    by (rule record_factI [OF ok assms(3) _ assms(6)]) (simp add: assms(4))
  then have "record_fact key t (\<lambda>r'. r' = r \<and> \<not> pending (rq_state r')) (now', s')" by (rule ended.stays [OF assms(5) ok])
  then show ?thesis using assms(7) by (rule record_factD) simp
qed

text \<open>What identifies the work of a submission: everything its fingerprint is computed from.\<close>

definition same_work :: "submit_args \<Rightarrow> submit_args \<Rightarrow> bool" where
  "same_work a b \<longleftrightarrow> sa_workerId a = sa_workerId b \<and> sort_keys (sa_request a) = sort_keys (sa_request b)
     \<and> sa_queueWaitMs a = sa_queueWaitMs b \<and> sa_executionTimeoutMs a = sa_executionTimeoutMs b
     \<and> sa_requireTenantBinding a = sa_requireTenantBinding b"

definition args_ok :: "submit_args \<Rightarrow> bool" where
  "args_ok a \<longleftrightarrow> units (sa_workerId a) \<and> json_ok (sa_request a) \<and> \<bar>sa_queueWaitMs a\<bar> < 10 ^ 21 \<and> \<bar>sa_executionTimeoutMs a\<bar> < 10 ^ 21"

lemma units_js: "units (js t)"
  using nat_of_char_less_256 by (fastforce simp: units_def js_def list_all_iff intro: less_trans)

lemma fingerprint_eq:
  assumes "args_ok a" "args_ok b"
  shows "request_fingerprint a = request_fingerprint b \<longleftrightarrow> same_work a b"
proof -
  define doc where "doc x = JObj [(js ''workerId'', JStr (sa_workerId x)), (js ''request'', sa_request x),
     (js ''queueWaitMs'', JInt (sa_queueWaitMs x)), (js ''executionTimeoutMs'', JInt (sa_executionTimeoutMs x)),
     (js ''requireTenantBinding'', JBool (sa_requireTenantBinding x))]" for x :: submit_args
  have ok: "json_ok (doc x)" if "args_ok x" for x using that by (simp add: doc_def args_ok_def units_js)
  have "sort_keys (doc x) = JObj (sort_key fst [(js ''workerId'', JStr (sa_workerId x)), (js ''request'', sort_keys (sa_request x)),
     (js ''queueWaitMs'', JInt (sa_queueWaitMs x)), (js ''executionTimeoutMs'', JInt (sa_executionTimeoutMs x)),
     (js ''requireTenantBinding'', JBool (sa_requireTenantBinding x))])" for x
    by (simp add: doc_def)
  also have "\<dots> x = JObj [(js ''executionTimeoutMs'', JInt (sa_executionTimeoutMs x)), (js ''queueWaitMs'', JInt (sa_queueWaitMs x)),
     (js ''request'', sort_keys (sa_request x)), (js ''requireTenantBinding'', JBool (sa_requireTenantBinding x)),
     (js ''workerId'', JStr (sa_workerId x))]" for x by (simp add: js_def)
  finally have "sort_keys (doc a) = sort_keys (doc b) \<longleftrightarrow> same_work a b" by (auto simp: same_work_def)
  moreover have "request_fingerprint x = Sha256 (canonical (doc x))" for x by (simp add: request_fingerprint_def doc_def)
  ultimately show ?thesis using canonical_iff [OF ok [OF assms(1)] ok [OF assms(2)]] by simp
qed

text \<open>C19. Submitting is idempotent. Once a submission is accepted, under every interleaving and for the
  twenty-four hours its record is kept, the request id stands for that work: a submission under the same
  id by the same owner is recognised exactly when it asks for the same work (the order of JSON keys
  aside), is a conflict otherwise, and changes nothing, also when both were prepared concurrently.\<close>

theorem submit_idempotent:
  assumes "no_requests s0" "request_step\<^sup>*\<^sup>* (t0, s0) (now, s)"
    and "submit_record now dateNow scope (new_request H scope a req reg rid d) s = (Accepted, s1)"
    and "request_step\<^sup>*\<^sup>* (now, s1) (now', s')" "now' \<le> now + RETENTION_MS"
    and "args_ok a" "args_ok b" "sa_owner b = sa_owner a" "sa_requestId b = sa_requestId a"
  shows "submit_record now' dateNow' scope (new_request H scope b req' reg' rid' d') s' = (if same_work b a then Existing else Conflict, s')
    \<and> map_option rq_id (read_request now' (requestKey H (sa_owner a) (sa_requestId a) scope) s') = Some rid"
proof -
  define r where "r = new_request H scope a req reg rid d"
  define key where "key = requestKey H (sa_owner a) (sa_requestId a) scope"
  have r: "fresh_request r" "rq_key r = key" "rq_id r = rid" "rq_fingerprint r = request_fingerprint a"
    by (simp_all add: r_def key_def new_request_def fresh_request_def)
  let ?F = "\<lambda>r'. rq_id r' = rq_id r \<and> rq_fingerprint r' = rq_fingerprint r \<and> rq_request r' = rq_request r"
  have ok: "requests_ok (now, s)" by (rule requests_reachable [OF assms(1,2)])
  have s1: "s1 (RequestKey key) = Some (RHash (new_fields r), Some (now + RETENTION_MS))"
    using submit_accepted [OF assms(3) [folded r_def]] ok r(2) by (simp add: requests_ok_def)
  have ok1: "requests_ok (now, s1)"
    using request_script.submits [OF r(1), of now s dateNow scope] assms(3) [folded r_def]
    by (intro requests_ok_step [OF ok]) (auto intro: request_step.intros)
  have "record_fact key (now + RETENTION_MS) ?F (now, s1)" using s1 new_fields_ok [OF r(1)] by (simp add: record_fact_def)
  then have "record_fact key (now + RETENTION_MS) ?F (now', s')" by (rule submission.stays [OF assms(4) ok1])
  then obtain h r' where c: "s' (RequestKey key) = Some (RHash h, Some (now + RETENTION_MS))" "read_fields (map_of h) = Some r'" "?F r'"
    using assms(5) by (auto simp: record_fact_def)
  have "fields_ok (map_of h)" using durable.reachable_inv [OF assms(4) ok1] c(1) by (auto simp: requests_ok_def request_cell_ok_def dest: spec [of _ key])
  then have "HGET now' s' (RequestKey key) (js ''fingerprint'') = Some (Json (JDigest (request_fingerprint a)))"
    using c assms(5) r(4) by (auto simp: HGET_record elim!: fields_okE)
  moreover have "rq_key (new_request H scope b req' reg' rid' d') = key" "rq_fingerprint (new_request H scope b req' reg' rid' d') = request_fingerprint b"
    using assms(8,9) by (simp_all add: new_request_def key_def)
  moreover have "request_fingerprint a = request_fingerprint b \<longleftrightarrow> same_work b a" using fingerprint_eq [OF assms(7,6)] by auto
  moreover have "map_option rq_id (read_request now' key s') = Some rid" using c assms(5) r(3) by (simp add: read_request_cell(1))
  ultimately show ?thesis unfolding key_def [symmetric] by (simp add: submit_record_def submit_def)
qed

text \<open>C20. Requests are private to their owner: two request ids, of whatever tenants, users and scopes, have
  the same key exactly when id, user, tenant and scope are all the same, given a collision-free digest. No
  choice of user or request id reaches another owner's record.\<close>

theorem request_keys_isolated:
  assumes "inj (h_sha256 H)"
    and "units scope" "units (ow_tenantId o1)" "units (ow_userId o1)" "units i"
    and "units scope'" "units (ow_tenantId o2)" "units (ow_userId o2)" "units i'"
  shows "requestKey H o1 i scope = requestKey H o2 i' scope' \<longleftrightarrow>
    i = i' \<and> scope = scope' \<and> ow_tenantId o1 = ow_tenantId o2 \<and> ow_userId o1 = ow_userId o2"
proof -
  have "requestKey H o1 i scope = requestKey H o2 i' scope' \<longleftrightarrow>
      canonical (JArr [JStr scope, JStr (ow_tenantId o1), JStr (ow_userId o1), JStr i])
      = canonical (JArr [JStr scope', JStr (ow_tenantId o2), JStr (ow_userId o2), JStr i'])"
    using assms(1) by (simp add: requestKey_def inj_eq del: canonical.simps)
  then show ?thesis using assms(2-) by (subst (asm) canonical_iff) auto
qed

section \<open>A concrete request\<close>

definition req_host :: host where
  "req_host = \<lparr>h_lower = (\<lambda>x. x), h_ignorable = (\<lambda>_. False), h_unprintable = (\<lambda>_. False), h_sha256 = (\<lambda>x. x)\<rparr>"

definition req_args :: submit_args where
  "req_args = \<lparr>sa_owner = \<lparr>ow_tenantId = js ''t'', ow_userId = js ''u''\<rparr>, sa_requestId = js ''0123456789abcdef'', sa_workerId = js ''w'',
     sa_requireTenantBinding = False, sa_request = JObj [(js ''workspaceId'', JStr (js ''r''))], sa_queueWaitMs = 1000,
     sa_executionTimeoutMs = 1000\<rparr>"

definition req_key :: jstr where
  "req_key = requestKey req_host (sa_owner req_args) (sa_requestId req_args) []"

definition req_record :: stored_request where
  "req_record = new_request req_host [] req_args (sa_request req_args) (demo_worker ''a'') (js ''durable-abcdefghijklmnopqrstuvwx'') 0"

definition req_guard :: guard where
  "req_guard = \<lparr>g_key = req_key, g_token = js ''claim''\<rparr>"

definition req_base :: bstore where
  "req_base = Map.empty(IncarnationKey (js ''w'') \<mapsto> (RStr (Txt (js ''a'')), None), LockKey (js ''w'') \<mapsto> (RStr (Txt (rq_id req_record)), None),
     LockIncarnationKey (js ''w'') \<mapsto> (RStr (Txt (js ''a'')), None), RequestClaimKey req_key \<mapsto> (RStr (Txt (js ''claim'')), None))"

definition req_submitted :: bstore where
  "req_submitted = snd (submit_record 0 0 [] req_record req_base)"

definition req_asg :: assignment where
  "req_asg = durable_assignment req_record (demo_worker ''a'') None 1 (js ''token'') 0"

lemma submit_other:
  assumes "\<And>j. k \<noteq> RequestKey j" "\<And>w. k \<noteq> AdmissionKey w" "\<And>w. k \<noteq> AdmissionDeadlinesKey w" "\<And>w. k \<noteq> AdmissionSequenceKey w"
    "\<And>w. k \<noteq> AdmissionWorkspacesKey w" "\<And>x. k \<noteq> ActiveKey x"
  shows "snd (submit_record now dateNow scope r s) k = s k"
  using assms
  by (simp add: submit_record_def submit_def push_admission_def touch_admission_def INCR_def Let_def redis_frame drop_expired_frame
      split: option.splits)

lemma req_facts [simp]:
  "rq_key req_record = req_key" "rq_workerId req_record = js ''w''" "g_key req_guard = req_key" "rq_state req_record = Queued"
  "rq_queueDeadlineAtMs req_record = 1000" "fresh_request req_record" "no_requests req_base" "g_token req_guard = js ''claim''"
  by (simp_all add: req_record_def new_request_def req_key_def req_args_def req_guard_def fresh_request_def no_requests_def req_base_def)

lemma req_accepted: "submit_record 0 0 [] req_record req_base = (Accepted, req_submitted)"
proof -
  have "drop_expired 0 (js ''w'') 0 req_base = req_base"
    by (simp add: drop_expired_def ZRANGEBYSCORE_def zset_at_def peek_def req_base_def)
  then have "fst (submit_record 0 0 [] req_record req_base) = Accepted"
    by (simp add: submit_record_def submit_def Let_def ZCARD_def zset_at_def HGET_def hash_at_def peek_def req_base_def ADMISSION_CAPACITY_def)
  then show ?thesis by (simp add: req_submitted_def prod_eq_iff)
qed

lemma req_cells:
  "req_submitted (RequestKey req_key) = Some (RHash (new_fields req_record), Some RETENTION_MS)"
  "(\<And>j. k \<noteq> RequestKey j) \<Longrightarrow> (\<And>w. k \<noteq> AdmissionKey w) \<Longrightarrow> (\<And>w. k \<noteq> AdmissionDeadlinesKey w) \<Longrightarrow> (\<And>w. k \<noteq> AdmissionSequenceKey w) \<Longrightarrow>
    (\<And>w. k \<noteq> AdmissionWorkspacesKey w) \<Longrightarrow> (\<And>x. k \<noteq> ActiveKey x) \<Longrightarrow> req_submitted k = req_base k"
proof -
  show "req_submitted (RequestKey req_key) = Some (RHash (new_fields req_record), Some RETENTION_MS)"
    using submit_accepted [OF req_accepted] by (simp add: req_base_def request_cell_ok_def)
qed (simp add: req_submitted_def submit_other)

lemma req_steps: "request_step\<^sup>*\<^sup>* (0, req_base) (0, req_submitted)"
  unfolding req_submitted_def by (intro r_into_rtranclp request_step.intros request_script.submits) simp_all

lemma req_read: "read_request 0 req_key req_submitted = Some req_record" "expiry_at 0 req_submitted (RequestKey req_key) = Some RETENTION_MS"
  using new_fields_ok [of req_record]
  by (simp_all add: read_request_cell(1) [of req_submitted req_key "new_fields req_record" RETENTION_MS 0] expiry_at_def peek_def live_def req_cells(1) RETENTION_MS_def)

lemma req_enqueue:
  "\<exists>s1. enqueueForActiveIncarnation 0 0 req_asg 31 None (Some req_guard) [] req_submitted = (Ok True, s1)"
proof -
  have cells: "req_submitted (IncarnationKey (js ''w'')) = Some (RStr (Txt (js ''a'')), None)"
      "req_submitted (LockKey (js ''w'')) = Some (RStr (Txt (rq_id req_record)), None)"
      "req_submitted (LockIncarnationKey (js ''w'')) = Some (RStr (Txt (js ''a'')), None)"
      "req_submitted (RequestClaimKey req_key) = Some (RStr (Txt (js ''claim'')), None)" "req_submitted (WsQuarantineKey v q) = None" for v q
    by (simp_all add: req_cells(2) req_base_def)
  have a: "assignmentId req_asg = rq_id req_record" "workerId req_asg = js ''w''" "incarnationId req_asg = js ''a''" "workspaceLeaseSlot req_asg = None"
    by (simp_all add: req_asg_def durable_assignment_def demo_worker_def)
  have "HGET 0 req_submitted (RequestKey req_key) = map_of (new_fields req_record)"
    by (rule HGET_record(1) [of _ _ _ RETENTION_MS]) (simp_all add: req_cells(1) RETENTION_MS_def)
  then have "durableAdmissionFence 0 req_submitted req_guard"
    using cells(4) by (simp add: durableAdmissionFence_def GET_def peek_def new_fields_def)
  then have "enqueue_guarded 0 req_asg (Some req_guard) req_submitted" using cells(2,3) a by (simp add: enqueue_guarded_def GET_def peek_def)
  moreover have "\<not> enqueue_blocked 0 req_asg [] req_submitted"
    using cells(5) a by (auto simp: enqueue_blocked_def fence_scope_of_def fence_key_def EXISTS_def peek_def fence_keys split: option.splits)
  ultimately show ?thesis using cells(1) a by (simp add: enqueueForActiveIncarnation_def GET_def peek_def or_empty_def)
qed


lemma durable_records_typed_witness: "\<exists>r. read_request 0 req_key req_submitted = Some r \<and> (pending (rq_state r) \<longleftrightarrow> rq_finishedAtMs r = None)"
proof -
  have "EXISTS 0 req_submitted (RequestKey req_key)" using req_cells(1) by (simp add: EXISTS_def peek_def live_def RETENTION_MS_def)
  from durable_records_typed [OF req_facts(7) req_steps this] show ?thesis by auto
qed

lemma durable_at_most_once_witness:
  "\<exists>s1. (\<exists>r. read_request 0 req_key s1 = Some r \<and> rq_assignment r = Some req_asg)
    \<and> enqueueForActiveIncarnation 0 0 req_asg 31 None (Some req_guard) [] s1 = (Ok False, s1)"
proof -
  obtain s1 where s1: "enqueueForActiveIncarnation 0 0 req_asg 31 None (Some req_guard) [] req_submitted = (Ok True, s1)" using req_enqueue by blast
  have "0 \<le> RETENTION_MS" by (simp add: RETENTION_MS_def)
  from durable_at_most_once [OF req_facts(7) req_steps s1 rtranclp.rtrancl_refl _ this refl] req_read(2) show ?thesis
    unfolding req_facts(3) by blast
qed

lemma durable_cancel_wins_witness:
  "enqueueForActiveIncarnation 0 0 req_asg 31 None (Some req_guard) [] (cancel_script 0 0 [] req_key req_submitted)
    = (Ok False, cancel_script 0 0 [] req_key req_submitted)"
proof -
  have "0 \<le> RETENTION_MS" by (simp add: RETENTION_MS_def)
  from durable_cancel_wins [OF req_facts(7) req_steps req_read(1) req_facts(4) rtranclp.rtrancl_refl req_read(2) this req_facts(3)]
  show ?thesis by blast
qed

lemma durable_outcome_final_witness:
  "\<exists>s r. read_request 0 req_key s = Some r \<and> rq_state r = Cancelled \<and> read_request 1 req_key s = Some r"
proof -
  let ?s = "finish_script 0 req_key (js ''claim'') just_cancelled req_submitted"
  have p: "\<not> pending (do_state just_cancelled)" by (simp add: just_cancelled_def pending_def)
  have hash: "HGET 0 req_submitted (RequestKey req_key) = map_of (new_fields req_record)"
    by (rule HGET_record(1) [of _ _ _ RETENTION_MS]) (simp_all add: req_cells(1) RETENTION_MS_def)
  have h: "hash_at 0 req_submitted (RequestKey req_key) = new_fields req_record"
    using req_cells(1) by (simp add: hash_at_def peek_def live_def RETENTION_MS_def)
  have "GET 0 req_submitted (RequestClaimKey req_key) = Some (Txt (js ''claim''))" by (simp add: GET_def peek_def req_cells(2) req_base_def)
  then have cell: "?s (RequestKey req_key) = Some (RHash (AList.update (js ''outcome'') (Json (JOut just_cancelled))
      (AList.update (js ''state'') (Txt (state_text Cancelled)) (new_fields req_record))), Some RETENTION_MS)" (is "_ = Some (RHash ?h, _)")
    using hash h req_read(2) by (simp add: finish_script_def Let_def write_outcome_def HSET_cells new_fields_def just_cancelled_def)
  have "read_fields (map_of ?h) = Some (ended_with just_cancelled req_record)"
    using fields_end [of "map_of (new_fields req_record)" req_record just_cancelled] new_fields_ok [of req_record] p
    by (simp add: update_conv' just_cancelled_def pending_def)
  then have read: "read_request 0 req_key ?s = Some (ended_with just_cancelled req_record)"
    using read_request_cell(1) [of ?s req_key ?h RETENTION_MS 0] cell by (simp add: RETENTION_MS_def)
  have steps: "request_step\<^sup>*\<^sup>* (0, req_base) (0, ?s)"
    by (rule rtranclp.rtrancl_into_rtrancl [OF req_steps]) (intro request_step.intros request_script.finishes p, simp)
  have later: "request_step\<^sup>*\<^sup>* (0, ?s) (1, ?s)" by (intro r_into_rtranclp request_step.intros request_script.others) simp_all
  have "expiry_at 0 ?s (RequestKey req_key) = Some RETENTION_MS" using cell by (simp add: expiry_at_def peek_def live_def RETENTION_MS_def)
  from durable_outcome_final [OF req_facts(7) steps read _ later this] read show ?thesis
    by (intro exI [of _ ?s] exI [of _ "ended_with just_cancelled req_record"])
       (simp add: ended_with_def just_cancelled_def pending_def RETENTION_MS_def)
qed

lemma submit_idempotent_witness:
  "submit_record 5 5 [] (new_request req_host [] req_args (sa_request req_args) (demo_worker ''b'') (js ''other'') 5) req_submitted
    = (Existing, req_submitted)"
proof -
  have later: "request_step\<^sup>*\<^sup>* (0, req_submitted) (5, req_submitted)"
    by (intro r_into_rtranclp request_step.intros request_script.others) simp_all
  have ok: "args_ok req_args" "same_work req_args req_args"
    by (simp_all add: args_ok_def same_work_def req_args_def units_js)
  have "5 \<le> 0 + RETENTION_MS" by (simp add: RETENTION_MS_def)
  from submit_idempotent [OF req_facts(7) rtranclp.rtrancl_refl req_accepted [unfolded req_record_def] later this ok(1) ok(1) refl refl,
      of 5 "sa_request req_args" "demo_worker ''b''" "js ''other''" 5] ok(2)
  show ?thesis by simp
qed

lemma request_keys_isolated_witness:
  "requestKey req_host \<lparr>ow_tenantId = js ''a'', ow_userId = js ''b''\<rparr> (js ''i'') [] \<noteq> requestKey req_host \<lparr>ow_tenantId = js ''b'', ow_userId = js ''a''\<rparr> (js ''i'') []"
proof -
  have "inj (h_sha256 req_host)" by (simp add: req_host_def)
  from request_keys_isolated [OF this, of "[]" "\<lparr>ow_tenantId = js ''a'', ow_userId = js ''b''\<rparr>" "js ''i''" "[]"
      "\<lparr>ow_tenantId = js ''b'', ow_userId = js ''a''\<rparr>" "js ''i''"]
  show ?thesis by (simp add: units_js units_def [of "[]"])
qed

end
