(* ===== verification/Dispatch.thy ===== *)
theory Dispatch
  imports RequestLife
begin

text \<open>
  \<^verbatim>\<open>dispatch\<close> and \<^verbatim>\<open>dispatchWorkspaceTool\<close> of \<^verbatim>\<open>service/src/bridge/store.ts\<close>: a caller's request
  from the selection of its worker through admission, the lock or slot, the enqueue and the settlement to
  the commit and the cleanup.

  Every awaited command is an attempt the environment decides: the clocks, what the other clients did
  before it, whether it reached Redis, whether its reply came back, and whether the caller was gone by
  then. A command whose reply was lost may have taken effect.
\<close>

section \<open>Commands under a deadline\<close>

record attempt = turn +
  at_sent :: bool
  at_lost :: bool
  at_over :: bool

type_synonym ('a) command = "int \<Rightarrow> int \<Rightarrow> bstore \<Rightarrow> (bridge_error, 'a) result \<times> bstore"

text \<open>\<open>at_over\<close>: the caller is gone or the deadline has passed when the failure is handled.\<close>

definition run_attempt :: "attempt \<Rightarrow> 'a command \<Rightarrow> bstore \<Rightarrow> (bridge_error, 'a) result \<times> bstore" where
  "run_attempt t command s =
     (let s1 = t_others t s;
          (res, s2) = (if at_sent t then command (t_now t) (t_dateNow t) s1 else (Err PlainError, s1))
      in case (if at_lost t then Err PlainError else res) of
           Ok v \<Rightarrow> (Ok v, s2)
         | Err e \<Rightarrow> (Err (if at_over t then StoreError ASSIGNMENT_EXPIRED else e), s2))"

definition dispatchCommand :: "attempt \<Rightarrow> int \<Rightarrow> 'a command \<Rightarrow> bstore \<Rightarrow> (bridge_error, 'a) result \<times> bstore" where
  "dispatchCommand t deadlineAtMs command s =
     (case assertDispatchActive (t_aborted t) (t_dateNow t) deadlineAtMs of
        Err e \<Rightarrow> (Err e, s)
      | Ok _ \<Rightarrow> run_attempt t command s)"

section \<open>Arguments\<close>

record dispatch_args =
  dp_workerId :: jstr
  dp_tenantId :: "jstr option"
  dp_requireTenantBinding :: bool
  dp_body :: json
  dp_headers :: json
  dp_workspaceRequest :: "json option"
  dp_workspaceId :: "jstr option"
  dp_runtimeSessionId :: "jstr option"
  dp_deadlineAtMs :: int
  dp_executionTimeoutMs :: "int option"

definition workspaceInstanceId :: "json \<Rightarrow> jstr option" where
  "workspaceInstanceId body = str_of (fld body ''workspace_instance_id'')"

definition workspaceWorktree :: "json \<Rightarrow> jstr option" where
  "workspaceWorktree body = str_of (fld body ''workspace_worktree'')"

definition is_workspace :: "dispatch_args \<Rightarrow> bool" where
  "is_workspace d \<longleftrightarrow> dp_workspaceRequest d \<noteq> None \<or> dp_workspaceId d \<noteq> None"

text \<open>The workspace the request selects: that of a tool request, or the given one with the instance and
  worktree of the body.\<close>

definition selected_admission :: "dispatch_args \<Rightarrow> jstr option" where
  "selected_admission d =
     (let inst = workspaceInstanceId (dp_body d); wt = workspaceWorktree (dp_body d) in
      case dp_workspaceRequest d of
        Some req \<Rightarrow> map_option (\<lambda>ws. workspaceAdmissionId ws (first_of (str_of (fld req ''workspaceInstanceId'')) inst)
            (first_of (str_of (fld req ''worktree'')) wt)) (first_of (str_of (fld req ''workspaceId'')) (dp_workspaceId d))
      | None \<Rightarrow> map_option (\<lambda>ws. workspaceAdmissionId ws inst wt) (dp_workspaceId d))"

definition args_refused :: "dispatch_args \<Rightarrow> bool" where
  "args_refused d \<longleftrightarrow> dp_workspaceRequest d \<noteq> None \<and> dp_workspaceId d \<noteq> None
     \<or> (case dp_executionTimeoutMs d of None \<Rightarrow> False
        | Some n \<Rightarrow> dp_workspaceRequest d = None \<or> n < 1 \<or> n > 305000)"

section \<open>The worker\<close>

definition offers_tool :: "dispatch_args \<Rightarrow> registration \<Rightarrow> bool" where
  "offers_tool d reg = (case dp_workspaceRequest d of None \<Rightarrow> True | Some req \<Rightarrow> supportsWorkspaceTool reg req)"

definition offers_programmatic :: "dispatch_args \<Rightarrow> registration \<Rightarrow> bool" where
  "offers_programmatic d reg =
     (case dp_workspaceId d of None \<Rightarrow> True
      | Some ws \<Rightarrow> supportsWorkspaceProgrammatic reg ws (fld (dp_body d) ''language'') (workspaceInstanceId (dp_body d)) (workspaceWorktree (dp_body d)))"

definition stateful :: "registration \<Rightarrow> bool" where
  "stateful reg \<longleftrightarrow> fld (r_capabilities reg) ''statefulWorkspace'' = Some (JBool True)"

definition offers_session :: "dispatch_args \<Rightarrow> registration \<Rightarrow> bool" where
  "offers_session d reg \<longleftrightarrow> (dp_runtimeSessionId d \<noteq> None \<longrightarrow> stateful reg)"

definition tenant_allowed :: "dispatch_args \<Rightarrow> registration \<Rightarrow> bool" where
  "tenant_allowed d reg =
     (case r_binding reg of None \<Rightarrow> \<not> dp_requireTenantBinding d
      | Some b \<Rightarrow> dp_tenantId d = Some (bd_tenantId b) \<and> bd_tenantId b \<noteq> [])"

text \<open>The checks on the registration read first, in the order of the code.\<close>

definition select_worker :: "store_config \<Rightarrow> dispatch_args \<Rightarrow> (registration \<times> jstr option) option
    \<Rightarrow> (bridge_error, registration \<times> jstr option) result" where
  "select_worker cfg d current =
     (case current of
        None \<Rightarrow> Err (StoreError WORKER_OFFLINE)
      | Some (reg, token) \<Rightarrow>
          if lease_slots reg > maxWorkspaceLeaseSlots cfg then Err (StoreError WORKER_MISMATCH)
          else if \<not> tenant_allowed d reg then Err (StoreError WORKER_UNAUTHORIZED)
          else if \<not> offers_session d reg then Err (StoreError WORKER_MISMATCH)
          else if \<not> offers_tool d reg then Err (StoreError WORKER_MISMATCH)
          else if \<not> offers_programmatic d reg then Err (StoreError WORKER_MISMATCH)
          else Ok (reg, token))"

section \<open>Waiting for the lock or a slot\<close>

definition uses_slots :: "dispatch_args \<Rightarrow> registration \<Rightarrow> bool" where
  "uses_slots d reg \<longleftrightarrow> selected_admission d \<noteq> None \<and> lease_slots reg > 1"

definition hold_ttl :: "dispatch_args \<Rightarrow> int \<Rightarrow> int" where
  "hold_ttl d dateNow =
     assignmentTtlSeconds dateNow (case dp_executionTimeoutMs d of None \<Rightarrow> dp_deadlineAtMs d | Some n \<Rightarrow> dateNow + n)"

text \<open>The second command of a turn: \<open>Some None\<close> is the lock, \<open>Some (Some n)\<close> a slot.\<close>

definition hold_command :: "dispatch_args \<Rightarrow> registration \<Rightarrow> jstr \<Rightarrow> nat option option command" where
  "hold_command d reg aid now dateNow s =
     (if uses_slots d reg then
        (case reserve now dateNow \<lparr>ra_workerId = dp_workerId d, ra_incarnationId = r_incarnationId reg, ra_assignmentId = aid,
                ra_workspaceId = or_empty (selected_admission d), ra_capacity = lease_slots reg,
                ra_expiresAtMs = dateNow + hold_ttl d dateNow * 1000, ra_refreshOwned = False, ra_guard = None\<rparr> s of
           (Err e, s1) \<Rightarrow> (Err e, s1)
         | (Ok None, s1) \<Rightarrow> (Ok None, s1)
         | (Ok (Some n), s1) \<Rightarrow> (Ok (Some (Some n)), s1))
      else case acquireLock now (dp_workerId d) aid (r_incarnationId reg) (hold_ttl d dateNow) False None s of
             (got, s1) \<Rightarrow> (Ok (if got then Some None else None), s1))"

definition head_command :: "dispatch_args \<Rightarrow> jstr \<Rightarrow> bool command" where
  "head_command d aid now dateNow s = (case isHead now dateNow (dp_workerId d) aid s of (b, s1) \<Rightarrow> (Ok b, s1))"

definition wait_turn :: "dispatch_args \<Rightarrow> registration \<Rightarrow> jstr \<Rightarrow> attempt \<times> attempt \<Rightarrow> bstore
    \<Rightarrow> (bridge_error, nat option option) result \<times> bstore" where
  "wait_turn d reg aid t s =
     (let (mine, s1) = (if selected_admission d \<noteq> None \<and> \<not> uses_slots d reg
                        then dispatchCommand (fst t) (dp_deadlineAtMs d) (head_command d aid) s else (Ok True, s))
      in case mine of
           Err e \<Rightarrow> (Err e, s1)
         | Ok False \<Rightarrow> (Ok None, s1)
         | Ok True \<Rightarrow> dispatchCommand (snd t) (dp_deadlineAtMs d) (hold_command d reg aid) s1)"

text \<open>The loop. Without an admission queue there is one turn, and a busy worker is an error. \<open>None\<close>: the
  environment gave no further turn and the caller still waits.\<close>

fun wait_for_turn :: "dispatch_args \<Rightarrow> registration \<Rightarrow> jstr \<Rightarrow> (attempt \<times> attempt) list \<Rightarrow> bstore
    \<Rightarrow> ((bridge_error, nat option) result \<times> bstore) option" where
  "wait_for_turn d reg aid [] s = None"
| "wait_for_turn d reg aid (t # ts) s =
     (case wait_turn d reg aid t s of
        (Err e, s1) \<Rightarrow> Some (Err e, s1)
      | (Ok (Some slot), s1) \<Rightarrow> Some (Ok slot, s1)
      | (Ok None, s1) \<Rightarrow>
          if selected_admission d = None then Some (Err (StoreError WORKER_BUSY), s1)
          else wait_for_turn d reg aid ts s1)"

section \<open>From the lock to the queue\<close>

text \<open>After a wait the worker must still be the machine, identity and tenant the caller was accepted for, and
  still offer the work.\<close>

definition validate_worker :: "dispatch_args \<Rightarrow> registration \<Rightarrow> (registration \<times> jstr option) option \<Rightarrow> (bridge_error, unit) result" where
  "validate_worker d reg current =
     (case current of
        None \<Rightarrow> Err (StoreError WORKER_OFFLINE)
      | Some (reg', _) \<Rightarrow>
          if \<not> same_worker reg' reg then Err (StoreError WORKER_OFFLINE)
          else if \<not> offers_tool d reg' \<or> \<not> offers_programmatic d reg' then Err (StoreError WORKER_MISMATCH)
          else Ok ())"

definition read_worker :: "dispatch_args \<Rightarrow> (registration \<times> jstr option) option command" where
  "read_worker d now dateNow s = (Ok (dispatchableRegistration now (dp_workerId d) s), s)"

definition revalidate :: "dispatch_args \<Rightarrow> registration \<Rightarrow> attempt \<Rightarrow> bstore \<Rightarrow> (bridge_error, unit) result \<times> bstore" where
  "revalidate d reg t s =
     (if selected_admission d = None then (Ok (), s)
      else case dispatchCommand t (dp_deadlineAtMs d) (read_worker d) s of
        (Err e, s1) \<Rightarrow> (Err e, s1)
      | (Ok current, s1) \<Rightarrow> (validate_worker d reg current, s1))"

definition generation_command :: "dispatch_args \<Rightarrow> int command" where
  "generation_command d now dateNow s = (case INCR now (GenerationKey (dp_workerId d)) s of (n, s1) \<Rightarrow> (Ok n, s1))"

definition dispatched_assignment :: "dispatch_args \<Rightarrow> registration \<Rightarrow> jstr \<Rightarrow> nat option \<Rightarrow> int \<Rightarrow> jstr \<Rightarrow> int \<Rightarrow> assignment" where
  "dispatched_assignment d reg aid slot gen token deadline =
     \<lparr>assignmentId = aid, workerId = dp_workerId d, incarnationId = r_incarnationId reg,
      workspaceFence = map_option (\<lambda>ws. NATIVE_WORKSPACE_FENCE_PREFIX @ ws) (selected_admission d), workspaceLeaseSlot = slot,
      generation = gen, leaseTokenHash = tokenHash token, workerIdentityId = r_identityId reg, expiresAt = deadline,
      runtimeSessionId = dp_runtimeSessionId d, durableRequestKey = None, protocolVersion = 1, leaseToken = token,
      executionKind = (if dp_workspaceRequest d \<noteq> None then Some WorkspaceTool
                       else if dp_workspaceId d \<noteq> None then Some WorkspaceProgrammatic else None),
      asgWorkspaceId = (if dp_workspaceRequest d \<noteq> None then None else dp_workspaceId d),
      request = (case dp_workspaceRequest d of Some req \<Rightarrow> req
                 | None \<Rightarrow> JObj [(js ''body'', dp_body d), (js ''headers'', dp_headers d)])\<rparr>"

definition enqueue_command :: "assignment \<Rightarrow> jstr option \<Rightarrow> bkey list \<Rightarrow> bool command" where
  "enqueue_command a readyToken lanes now dateNow s =
     enqueueForActiveIncarnation now dateNow a (assignmentTtlSeconds dateNow (expiresAt a)) readyToken None lanes s"

text \<open>Where an enqueue left off: whether one was attempted, how it ended, and the assignment and the
  registration it was for.\<close>

record enqueued =
  eq_attempted :: bool
  eq_result :: "(bridge_error, unit) result"
  eq_assignment :: assignment
  eq_registration :: registration
  eq_store :: bstore

definition replacement_refused :: "dispatch_args \<Rightarrow> registration \<Rightarrow> bool" where
  "replacement_refused d reg \<longleftrightarrow> \<not> offers_session d reg \<or> \<not> offers_tool d reg \<or> \<not> offers_programmatic d reg"

text \<open>The attempts to enqueue: work without an admission queue follows the worker to a new incarnation.\<close>

fun enqueue_loop :: "dispatch_args \<Rightarrow> int \<Rightarrow> bool \<Rightarrow> assignment \<Rightarrow> registration \<Rightarrow> jstr option \<Rightarrow> (attempt \<times> attempt) list
    \<Rightarrow> bstore \<Rightarrow> enqueued" where
  "enqueue_loop d deadline attempted a reg token [] s =
     \<lparr>eq_attempted = attempted, eq_result = Err (StoreError WORKER_OFFLINE), eq_assignment = a, eq_registration = reg, eq_store = s\<rparr>"
| "enqueue_loop d deadline attempted a reg token (t # ts) s =
     (let a1 = a\<lparr>incarnationId := r_incarnationId reg\<rparr>;
          stop = (\<lambda>tried res s'. \<lparr>eq_attempted = tried, eq_result = res, eq_assignment = a1, eq_registration = reg, eq_store = s'\<rparr>)
      in case assertDispatchActive (t_aborted (fst t)) (t_dateNow (fst t)) deadline of
           Err e \<Rightarrow> stop attempted (Err e) s
         | Ok _ \<Rightarrow>
             (case run_attempt (fst t) (enqueue_command a1 token (lane_fences (t_now (fst t)) a1 s)) s of
                (Err e, s1) \<Rightarrow> stop True (Err e) s1
              | (Ok True, s1) \<Rightarrow> stop True (Ok ()) s1
              | (Ok False, s1) \<Rightarrow>
                  if selected_admission d \<noteq> None then stop True (Err (StoreError WORKER_FENCED)) s1
                  else case dispatchCommand (snd t) deadline (read_worker d) s1 of
                    (Err e, s2) \<Rightarrow> stop True (Err e) s2
                  | (Ok None, s2) \<Rightarrow> stop True (Err (StoreError WORKER_OFFLINE)) s2
                  | (Ok (Some (reg', token')), s2) \<Rightarrow>
                      if replacement_refused d reg' then stop True (Err (StoreError WORKER_MISMATCH)) s2
                      else enqueue_loop d deadline True a1 reg' token' ts s2))"

section \<open>Dispatch\<close>

record dispatch_env =
  de_start :: attempt
  de_fence :: attempt
  de_enter :: attempt
  de_wait :: "(attempt \<times> attempt) list"
  de_held :: turn
  de_validate :: attempt
  de_ready :: turn
  de_generation :: attempt
  de_enqueue :: "nat \<Rightarrow> attempt \<times> attempt"
  de_close :: turn
  de_polls :: "turn list"
  de_grace :: "turn list"
  de_commit :: turn
  de_mark :: turn
  de_leave :: turn
  de_cleanup :: turn
  de_gone :: bool

record dispatched =
  dr_outcome :: "(bridge_error, settlement) result"
  dr_assignment :: "assignment option"
  dr_attempted :: bool
  dr_committed :: bool
  dr_store :: bstore

definition stopped :: "bridge_error \<Rightarrow> bstore \<Rightarrow> dispatched" where
  "stopped e s = \<lparr>dr_outcome = Err e, dr_assignment = None, dr_attempted = False, dr_committed = False, dr_store = s\<rparr>"

text \<open>The settlement, the caller's own finalization and the commit of the workspace; a failure of these
  leaves the workspace quarantined.\<close>

definition settle_dispatch :: "host \<Rightarrow> dispatch_env \<Rightarrow> (settlement \<Rightarrow> registration \<Rightarrow> (bridge_error, settlement) result) \<Rightarrow> enqueued \<Rightarrow> dispatched" where
  "settle_dispatch H e finalize q =
     (let a = eq_assignment q; t = de_close e;
          run = (\<lambda>res ok s. \<lparr>dr_outcome = res, dr_assignment = Some a, dr_attempted = True, dr_committed = ok, dr_store = s\<rparr>)
      in case waitForSettlement H (t_now t) (t_dateNow t) a (t_aborted t) (t_early t) (de_polls e) (de_grace e) (t_others t (eq_store q)) of
           (Err x, s1) \<Rightarrow> run (Err x) False s1
         | (Ok x, s1) \<Rightarrow>
             (case finalize x (eq_registration q) of
                Err y \<Rightarrow> run (Err y) False (mark_finalization (t_now (de_mark e)) (workerId a) a (t_others (de_mark e) s1))
              | Ok v \<Rightarrow>
                  (case commitPendingWorkspace (t_now (de_commit e)) a x None (t_others (de_commit e) s1) of
                     (Err y, s2) \<Rightarrow> run (Err y) False (mark_finalization (t_now (de_mark e)) (workerId a) a (t_others (de_mark e) s2))
                   | (Ok _, s2) \<Rightarrow> run (Ok v) True s2)))"

definition after_enqueue :: "host \<Rightarrow> dispatch_env \<Rightarrow> (settlement \<Rightarrow> registration \<Rightarrow> (bridge_error, settlement) result) \<Rightarrow> enqueued \<Rightarrow> dispatched" where
  "after_enqueue H e finalize q =
     (case eq_result q of
        Err x \<Rightarrow> \<lparr>dr_outcome = Err x, dr_assignment = Some (eq_assignment q), dr_attempted = eq_attempted q,
                    dr_committed = False, dr_store = eq_store q\<rparr>
      | Ok _ \<Rightarrow> settle_dispatch H e finalize q)"

text \<open>Once the lock or slot is held.\<close>

definition dispatch_held :: "host \<Rightarrow> dispatch_env \<Rightarrow> dispatch_args \<Rightarrow> (settlement \<Rightarrow> registration \<Rightarrow> (bridge_error, settlement) result)
    \<Rightarrow> registration \<Rightarrow> jstr option \<Rightarrow> jstr \<Rightarrow> jstr \<Rightarrow> nat option \<Rightarrow> bstore \<Rightarrow> dispatched" where
  "dispatch_held H e d finalize reg token aid secret slot s =
     (case assertDispatchActive (t_aborted (de_held e)) (t_dateNow (de_held e)) (dp_deadlineAtMs d) of
        Err x \<Rightarrow> stopped x s
      | Ok _ \<Rightarrow>
          (case revalidate d reg (de_validate e) s of
             (Err x, s1) \<Rightarrow> stopped x s1
           | (Ok _, s1) \<Rightarrow>
               (case assertDispatchActive (t_aborted (de_ready e)) (t_dateNow (de_ready e)) (dp_deadlineAtMs d) of
                  Err x \<Rightarrow> stopped x s1
                | Ok _ \<Rightarrow>
                    let deadline = (case dp_executionTimeoutMs d of None \<Rightarrow> dp_deadlineAtMs d | Some n \<Rightarrow> t_dateNow (de_ready e) + n) in
                    (case dispatchCommand (de_generation e) deadline (generation_command d) s1 of
                       (Err x, s2) \<Rightarrow> stopped x s2
                     | (Ok gen, s2) \<Rightarrow>
                         after_enqueue H e finalize
                           (enqueue_loop d deadline False (dispatched_assignment d reg aid slot gen secret deadline) reg token
                              (map (de_enqueue e) [0..<8]) s2)))))"

text \<open>The body of the \<^verbatim>\<open>try\<close>: the admission queue, the wait, the rest.\<close>

definition enter_command :: "dispatch_args \<Rightarrow> registration \<Rightarrow> jstr \<Rightarrow> bool command" where
  "enter_command d reg aid now dateNow s =
     (case enter now dateNow (dp_workerId d) aid (dp_deadlineAtMs d) (if uses_slots d reg then selected_admission d else None) s of
        (b, s1) \<Rightarrow> (Ok b, s1))"

definition dispatch_body :: "host \<Rightarrow> dispatch_env \<Rightarrow> dispatch_args \<Rightarrow> (settlement \<Rightarrow> registration \<Rightarrow> (bridge_error, settlement) result)
    \<Rightarrow> registration \<Rightarrow> jstr option \<Rightarrow> jstr \<Rightarrow> jstr \<Rightarrow> bstore \<Rightarrow> dispatched option" where
  "dispatch_body H e d finalize reg token aid secret s =
     (case (if selected_admission d = None then (Ok True, s) else dispatchCommand (de_enter e) (dp_deadlineAtMs d) (enter_command d reg aid) s) of
        (Err x, s1) \<Rightarrow> Some (stopped x s1)
      | (Ok False, s1) \<Rightarrow> Some (stopped (StoreError WORKER_QUEUE_FULL) s1)
      | (Ok True, s1) \<Rightarrow>
          (case wait_for_turn d reg aid (de_wait e) s1 of
             None \<Rightarrow> None
           | Some (Err x, s2) \<Rightarrow> Some (stopped x s2)
           | Some (Ok slot, s2) \<Rightarrow> Some (dispatch_held H e d finalize reg token aid secret slot s2)))"

text \<open>\<^verbatim>\<open>finally\<close>: leave the queue, then give back what the request holds.\<close>

definition dispatch_cleanup :: "dispatch_env \<Rightarrow> dispatch_args \<Rightarrow> registration \<Rightarrow> jstr \<Rightarrow> dispatched \<Rightarrow> bstore" where
  "dispatch_cleanup e d reg aid r =
     (let t = de_leave e; u = de_cleanup e; w = dp_workerId d;
          s1 = (if selected_admission d = None then dr_store r else leave (t_now t) w aid (t_others t (dr_store r)));
          s2 = t_others u s1
      in if \<not> dr_committed r \<and> uses_slots d reg \<and> dr_assignment r = None
         then cleanupUnassignedSlot (t_now u) (t_dateNow u) w (r_incarnationId reg) aid s2
         else cleanupDispatch (t_now u) (t_dateNow u) w aid (dr_assignment r) s2)"

definition dispatch_tail :: "dispatch_env \<Rightarrow> dispatch_args \<Rightarrow> registration \<Rightarrow> jstr \<Rightarrow> dispatched \<Rightarrow> dispatched" where
  "dispatch_tail e d reg aid r =
     r\<lparr>dr_outcome := (case dr_outcome r of Ok v \<Rightarrow> Ok v
         | Err x \<Rightarrow> Err (if dr_attempted r then x else classifyPreEnqueueExpiry (is_workspace d) (de_gone e) x)),
       dr_store := dispatch_cleanup e d reg aid r\<rparr>"

definition fence_command :: "dispatch_args \<Rightarrow> bool command" where
  "fence_command d now dateNow s =
     (Ok (case dp_runtimeSessionId d of None \<Rightarrow> False | Some z \<Rightarrow> EXISTS now s (workspaceQuarantineKey (dp_workerId d) z)), s)"

text \<open>\<^verbatim>\<open>dispatch\<close>: \<open>aid\<close> and \<open>secret\<close> are the random assignment id and lease token. \<open>None\<close>: the
  caller still waits for its turn.\<close>

definition dispatch :: "host \<Rightarrow> store_config \<Rightarrow> dispatch_env \<Rightarrow> dispatch_args \<Rightarrow> (settlement \<Rightarrow> registration \<Rightarrow> (bridge_error, settlement) result)
    \<Rightarrow> jstr \<Rightarrow> jstr \<Rightarrow> bstore \<Rightarrow> dispatched option" where
  "dispatch H cfg e d finalize aid secret s =
     (let early = (\<lambda>x s'. Some (stopped (classifyPreEnqueueExpiry (is_workspace d) (de_gone e) x) s')) in
      if args_refused d then Some (stopped (StoreError ASSIGNMENT_INVALID) s)
      else case dispatchCommand (de_start e) (dp_deadlineAtMs d) (read_worker d) s of
        (Err x, s1) \<Rightarrow> early x s1
      | (Ok current, s1) \<Rightarrow>
          (case select_worker cfg d current of
             Err x \<Rightarrow> Some (stopped x s1)
           | Ok (reg, token) \<Rightarrow>
               (case (if dp_runtimeSessionId d = None then (Ok False, s1)
                      else dispatchCommand (de_fence e) (dp_deadlineAtMs d) (fence_command d) s1) of
                  (Err x, s2) \<Rightarrow> early x s2
                | (Ok True, s2) \<Rightarrow> Some (stopped (StoreError WORKSPACE_QUARANTINED) s2)
                | (Ok False, s2) \<Rightarrow> map_option (dispatch_tail e d reg aid) (dispatch_body H e d finalize reg token aid secret s2))))"

definition tool_finalize :: "host \<Rightarrow> json \<Rightarrow> settlement \<Rightarrow> registration \<Rightarrow> (bridge_error, settlement) result" where
  "tool_finalize H req x reg =
     (case st_outcome x of
        Fulfilled v \<Rightarrow>
          if isWorkspaceToolResult H req v (fld (r_capabilities reg) ''workspaceTools'') then Ok x else Err (StoreError RESULT_INVALID)
      | Rejected _ _ \<Rightarrow> Ok x)"

definition dispatchWorkspaceTool :: "host \<Rightarrow> store_config \<Rightarrow> dispatch_env \<Rightarrow> dispatch_args \<Rightarrow> json \<Rightarrow> jstr \<Rightarrow> jstr \<Rightarrow> bstore \<Rightarrow> dispatched option" where
  "dispatchWorkspaceTool H cfg e d req aid secret s =
     (if \<not> isWorkspaceToolRequest H req then Some (stopped (StoreError ASSIGNMENT_INVALID) s)
      else dispatch H cfg e (d\<lparr>dp_body := JObj [], dp_headers := JObj [], dp_workspaceRequest := Some req, dp_workspaceId := None,
             dp_runtimeSessionId := None\<rparr>) (tool_finalize H req) aid secret s)"

end
