(* ===== verification/Kmp.thy ===== *)
theory Kmp
  imports Prelude
begin

text \<open>
  The linear search of \<^verbatim>\<open>packages/code/src/edits.ts\<close>: \<^verbatim>\<open>prefixTable\<close> and the loop its three finders
  share. \<open>kmp_loop_naive\<close> shows the loop equal to the search that compares every window.
\<close>

section \<open>Definitions\<close>

text \<open>The inner \<^verbatim>\<open>while\<close>: fall back through the table until the next element fits. In a prefix table the
  entry at \<open>m - 1\<close> is below \<open>m\<close> (\<open>prefixTable_table\<close>), so the minimum is that entry.\<close>

function fall :: "nat list \<Rightarrow> (nat \<Rightarrow> bool) \<Rightarrow> nat \<Rightarrow> nat" where
  "fall pre fits m = (if m > 0 \<and> \<not> fits m then fall pre fits (min (m - 1) (pre ! (m - 1))) else m)"
  by auto
termination by (relation "measure (\<lambda>(pre, fits, m). m)") auto

declare fall.simps [simp del]

definition kmp_step :: "'a list \<Rightarrow> nat list \<Rightarrow> nat \<Rightarrow> 'a \<Rightarrow> nat" where
  "kmp_step pat pre m x =
     (let fits = (\<lambda>j. j < length pat \<and> pat ! j = x); m' = fall pre fits m in if fits m' then Suc m' else m')"

definition prefixTable :: "'a list \<Rightarrow> nat list" where
  "prefixTable pat =
     (if pat = [] then []
      else fst (foldl (\<lambda>(pre, m) x. let m' = kmp_step pat pre m x in (pre @ [m'], m')) ([0], 0) (tl pat)))"

text \<open>The loop of the finders. \<open>hit\<close> handles a complete match ending at an index and tells whether it
  counts; with \<open>disjoint\<close> the elements of one that counts are not used again.\<close>

fun kmp_loop :: "'a list \<Rightarrow> nat list \<Rightarrow> bool \<Rightarrow> (nat \<Rightarrow> 'b \<Rightarrow> 'e + (bool \<times> 'b)) \<Rightarrow> nat \<Rightarrow> nat \<Rightarrow> 'a list \<Rightarrow> 'b \<Rightarrow> 'e + 'b" where
  "kmp_loop pat pre disjoint hit i m [] acc = Inr acc"
| "kmp_loop pat pre disjoint hit i m (x # xs) acc =
     (let m' = kmp_step pat pre m x in
      if m' \<noteq> length pat then kmp_loop pat pre disjoint hit (Suc i) m' xs acc
      else case hit i acc of
             Inl e \<Rightarrow> Inl e
           | Inr (valid, acc') \<Rightarrow> kmp_loop pat pre disjoint hit (Suc i) (if valid \<and> disjoint then 0 else pre ! (m' - 1)) xs acc')"

text \<open>The reference: at every index compare the window that ends there, unless it begins before \<open>base\<close>,
  the end of the last match that was consumed.\<close>

definition window_at :: "'a list \<Rightarrow> nat \<Rightarrow> 'a list \<Rightarrow> bool" where
  "window_at pat base t \<longleftrightarrow> base + length pat \<le> length t \<and> suffix pat t"

fun window_loop :: "'a list \<Rightarrow> bool \<Rightarrow> (nat \<Rightarrow> 'b \<Rightarrow> 'e + (bool \<times> 'b)) \<Rightarrow> 'a list \<Rightarrow> 'a list \<Rightarrow> nat \<Rightarrow> 'b \<Rightarrow> 'e + 'b" where
  "window_loop pat disjoint hit done [] base acc = Inr acc"
| "window_loop pat disjoint hit done (x # xs) base acc =
     (let t = done @ [x] in
      if window_at pat base t
      then case hit (length done) acc of
             Inl e \<Rightarrow> Inl e
           | Inr (valid, acc') \<Rightarrow> window_loop pat disjoint hit t xs (if valid \<and> disjoint then length t else base) acc'
      else window_loop pat disjoint hit t xs base acc)"

section \<open>Borders\<close>

text \<open>\<open>m\<close> is the longest proper prefix of \<open>pat\<close> that ends \<open>t\<close>.\<close>

definition longest :: "'a list \<Rightarrow> 'a list \<Rightarrow> nat \<Rightarrow> bool" where
  "longest pat t m \<longleftrightarrow> m < length pat \<and> suffix (take m pat) t \<and> (\<forall>j < length pat. suffix (take j pat) t \<longrightarrow> j \<le> m)"

text \<open>The first \<open>length pre\<close> entries of a prefix table.\<close>

definition table :: "'a list \<Rightarrow> nat list \<Rightarrow> bool" where
  "table pat pre \<longleftrightarrow> (\<forall>i < length pre. pre ! i \<le> i \<and> suffix (take (pre ! i) pat) (take (Suc i) pat)
     \<and> (\<forall>j \<le> i. suffix (take j pat) (take (Suc i) pat) \<longrightarrow> j \<le> pre ! i))"

lemma tableD:
  assumes "table pat pre" "i < length pre"
  shows "pre ! i \<le> i" "suffix (take (pre ! i) pat) (take (Suc i) pat)" "j \<le> i \<Longrightarrow> suffix (take j pat) (take (Suc i) pat) \<Longrightarrow> j \<le> pre ! i"
  using assms unfolding table_def by blast+

lemma suffix_comparable: "suffix a t \<Longrightarrow> suffix b t \<Longrightarrow> length a \<le> length b \<Longrightarrow> suffix a b"
  by (rule suffix_length_suffix)

lemma suffix_take_snoc:
  assumes "j < length pat"
  shows "suffix (take (Suc j) pat) (t @ [x]) \<longleftrightarrow> suffix (take j pat) t \<and> pat ! j = x"
  using assms by (auto simp: take_Suc_conv_app_nth snoc_suffix_snoc)

lemma fall_longest:
  fixes x :: 'a
  assumes "table pat pre" "m \<le> length pre" "length pre \<le> length pat" "m < length pat" "suffix (take m pat) t"
    and "\<And>j. j < length pat \<Longrightarrow> suffix (take j pat) t \<Longrightarrow> pat ! j = x \<Longrightarrow> j \<le> m"
  defines "fits \<equiv> \<lambda>j. j < length pat \<and> pat ! j = x"
  shows "fall pre fits m \<le> m \<and> suffix (take (fall pre fits m) pat) t \<and> (fits (fall pre fits m) \<or> fall pre fits m = 0)
    \<and> (\<forall>j < length pat. suffix (take j pat) t \<longrightarrow> pat ! j = x \<longrightarrow> j \<le> fall pre fits m)"
  using assms(2,4-6)
proof (induction m rule: less_induct)
  case (less m)
  show ?case
  proof (cases "m > 0 \<and> \<not> fits m")
    case False
    then have "fall pre fits m = m" by (subst fall.simps) auto
    then show ?thesis using less.prems(3,4) False by (intro conjI allI impI) auto
  next
    case True
    let ?k = "pre ! (m - 1)"
    have m: "m - 1 < length pre" "Suc (m - 1) = m" using True less.prems(1) by auto
    note k = tableD [OF assms(1) m(1), unfolded m(2)]
    have eq: "fall pre fits m = fall pre fits ?k" using True k(1) by (subst fall.simps) (simp add: min_def)
    have below: "j \<le> ?k" if j: "j < length pat" "suffix (take j pat) t" "pat ! j = x" for j
    proof -
      have "j \<le> m" using less.prems(4) j by blast
      moreover have "j \<noteq> m" using True j(1,3) by (auto simp: fits_def)
      ultimately have "j \<le> m - 1" by simp
      moreover have "length (take j pat) \<le> length (take m pat)" using \<open>j \<le> m\<close> by simp
      from suffix_comparable [OF j(2) less.prems(3) this] have "suffix (take j pat) (take m pat)" .
      ultimately show ?thesis by (rule k(3))
    qed
    have lt: "?k < m" using k(1) True by linarith
    have suf: "suffix (take ?k pat) t" using k(2) less.prems(3) by (rule suffix_order.trans)
    have len: "?k \<le> length pre" "?k < length pat" using lt less.prems(1,2) by linarith+
    have "fall pre fits ?k \<le> ?k \<and> suffix (take (fall pre fits ?k) pat) t \<and> (fits (fall pre fits ?k) \<or> fall pre fits ?k = 0)
        \<and> (\<forall>j < length pat. suffix (take j pat) t \<longrightarrow> pat ! j = x \<longrightarrow> j \<le> fall pre fits ?k)"
      by (rule less.IH [OF lt len suf]) (rule below)
    then show ?thesis using lt unfolding eq by (meson less_imp_le order.trans)
  qed
qed

lemma kmp_step_longest:
  fixes x :: 'a
  assumes "table pat pre" "m \<le> length pre" "length pre \<le> length pat" "longest pat t m"
  defines "m' \<equiv> kmp_step pat pre m x"
  shows "m' \<le> length pat \<and> suffix (take m' pat) (t @ [x]) \<and> (\<forall>j \<le> length pat. suffix (take j pat) (t @ [x]) \<longrightarrow> j \<le> m')"
proof -
  define fits where "fits = (\<lambda>j. j < length pat \<and> pat ! j = x)"
  define k where "k = fall pre fits m"
  have l: "m < length pat" "suffix (take m pat) t" "\<And>j. j < length pat \<Longrightarrow> suffix (take j pat) t \<Longrightarrow> j \<le> m"
    using assms(4) by (auto simp: longest_def)
  have k: "suffix (take k pat) t" "fits k \<or> k = 0" "\<And>j. j < length pat \<Longrightarrow> suffix (take j pat) t \<Longrightarrow> pat ! j = x \<Longrightarrow> j \<le> k"
    using fall_longest [OF assms(1-3) l(1,2), of x] l(3) by (auto simp: k_def fits_def)
  have m': "m' = (if fits k then Suc k else k)" by (simp add: m'_def kmp_step_def k_def fits_def Let_def)
  have below: "j \<le> m'" if j: "j \<le> length pat" "suffix (take j pat) (t @ [x])" for j
  proof (cases j)
    case (Suc i)
    then have "suffix (take i pat) t" "pat ! i = x" "i < length pat" using j suffix_take_snoc [of i pat t x] by auto
    then show ?thesis using k(2) k(3) [of i] Suc by (auto simp: m' fits_def)
  qed simp
  show ?thesis
  proof (cases "fits k")
    case True
    then show ?thesis using below k(1) suffix_take_snoc [of k pat t x] by (auto simp: m' fits_def)
  next
    case False
    then show ?thesis using below k(2) by (simp add: m')
  qed
qed

section \<open>The table\<close>

lemma suffix_tl: "length a < length b \<Longrightarrow> suffix a b \<longleftrightarrow> suffix a (tl b)"
  by (cases b) (auto simp: suffix_Cons)

lemma table_snoc:
  assumes "table pat pre" "length pre = i" "0 < i" "i < length pat" "longest pat (tl (take i pat)) m"
  defines "m' \<equiv> kmp_step pat pre m (pat ! i)"
  shows "table pat (pre @ [m'])" "longest pat (tl (take (Suc i) pat)) m'"
proof -
  let ?t = "tl (take i pat)"
  have "take i pat \<noteq> []" using assms(3,4) by auto
  then have t: "tl (take (Suc i) pat) = ?t @ [pat ! i]" "length ?t = i - 1"
    using assms(4) by (simp_all add: take_Suc_conv_app_nth)
  have "length (take m pat) \<le> length ?t" using assms(5) suffix_length_le unfolding longest_def by blast
  then have m: "m \<le> i - 1" "m < length pat" using assms(4,5) t(2) by (auto simp: longest_def)
  have s: "m' \<le> length pat" "suffix (take m' pat) (tl (take (Suc i) pat))"
      "\<And>j. j \<le> length pat \<Longrightarrow> suffix (take j pat) (tl (take (Suc i) pat)) \<Longrightarrow> j \<le> m'"
    using kmp_step_longest [OF assms(1) _ _ assms(5), of "pat ! i"] assms(2-4) m unfolding t(1) m'_def by auto
  have "length (take m' pat) \<le> length (tl (take (Suc i) pat))" using s(2) by (rule suffix_length_le)
  then have le: "m' \<le> i" using s(1) assms(4) by simp
  have proper: "suffix (take j pat) (take (Suc i) pat) \<longleftrightarrow> suffix (take j pat) (tl (take (Suc i) pat))" if "j \<le> i" for j
    using that assms(4) by (intro suffix_tl) simp
  have "\<And>j. j \<le> i \<Longrightarrow> suffix (take j pat) (take (Suc i) pat) \<Longrightarrow> j \<le> m'" using proper s(3) assms(4) by simp
  then show "table pat (pre @ [m'])"
    using assms(1,2) le proper [OF le] s(2) by (auto simp: table_def nth_append less_Suc_eq)
  show "longest pat (tl (take (Suc i) pat)) m'" using s le assms(4) by (auto simp: longest_def)
qed

lemma foldl_table:
  assumes "table pat pre" "length pre = i" "0 < i" "i \<le> length pat" "longest pat (tl (take i pat)) m"
  shows "table pat (fst (foldl (\<lambda>(pre, m) x. let m' = kmp_step pat pre m x in (pre @ [m'], m')) (pre, m) (drop i pat)))
    \<and> length (fst (foldl (\<lambda>(pre, m) x. let m' = kmp_step pat pre m x in (pre @ [m'], m')) (pre, m) (drop i pat))) = length pat"
  using assms
proof (induction "length pat - i" arbitrary: pre i m)
  case (Suc n)
  then have "drop i pat = pat ! i # drop (Suc i) pat" "i < length pat" by (simp_all add: Cons_nth_drop_Suc)
  then show ?case using Suc table_snoc [OF Suc.prems(1-3) _ Suc.prems(5)] by (simp add: Let_def)
qed simp

lemma prefixTable_table: "table pat (prefixTable pat)" "length (prefixTable pat) = length pat"
proof -
  have base: "table pat [0]" by (simp add: table_def)
  have "table pat (prefixTable pat) \<and> length (prefixTable pat) = length pat"
  proof (cases "pat = []")
    case False
    then have l: "longest pat (tl (take 1 pat)) 0" by (cases pat) (auto simp: longest_def)
    have "Suc 0 \<le> length pat" using False by (cases pat) auto
    then show ?thesis using False foldl_table [OF base _ _ _ l] by (simp add: prefixTable_def drop_Suc)
  qed (simp add: prefixTable_def table_def)
  then show "table pat (prefixTable pat)" "length (prefixTable pat) = length pat" by simp_all
qed

section \<open>The search\<close>

lemma table_last:
  assumes "pat \<noteq> []" "suffix pat t"
  shows "longest pat t (prefixTable pat ! (length pat - 1))"
proof -
  let ?k = "prefixTable pat ! (length pat - 1)"
  have n: "length pat - 1 < length (prefixTable pat)" "Suc (length pat - 1) = length pat" using assms(1) by (simp_all add: prefixTable_table(2))
  note k = tableD [OF prefixTable_table(1) n(1), unfolded n(2) take_all [OF order_refl]]
  have "suffix (take j pat) pat" if "suffix (take j pat) t" for j
    by (rule suffix_comparable [OF that assms(2)]) simp
  then have "j \<le> ?k" if "suffix (take j pat) t" "j < length pat" for j using that n(2) by (intro k(3)) linarith+
  moreover have "suffix (take ?k pat) t" using k(2) assms(2) by (rule suffix_order.trans)
  moreover have "?k < length pat" using k(1) n(2) by simp
  ultimately show ?thesis by (simp add: longest_def)
qed

lemma suffix_drop_iff:
  assumes "b \<le> length t"
  shows "suffix p (drop b t) \<longleftrightarrow> b + length p \<le> length t \<and> suffix p t"
proof
  assume s: "suffix p (drop b t)"
  then show "b + length p \<le> length t \<and> suffix p t"
    using suffix_length_le [OF s] assms suffix_order.trans [OF s suffix_drop] by simp
next
  assume "b + length p \<le> length t \<and> suffix p t"
  then show "suffix p (drop b t)" using assms by (intro suffix_comparable [of p t "drop b t"] suffix_drop) auto
qed

theorem kmp_loop_windows:
  assumes "pat \<noteq> []" "base \<le> length done" "longest pat (drop base done) m"
  shows "kmp_loop pat (prefixTable pat) disjoint hit (length done) m xs acc = window_loop pat disjoint hit done xs base acc"
  using assms(2,3)
proof (induction xs arbitrary: "done" m base acc)
  case (Cons x xs)
  let ?t = "done @ [x]" and ?m = "kmp_step pat (prefixTable pat) m x"
  have tail: "drop base ?t = drop base done @ [x]" using Cons.prems(1) by simp
  have m: "m \<le> length (prefixTable pat)" using Cons.prems(2) prefixTable_table(2) [of pat] by (simp add: longest_def)
  have step: "?m \<le> length pat" "suffix (take ?m pat) (drop base ?t)" "\<And>j. j \<le> length pat \<Longrightarrow> suffix (take j pat) (drop base ?t) \<Longrightarrow> j \<le> ?m"
    using kmp_step_longest [OF prefixTable_table(1) m _ Cons.prems(2), of x] prefixTable_table(2) [of pat] unfolding tail by auto
  have full: "?m = length pat \<longleftrightarrow> suffix pat (drop base ?t)" using step(1,2) step(3) [of "length pat"] by auto
  have window: "suffix pat (drop base ?t) \<longleftrightarrow> window_at pat base ?t"
    unfolding window_at_def by (rule suffix_drop_iff) (use Cons.prems(1) in simp)
  show ?case
  proof (cases "?m = length pat")
    case False
    then have "longest pat (drop base ?t) ?m" using step by (auto simp: longest_def)
    then have "kmp_loop pat (prefixTable pat) disjoint hit (Suc (length done)) ?m xs acc = window_loop pat disjoint hit ?t xs base acc"
      using Cons.IH [of base ?t ?m acc] Cons.prems(1) by simp
    moreover have "\<not> window_at pat base ?t" using False full window by blast
    ultimately show ?thesis using False unfolding kmp_loop.simps window_loop.simps Let_def by simp
  next
    case True
    have s: "suffix pat (drop base ?t)" using True full by simp
    have "longest pat (drop (length ?t) ?t) 0" using assms(1) by (auto simp: longest_def)
    then have IH: "kmp_loop pat (prefixTable pat) disjoint hit (Suc (length done)) (if b then 0 else prefixTable pat ! (?m - 1)) xs acc'
        = window_loop pat disjoint hit ?t xs (if b then length ?t else base) acc'" for b acc'
      using Cons.IH [of "if b then length ?t else base" ?t "if b then 0 else prefixTable pat ! (?m - 1)" acc'] Cons.prems(1)
        table_last [OF assms(1) s] True by (cases b) simp_all
    have "window_at pat base ?t" using s window by blast
    then show ?thesis using True IH unfolding kmp_loop.simps window_loop.simps Let_def by (simp split: sum.split)
  qed
qed simp

lemma kmp_loop_naive:
  assumes "pat \<noteq> []"
  shows "kmp_loop pat (prefixTable pat) disjoint hit 0 0 xs acc = window_loop pat disjoint hit [] xs 0 acc"
  using kmp_loop_windows [of pat 0 "[]" 0 disjoint hit xs acc] assms by (auto simp: longest_def)

end
