(* ===== verification/EditMatching.thy ===== *)
theory EditMatching
  imports Kmp Validators
begin

text \<open>
  The finders of \<^verbatim>\<open>packages/code/src/edits.ts\<close>: where an edit's \<^verbatim>\<open>oldText\<close> stands in a file, exactly
  or up to white space, and what replaces it. Offsets count UTF-16 code units.
\<close>

section \<open>Data\<close>

definition MAX_REPORTED_LINES :: nat where "MAX_REPORTED_LINES = 5"
definition MAX_LINE_WINDOW_VERIFICATIONS :: nat where "MAX_LINE_WINDOW_VERIFICATIONS = 100000"
definition MAX_REPLACEMENT_CHUNK_CHARS :: nat where "MAX_REPLACEMENT_CHUNK_CHARS = 16 * 1024"

record text_edit =
  oldText :: jstr
  newText :: jstr
  replaceAll :: bool

datatype strategy = ExactText | LineTrimmed | IndentationFlexible | WhitespaceNormalized

record matched_range =
  mr_start :: nat
  mr_end :: nat
  mr_replacement :: jstr

record edit_output =
  eo_chunks :: "jstr list"
  eo_pending :: jstr
  eo_cursor :: nat

record collected =
  cm_count :: nat
  cm_source :: jstr
  cm_projectedLength :: int
  cm_ranges :: "matched_range list"
  cm_starts :: "nat list"
  cm_output :: "edit_output option"

datatype match_outcome =
    Matched strategy "matched_range list" nat "jstr option"
  | Ambiguous strategy nat "nat list"
  | LimitReached
  | NoMatch

text \<open>How a finder stops early: the verification budget is spent, or the output cannot fit.\<close>

datatype edit_stop = VerificationLimit | WorkspaceEditOutputLimit

section \<open>Collecting matches\<close>

definition collectedMatches :: "jstr \<Rightarrow> bool \<Rightarrow> collected" where
  "collectedMatches text all =
     \<lparr>cm_count = 0, cm_source = text, cm_projectedLength = int (length text), cm_ranges = [], cm_starts = [],
      cm_output = (if all then Some \<lparr>eo_chunks = [], eo_pending = [], eo_cursor = 0\<rparr> else None)\<rparr>"

definition appendReplacement :: "edit_output \<Rightarrow> jstr \<Rightarrow> edit_output" where
  "appendReplacement output part =
     (if part = [] then output
      else let pending = eo_pending output @ part in
           if length pending \<ge> MAX_REPLACEMENT_CHUNK_CHARS then output\<lparr>eo_chunks := eo_chunks output @ [pending], eo_pending := []\<rparr>
           else output\<lparr>eo_pending := pending\<rparr>)"

definition finishReplacement :: "jstr \<Rightarrow> edit_output \<Rightarrow> jstr" where
  "finishReplacement source output =
     (if eo_cursor output = 0 then source
      else let o' = appendReplacement output (sliceFrom source (eo_cursor output)) in concat (eo_chunks o') @ eo_pending o')"

definition put_match :: "jstr \<Rightarrow> nat \<Rightarrow> nat \<Rightarrow> jstr \<Rightarrow> edit_output \<Rightarrow> edit_output" where
  "put_match source start stop replacement output =
     (if replacement \<noteq> slice source start stop
      then (appendReplacement (appendReplacement output (slice source (eo_cursor output) start)) replacement)\<lparr>eo_cursor := stop\<rparr>
      else output)"

definition count_match :: "nat \<Rightarrow> nat \<Rightarrow> jstr \<Rightarrow> collected \<Rightarrow> collected" where
  "count_match start stop replacement c =
     (let n = Suc (cm_count c) in
      c\<lparr>cm_count := n,
        cm_starts := (if length (cm_starts c) < MAX_REPORTED_LINES then cm_starts c @ [start] else cm_starts c),
        cm_ranges := (if n = 1 then cm_ranges c @ [\<lparr>mr_start = start, mr_end = stop, mr_replacement = replacement\<rparr>] else cm_ranges c)\<rparr>)"

definition collectMatch :: "collected \<Rightarrow> nat \<Rightarrow> nat \<Rightarrow> jstr \<Rightarrow> bool \<Rightarrow> (edit_stop, collected) result" where
  "collectMatch c start stop replacement all =
     (if \<not> all then Ok (count_match start stop replacement c)
      else let projected = cm_projectedLength c + int (length replacement) - (int stop - int start) in
           if projected - (int (length (cm_source c)) - int stop) > BRIDGE_WORKSPACE_WRITE_MAX_BYTES then Err WorkspaceEditOutputLimit
           else Ok (count_match start stop replacement
                  (c\<lparr>cm_projectedLength := projected, cm_output := map_option (put_match (cm_source c) start stop replacement) (cm_output c)\<rparr>)))"

definition resolve_matches :: "strategy \<Rightarrow> collected \<Rightarrow> bool \<Rightarrow> match_outcome" where
  "resolve_matches st c all =
     (if cm_count c = 0 then NoMatch
      else if cm_count c = 1 \<or> all
      then Matched st (cm_ranges c) (cm_count c) (if all then map_option (finishReplacement (cm_source c)) (cm_output c) else None)
      else Ambiguous st (cm_count c) (cm_starts c))"

section \<open>Exact matches\<close>

definition hit_exact :: "text_edit \<Rightarrow> nat \<Rightarrow> collected \<Rightarrow> (edit_stop, bool \<times> collected) result" where
  "hit_exact e index c =
     (case collectMatch c (index + 1 - length (oldText e)) (index + 1) (newText e) (replaceAll e) of
        Err x \<Rightarrow> Err x | Ok c' \<Rightarrow> Ok (True, c'))"

definition findExact :: "jstr \<Rightarrow> text_edit \<Rightarrow> (edit_stop, match_outcome) result" where
  "findExact text e =
     (if oldText e = [] then Ok NoMatch
      else case kmp_loop (oldText e) (prefixTable (oldText e)) (replaceAll e) (hit_exact e) 0 0 text (collectedMatches text (replaceAll e)) of
             Err x \<Rightarrow> Err x
           | Ok c \<Rightarrow> Ok (resolve_matches ExactText c (replaceAll e)))"

section \<open>Lines\<close>

text \<open>\<^verbatim>\<open>s.indexOf(c, from)\<close> for one code unit.\<close>

definition index_from :: "nat \<Rightarrow> jstr \<Rightarrow> nat \<Rightarrow> nat option" where
  "index_from c s i = (let k = i + length (takeWhile (\<lambda>x. x \<noteq> c) (drop i s)) in if k < length s then Some k else None)"

definition newlines :: "jstr \<Rightarrow> nat list" where
  "newlines s = filter (\<lambda>i. s ! i = 10) [0..<length s]"

definition newlineCount :: "jstr \<Rightarrow> nat" where
  "newlineCount s = length (filter (\<lambda>c. c = 10) s)"

text \<open>\<^verbatim>\<open>LineIndex\<close>: the lines of a source, by number.\<close>

definition line_count :: "jstr \<Rightarrow> nat" where
  "line_count s = Suc (length (newlines s))"

definition line_start :: "jstr \<Rightarrow> nat \<Rightarrow> nat" where
  "line_start s i = (if i = 0 then 0 else newlines s ! (i - 1) + 1)"

definition line_next :: "jstr \<Rightarrow> nat \<Rightarrow> nat option" where
  "line_next s i = (if i < length (newlines s) then Some (newlines s ! i + 1) else None)"

definition line_end :: "jstr \<Rightarrow> nat \<Rightarrow> nat" where
  "line_end s i =
     (let start = line_start s i; stop = (if i < length (newlines s) then newlines s ! i else length s)
      in if stop > start \<and> s ! (stop - 1) = 13 then stop - 1 else stop)"

definition line_text :: "jstr \<Rightarrow> nat \<Rightarrow> jstr" where
  "line_text s i = slice s (line_start s i) (line_end s i)"

text \<open>\<^verbatim>\<open>replace(/\r\n/g, '\n')\<close>, \<^verbatim>\<open>replace(/\n/g, '\r\n')\<close> and the two one-sided trims.\<close>

fun crlf_to_lf :: "jstr \<Rightarrow> jstr" where
  "crlf_to_lf [] = []"
| "crlf_to_lf [c] = [c]"
| "crlf_to_lf (c # d # cs) = (if c = 13 \<and> d = 10 then 10 # crlf_to_lf cs else c # crlf_to_lf (d # cs))"

definition lf_to_crlf :: "jstr \<Rightarrow> jstr" where
  "lf_to_crlf s = concat (map (\<lambda>c. if c = 10 then [13, 10] else [c]) s)"

definition trimStart :: "jstr \<Rightarrow> jstr" where "trimStart s = dropWhile is_space s"
definition trimEnd :: "jstr \<Rightarrow> jstr" where "trimEnd s = rev (dropWhile is_space (rev s))"

definition neededLines :: "jstr \<Rightarrow> jstr list \<times> bool" where
  "neededLines old =
     (let normalized = crlf_to_lf old; through = endsWith normalized [10]
      in (split_on 10 (if through then butlast normalized else normalized), through))"

text \<open>Line endings: \<open>True\<close> is \<^verbatim>\<open>'\r\n'\<close>.\<close>

fun includes_crlf :: "jstr \<Rightarrow> bool" where
  "includes_crlf (c # d # cs) = (c = 13 \<and> d = 10 \<or> includes_crlf (d # cs))"
| "includes_crlf _ = False"

definition fileLineEnding :: "jstr \<Rightarrow> bool" where
  "fileLineEnding text = includes_crlf text"

definition lineEndingAt :: "jstr \<Rightarrow> nat \<Rightarrow> bool" where
  "lineEndingAt text newline \<longleftrightarrow> newline > 0 \<and> text ! (newline - 1) = 13"

definition withLineEnding :: "jstr \<Rightarrow> bool \<Rightarrow> jstr" where
  "withLineEnding value crlf = (let normalized = crlf_to_lf value in if crlf then lf_to_crlf normalized else normalized)"

definition leadingWhitespace :: "jstr \<Rightarrow> jstr" where
  "leadingWhitespace line = takeWhile (\<lambda>c. c = 32 \<or> c = 9) line"

fun shared_prefix :: "jstr \<Rightarrow> jstr \<Rightarrow> jstr" where
  "shared_prefix (a # as) (b # bs) = (if a = b then a # shared_prefix as bs else [])"
| "shared_prefix _ _ = []"

definition commonIndent :: "jstr list \<Rightarrow> jstr" where
  "commonIndent lines =
     (case foldl (\<lambda>common line.
             if trim line = [] then common
             else Some (case common of None \<Rightarrow> leadingWhitespace line | Some c \<Rightarrow> shared_prefix c (leadingWhitespace line)))
           None lines of
        None \<Rightarrow> [] | Some c \<Rightarrow> c)"

definition stripIndent :: "jstr \<Rightarrow> jstr \<Rightarrow> jstr" where
  "stripIndent line indent = (if startsWith line indent then sliceFrom line (length indent) else trimStart line)"

definition reindent :: "jstr \<Rightarrow> jstr \<Rightarrow> jstr \<Rightarrow> jstr" where
  "reindent value from to =
     (if from = to then value
      else join_with [10] (map (\<lambda>line. if trim line \<noteq> [] \<and> startsWith line from then to @ sliceFrom line (length from) else line)
             (split_on 10 (crlf_to_lf value))))"

section \<open>Line windows\<close>

record window_search =
  ws_text :: jstr
  ws_edit :: text_edit
  ws_flexible :: bool
  ws_needle :: "jstr list"
  ws_through :: bool
  ws_indent :: jstr
  ws_normalized :: "jstr list"

definition window_search_of :: "jstr \<Rightarrow> text_edit \<Rightarrow> bool \<Rightarrow> window_search" where
  "window_search_of text e flexible =
     (let (needle, through) = neededLines (oldText e);
          indent = (if flexible then commonIndent needle else [])
      in \<lparr>ws_text = text, ws_edit = e, ws_flexible = flexible, ws_needle = needle, ws_through = through, ws_indent = indent,
          ws_normalized = map (\<lambda>line. trimEnd (if flexible then stripIndent line indent else line)) needle\<rparr>)"

definition ws_sought :: "window_search \<Rightarrow> jstr list" where
  "ws_sought w = (if ws_flexible w then map trimStart (ws_normalized w) else ws_normalized w)"

definition ws_lines :: "window_search \<Rightarrow> jstr list" where
  "ws_lines w = map (\<lambda>i. (if ws_flexible w then trim else trimEnd) (line_text (ws_text w) i)) [0..<line_count (ws_text w)]"

definition window_replacement :: "window_search \<Rightarrow> nat \<Rightarrow> jstr \<Rightarrow> jstr" where
  "window_replacement w first windowIndent =
     (let text = ws_text w;
          replacement = (if ws_flexible w then reindent (newText (ws_edit w)) (ws_indent w) windowIndent else newText (ws_edit w));
          lineFeed = (case line_next text first of Some n \<Rightarrow> Some n | None \<Rightarrow> if first > 0 then line_next text (first - 1) else None)
      in withLineEnding replacement (case lineFeed of None \<Rightarrow> fileLineEnding text | Some n \<Rightarrow> lineEndingAt text (n - 1)))"

text \<open>A complete candidate ending at line \<open>index\<close>: the accumulator carries the lines verified so far.\<close>

definition hit_window :: "window_search \<Rightarrow> nat \<Rightarrow> nat \<times> collected \<Rightarrow> (edit_stop, bool \<times> nat \<times> collected) result" where
  "hit_window w index acc =
     (let (verifications, c) = acc; text = ws_text w; n = length (ws_needle w); first = index + 1 - n;
          stop = (if ws_through w then line_next text index else Some (line_end text index));
          window = map (\<lambda>k. line_text text (first + k)) [0..<n];
          windowIndent = (if ws_flexible w then commonIndent window else []);
          checks = (stop \<noteq> None \<and> ws_flexible w);
          spent = (if checks then verifications + n else verifications);
          valid = (stop \<noteq> None \<and> (ws_flexible w \<longrightarrow>
            list_all2 (\<lambda>expected line. trimEnd (stripIndent line windowIndent) = expected) (ws_normalized w) window))
      in if checks \<and> spent > max MAX_LINE_WINDOW_VERIFICATIONS n then Err VerificationLimit
         else if \<not> valid then Ok (False, spent, c)
         else case collectMatch c (line_start text first) (the stop) (window_replacement w first windowIndent) (replaceAll (ws_edit w)) of
                Err x \<Rightarrow> Err x
              | Ok c' \<Rightarrow> Ok (True, spent, c'))"

definition findLineWindows :: "bool \<Rightarrow> jstr \<Rightarrow> text_edit \<Rightarrow> (edit_stop, match_outcome) result" where
  "findLineWindows flexible text e =
     (let w = window_search_of text e flexible; sought = ws_sought w; all = replaceAll e in
      if list_all (\<lambda>line. trim line = []) (ws_needle w) then Ok NoMatch
      else if length (ws_needle w) > line_count text then Ok NoMatch
      else case kmp_loop sought (prefixTable sought) all (hit_window w) 0 0 (ws_lines w) (0, collectedMatches text all) of
             Err VerificationLimit \<Rightarrow> Ok LimitReached
           | Err WorkspaceEditOutputLimit \<Rightarrow> Err WorkspaceEditOutputLimit
           | Ok (_, c) \<Rightarrow> Ok (resolve_matches (if flexible then IndentationFlexible else LineTrimmed) c all))"

definition findLineTrimmed :: "jstr \<Rightarrow> text_edit \<Rightarrow> (edit_stop, match_outcome) result" where
  "findLineTrimmed text e = findLineWindows False text e"

definition findIndentationFlexible :: "jstr \<Rightarrow> text_edit \<Rightarrow> (edit_stop, match_outcome) result" where
  "findIndentationFlexible text e = findLineWindows True text e"

section \<open>White space between tokens\<close>

text \<open>The matches of \<^verbatim>\<open>/\S+/g\<close> with their offsets, from offset \<open>i\<close> on.\<close>

lemma length_dropWhile_less [termination_simp]: "length (dropWhile P xs) < Suc (length xs)"
  by (simp add: length_dropWhile_le le_imp_less_Suc)

fun words_from :: "nat \<Rightarrow> jstr \<Rightarrow> (nat \<times> jstr) list" where
  "words_from i [] = []"
| "words_from i (c # cs) =
     (if is_space c then words_from (Suc i) cs
      else let w = takeWhile (\<lambda>x. \<not> is_space x) (c # cs) in (i, w) # words_from (i + length w) (dropWhile (\<lambda>x. \<not> is_space x) cs))"

text \<open>\<^verbatim>\<open>split(/\s+/)\<close>.\<close>

function split_spaces :: "jstr \<Rightarrow> jstr list" where
  "split_spaces s =
     (let w = takeWhile (\<lambda>x. \<not> is_space x) s; rest = dropWhile (\<lambda>x. \<not> is_space x) s
      in w # (if rest = [] then [] else split_spaces (dropWhile is_space rest)))"
  by auto
termination
proof (relation "measure length")
  fix s w rest :: jstr
  assume rest: "rest = dropWhile (\<lambda>x. \<not> is_space x) s" "rest \<noteq> []"
  then have "is_space (hd rest)" using hd_dropWhile [of "\<lambda>x. \<not> is_space x" s] by simp
  then obtain c cs where c: "rest = c # cs" "is_space c" using rest(2) by (metis list.collapse)
  have "length rest \<le> length s" using rest(1) by (simp add: length_dropWhile_le)
  then show "(dropWhile is_space rest, s) \<in> measure length" using c length_dropWhile_less [of is_space cs] by simp
qed simp

declare split_spaces.simps [simp del]

definition edit_tokens :: "jstr \<Rightarrow> jstr list" where
  "edit_tokens old = filter (\<lambda>w. w \<noteq> []) (split_spaces (trim old))"

text \<open>\<^verbatim>\<open>hasBoundaryWhitespace\<close> on the text from the position on, in the direction of the walk.\<close>

fun hasBoundaryWhitespace :: "jstr \<Rightarrow> int \<Rightarrow> bool" where
  "hasBoundaryWhitespace [] required = False"
| "hasBoundaryWhitespace (c # cs) required =
     (if \<not> is_space c then False
      else let required' = (if c = 10 then required - 1 else required) in
           if required' \<le> 0 then True else hasBoundaryWhitespace cs required')"

definition leading_space :: "jstr \<Rightarrow> jstr" where "leading_space s = takeWhile is_space s"
definition trailing_space :: "jstr \<Rightarrow> jstr" where "trailing_space s = rev (takeWhile is_space (rev s))"

text \<open>The offset just past the \<open>n\<close>-th newline, and the one of the \<open>n\<close>-th newline from the end.\<close>

primrec past_newlines :: "nat \<Rightarrow> jstr \<Rightarrow> nat \<Rightarrow> nat" where
  "past_newlines 0 s stop = stop"
| "past_newlines (Suc n) s stop = past_newlines n s (case index_from 10 s stop of Some k \<Rightarrow> k + 1 | None \<Rightarrow> 0)"

definition last_index_before :: "nat \<Rightarrow> jstr \<Rightarrow> nat \<Rightarrow> nat option" where
  "last_index_before c s i = (let ks = filter (\<lambda>k. s ! k = c) [0..<min i (length s)] in if ks = [] then None else Some (last ks))"

primrec before_newlines :: "nat \<Rightarrow> jstr \<Rightarrow> nat \<Rightarrow> nat" where
  "before_newlines 0 s start = start"
| "before_newlines (Suc n) s start = before_newlines n s (case last_index_before 10 s start of Some k \<Rightarrow> k | None \<Rightarrow> 0)"

definition peel_leading :: "jstr \<Rightarrow> jstr \<Rightarrow> jstr option" where
  "peel_leading text boundary =
     (let whitespace = leading_space text; required = newlineCount boundary in
      if boundary = [] then Some text
      else if whitespace = boundary then Some (sliceFrom text (length boundary))
      else if required = 0 \<or> newlineCount whitespace < required then None
      else let stop = past_newlines required whitespace 0 in
           Some (sliceFrom text (stop + length (takeWhile (\<lambda>c. c \<noteq> 10) (drop stop whitespace)))))"

definition peel_trailing :: "jstr \<Rightarrow> jstr \<Rightarrow> jstr option" where
  "peel_trailing text boundary =
     (let whitespace = trailing_space text; required = newlineCount boundary in
      if boundary = [] then Some text
      else if whitespace = boundary then Some (take (length text - length boundary) text)
      else if required = 0 \<or> newlineCount whitespace < required then None
      else if newlineCount whitespace = required then Some (take (length text - length whitespace) text)
      else Some (take (length text - (length whitespace - before_newlines required whitespace (length whitespace))) text))"

text \<open>The newline cursor, which only moves forward: the next newline at or after \<open>start\<close> and the one
  before it.\<close>

lemma index_from_ge: "index_from c s i = Some k \<Longrightarrow> i \<le> k"
  by (auto simp: index_from_def Let_def split: if_splits)

function advance_newline :: "jstr \<Rightarrow> nat \<Rightarrow> nat option \<Rightarrow> nat option \<Rightarrow> nat option \<times> nat option" where
  "advance_newline text start None prev = (None, prev)"
| "advance_newline text start (Some n) prev =
     (if n < start then advance_newline text start (index_from 10 text (n + 1)) (Some n) else (Some n, prev))"
  by pat_completeness auto
termination
proof (relation "measure (\<lambda>(text, start, next, prev). case next of None \<Rightarrow> 0 | Some n \<Rightarrow> Suc start - n)")
  fix t :: jstr and start n :: nat and prev :: "nat option"
  assume "n < start"
  then show "((t, start, index_from 10 t (n + 1), Some n), t, start, Some n, prev)
      \<in> measure (\<lambda>(text, start, next, prev). case next of None \<Rightarrow> 0 | Some n \<Rightarrow> Suc start - n)"
    using index_from_ge [of 10 t "n + 1"] by (cases "index_from 10 t (n + 1)") auto
qed simp

record token_search =
  tk_text :: jstr
  tk_edit :: text_edit
  tk_tokens :: "jstr list"
  tk_leading :: jstr
  tk_trailing :: jstr
  tk_replacement :: jstr

text \<open>\<open>None\<close>: fewer than two tokens, or white space around \<^verbatim>\<open>newText\<close> that cannot be peeled off.\<close>

definition token_search_of :: "jstr \<Rightarrow> text_edit \<Rightarrow> token_search option" where
  "token_search_of text e =
     (let old = crlf_to_lf (oldText e); tokens = edit_tokens old; leading = leading_space old; trailing = trailing_space old in
      if length tokens < 2 then None
      else case peel_leading (crlf_to_lf (newText e)) leading of
        None \<Rightarrow> None
      | Some without \<Rightarrow> map_option (\<lambda>new. \<lparr>tk_text = text, tk_edit = e, tk_tokens = tokens, tk_leading = leading,
          tk_trailing = trailing, tk_replacement = new\<rparr>) (peel_trailing without trailing))"

text \<open>The tokens of \<open>oldText\<close> end at token \<open>index\<close> of the file; the offset of the first of them is read
  from the file's tokens where the source keeps the last few in a ring.\<close>

definition hit_tokens :: "token_search \<Rightarrow> (nat \<times> jstr) list \<Rightarrow> nat \<Rightarrow> (nat option \<times> nat option) \<times> collected
    \<Rightarrow> (edit_stop, bool \<times> (nat option \<times> nat option) \<times> collected) result" where
  "hit_tokens k spans index acc =
     (let (cursor, c) = acc; text = tk_text k;
          start = fst (spans ! (index + 1 - length (tk_tokens k)));
          stop = fst (spans ! index) + length (snd (spans ! index));
          boundaries = (tk_leading k = [] \<or> hasBoundaryWhitespace (rev (take start text)) (int (newlineCount (tk_leading k))))
            \<and> (tk_trailing k = [] \<or> hasBoundaryWhitespace (drop stop text) (int (newlineCount (tk_trailing k))))
      in if \<not> boundaries then Ok (False, cursor, c)
         else let (next, previous) = advance_newline text start (fst cursor) (snd cursor);
                  nearest = (case next of Some n \<Rightarrow> Some n | None \<Rightarrow> previous);
                  crlf = (case nearest of None \<Rightarrow> False | Some n \<Rightarrow> lineEndingAt text n)
              in case collectMatch c start stop (if crlf then withLineEnding (tk_replacement k) True else tk_replacement k) (replaceAll (tk_edit k)) of
                   Err x \<Rightarrow> Err x
                 | Ok c' \<Rightarrow> Ok (True, (next, previous), c'))"

definition findWhitespaceNormalized :: "jstr \<Rightarrow> text_edit \<Rightarrow> (edit_stop, match_outcome) result" where
  "findWhitespaceNormalized text e =
     (case token_search_of text e of
        None \<Rightarrow> Ok NoMatch
      | Some k \<Rightarrow>
          (let spans = words_from 0 text; all = replaceAll e in
           case kmp_loop (tk_tokens k) (prefixTable (tk_tokens k)) all (hit_tokens k spans) 0 0 (map snd spans)
                  ((index_from 10 text 0, None), collectedMatches text all) of
             Err x \<Rightarrow> Err x
           | Ok (_, c) \<Rightarrow> Ok (resolve_matches WhitespaceNormalized c all)))"

section \<open>The strategies\<close>

type_synonym finder = "jstr \<Rightarrow> text_edit \<Rightarrow> (edit_stop, match_outcome) result"

definition RELAXED_STRATEGIES :: "finder list" where
  "RELAXED_STRATEGIES = [findLineTrimmed, findIndentationFlexible, findWhitespaceNormalized]"

definition EXACT_STRATEGIES :: "finder list" where "EXACT_STRATEGIES = [findExact]"
definition TOLERANT_STRATEGIES :: "finder list" where "TOLERANT_STRATEGIES = findExact # RELAXED_STRATEGIES"

fun first_match :: "finder list \<Rightarrow> finder" where
  "first_match [] text e = Ok NoMatch"
| "first_match (f # fs) text e =
     (case f text e of
        Err x \<Rightarrow> Err x
      | Ok NoMatch \<Rightarrow> first_match fs text e
      | Ok r \<Rightarrow> Ok r)"

definition findEditMatch :: "bool \<Rightarrow> finder" where
  "findEditMatch tolerant = first_match (if tolerant then TOLERANT_STRATEGIES else EXACT_STRATEGIES)"

fun join_ranges :: "jstr \<Rightarrow> nat \<Rightarrow> matched_range list \<Rightarrow> jstr" where
  "join_ranges text cursor [] = sliceFrom text cursor"
| "join_ranges text cursor (r # rs) = slice text cursor (mr_start r) @ mr_replacement r @ join_ranges text (mr_end r) rs"

definition replaceRanges :: "jstr \<Rightarrow> matched_range list \<Rightarrow> (edit_stop, jstr) result" where
  "replaceRanges text rs =
     (let len = int (length text) + sum_list (map (\<lambda>r. int (length (mr_replacement r)) - (int (mr_end r) - int (mr_start r))) rs)
      in if len > BRIDGE_WORKSPACE_WRITE_MAX_BYTES then Err WorkspaceEditOutputLimit else Ok (join_ranges text 0 rs))"

end
