(* ===== verification/EditDiagnostics.thy ===== *)
theory EditDiagnostics
  imports EditMatching Canonical
begin

text \<open>
  What \<^verbatim>\<open>packages/code/src/edits.ts\<close> tells a caller about edits that did not apply, and
  \<^verbatim>\<open>applyTextEdits\<close>. Which code points are letters or numbers is the parameter \<open>letter\<close>.
\<close>

section \<open>Limits\<close>

definition EDIT_DIAGNOSTIC_MAX_CHARS :: nat where "EDIT_DIAGNOSTIC_MAX_CHARS = 3000"
definition EDIT_DIAGNOSTIC_MAX_BODY_BYTES :: int where "EDIT_DIAGNOSTIC_MAX_BODY_BYTES = 3800"
definition MAX_SNIPPET_CHARS :: nat where "MAX_SNIPPET_CHARS = 120"
definition MAX_EXCERPT_LINES :: nat where "MAX_EXCERPT_LINES = 8"
definition MAX_EXCERPT_LINE_CHARS :: nat where "MAX_EXCERPT_LINE_CHARS = 160"
definition MAX_EXCERPT_BYTES :: int where "MAX_EXCERPT_BYTES = 1600"
definition MAX_REGION_VOTES :: int where "MAX_REGION_VOTES = 200000"

definition ELLIPSIS :: nat where "ELLIPSIS = 0x2026"

section \<open>Places and quotations\<close>

definition lineNumberAt :: "jstr \<Rightarrow> nat \<Rightarrow> nat" where
  "lineNumberAt text offset = 1 + length (filter (\<lambda>i. i < offset) (newlines text))"

definition formatLineList :: "jstr \<Rightarrow> nat list \<Rightarrow> nat \<Rightarrow> jstr" where
  "formatLineList text starts count =
     (let shown = map (lineNumberAt text) (take MAX_REPORTED_LINES starts) in
      js ''line'' @ (if length shown = 1 then [] else js ''s'') @ js '' '' @ join_with (js '', '') (map show_nat shown)
      @ (if count > length shown then js '' and '' @ show_nat (count - length shown) @ js '' more'' else []))"

fun strategy_text :: "strategy \<Rightarrow> jstr" where
  "strategy_text ExactText = js ''exact''"
| "strategy_text LineTrimmed = js ''line-trimmed''"
| "strategy_text IndentationFlexible = js ''indentation-flexible''"
| "strategy_text WhitespaceNormalized = js ''whitespace-normalized''"

definition describeAmbiguous :: "jstr \<Rightarrow> strategy \<Rightarrow> nat \<Rightarrow> nat list \<Rightarrow> jstr" where
  "describeAmbiguous text st count starts =
     js ''old_text matched '' @ show_nat count @ js '' locations''
     @ (if st = ExactText then [] else js '' ('' @ strategy_text st @ js '')'') @ js '' at '' @ formatLineList text starts count
     @ js ''; include more surrounding lines so it matches exactly one''"

definition quote :: "jstr \<Rightarrow> jstr" where
  "quote value = concat (map (\<lambda>c. if c = 0x2028 \<or> c = 0x2029 then [92, 117] @ hex4 c else [c]) (quote_json value))"

definition snippet :: "jstr \<Rightarrow> jstr" where
  "snippet line = (let t = trim line in quote (if length t > MAX_SNIPPET_CHARS then take MAX_SNIPPET_CHARS t @ [ELLIPSIS] else t))"

text \<open>\<^verbatim>\<open>ELISION_LINE\<close> and \<^verbatim>\<open>LINE_NUMBER_PREFIX\<close>.\<close>

definition is_line_terminator :: "nat \<Rightarrow> bool" where
  "is_line_terminator c \<longleftrightarrow> c = 10 \<or> c = 13 \<or> c = 0x2028 \<or> c = 0x2029"

definition elision_tail :: "jstr \<Rightarrow> bool" where
  "elision_tail r \<longleftrightarrow> list_all is_space r
     \<or> list_ex (\<lambda>k. \<not> list_ex is_line_terminator (take k r)
          \<and> list_ex (\<lambda>closer. startsWith (drop k r) closer \<and> list_all is_space (drop (k + length closer) r))
              [js ''...'', [ELLIPSIS], js ''*/'', js ''-->'']) [0..<Suc (length r)]"

definition elision_body :: "jstr \<Rightarrow> bool" where
  "elision_body s \<longleftrightarrow> list_ex (\<lambda>dots. startsWith s dots \<and> elision_tail (drop (length dots) s)) [js ''...'', [ELLIPSIS]]"

definition ELISION_LINE :: "jstr \<Rightarrow> bool" where
  "ELISION_LINE line \<longleftrightarrow>
     (let s = trimStart line in elision_body s
      \<or> list_ex (\<lambda>mark. startsWith s mark \<and> elision_body (trimStart (drop (length mark) s)))
          [js ''//'', js ''#'', js ''--'', js ''/*'', js ''*'', js ''<!--''])"

definition is_digit :: "nat \<Rightarrow> bool" where "is_digit c \<longleftrightarrow> 48 \<le> c \<and> c \<le> 57"

definition LINE_NUMBER_PREFIX :: "jstr \<Rightarrow> bool" where
  "LINE_NUMBER_PREFIX line \<longleftrightarrow>
     (let s = trimStart line; rest = dropWhile is_digit s; spaces = takeWhile is_space rest; after = dropWhile is_space rest in
      s \<noteq> [] \<and> is_digit (hd s) \<and> (9 \<in> set spaces \<or> after \<noteq> [] \<and> (hd after = 124 \<or> hd after = 58)))"

section \<open>Where a missing edit belongs\<close>

definition is_word_char :: "nat \<Rightarrow> bool" where "is_word_char c \<longleftrightarrow> is_alnum c \<or> c = 95"

text \<open>\<^verbatim>\<open>ANCHOR_LINE\<close>: two word characters in a row.\<close>

fun two_in_a_row :: "('a \<Rightarrow> bool) \<Rightarrow> 'a list \<Rightarrow> bool" where
  "two_in_a_row P (a # b # xs) = (P a \<and> P b \<or> two_in_a_row P (b # xs))"
| "two_in_a_row P _ = False"

definition ANCHOR_LINE :: "(nat \<Rightarrow> bool) \<Rightarrow> jstr \<Rightarrow> bool" where
  "ANCHOR_LINE letter s = two_in_a_row (\<lambda>c. letter c \<or> c = 95) (map fst (code_points s))"

text \<open>The offsets of a distinctive line, in ascending order.\<close>

definition offsets_of :: "(nat \<Rightarrow> bool) \<Rightarrow> jstr list \<Rightarrow> jstr \<Rightarrow> nat list" where
  "offsets_of letter needle key = filter (\<lambda>k. trim (needle ! k) = key \<and> ANCHOR_LINE letter key) [0..<length needle]"

record region_votes =
  rv_budget :: int
  rv_votes :: "nat \<Rightarrow> nat"
  rv_best :: "nat option"
  rv_bestVotes :: nat

fun cast_votes :: "nat \<Rightarrow> nat list \<Rightarrow> region_votes \<Rightarrow> region_votes" where
  "cast_votes index [] v = v"
| "cast_votes index (offset # hits) v =
     (let budget = rv_budget v; v1 = v\<lparr>rv_budget := budget - 1\<rparr> in
      if budget \<le> 0 \<or> index < offset then v1
      else let start = index - offset; count = rv_votes v start + 1;
               v2 = v1\<lparr>rv_votes := (rv_votes v)(start := count)\<rparr>;
               better = (count > rv_bestVotes v \<or> count = rv_bestVotes v \<and> (case rv_best v of None \<Rightarrow> False | Some b \<Rightarrow> start < b))
           in cast_votes index hits (if better then v2\<lparr>rv_best := Some start, rv_bestVotes := count\<rparr> else v2))"

definition closestRegion :: "(nat \<Rightarrow> bool) \<Rightarrow> jstr list \<Rightarrow> jstr \<Rightarrow> nat option" where
  "closestRegion letter needle text =
     (if length (filter (\<lambda>line. ANCHOR_LINE letter (trim line)) needle) < 2 then None
      else let v = foldl (\<lambda>v index. if rv_budget v > 0 then cast_votes index (offsets_of letter needle (trim (line_text text index))) v else v)
                     \<lparr>rv_budget = MAX_REGION_VOTES, rv_votes = (\<lambda>_. 0), rv_best = None, rv_bestVotes = 0\<rparr> [0..<line_count text]
           in if rv_bestVotes v \<ge> 2 then rv_best v else None)"

definition excerptMark :: "jstr \<Rightarrow> jstr option \<Rightarrow> nat" where
  "excerptMark current expected =
     (case expected of None \<Rightarrow> 33 | Some x \<Rightarrow> if current = x then 32 else if trim current = trim x then 126 else 33)"

definition shortenLine :: "jstr \<Rightarrow> jstr" where
  "shortenLine line =
     (let n = MAX_EXCERPT_LINE_CHARS in
      if length line \<le> n then line
      else take (if is_high (line ! (n - 1)) \<and> is_low (line ! n) then n - 1 else n) line @ [ELLIPSIS])"

definition encodedBytes :: "jstr \<Rightarrow> int" where
  "encodedBytes value = byteLength (quote_json value) - 2"

text \<open>Drop rows from the end until the excerpt fits.\<close>

function fit_rows :: "nat \<Rightarrow> jstr list \<Rightarrow> jstr option" where
  "fit_rows first rows =
     (if rows = [] then None
      else let place = (if length rows = 1 then js ''line '' @ show_nat (first + 1)
                        else js ''lines '' @ show_nat (first + 1) @ js ''-'' @ show_nat (first + length rows));
               excerpt = js ''the current text at '' @ place @ js '' (~ whitespace differs, ! text differs) is '' @ quote (join_with [10] rows)
           in if encodedBytes excerpt \<le> MAX_EXCERPT_BYTES then Some excerpt else fit_rows first (butlast rows))"
  by auto
termination by (relation "measure (\<lambda>(first, rows). length rows)") auto

declare fit_rows.simps [simp del]

definition currentTextExcerpt :: "jstr list \<Rightarrow> jstr \<Rightarrow> nat \<Rightarrow> jstr option" where
  "currentTextExcerpt needle text start =
     (let span = max 1 (min (length needle) (line_count text - start));
          marks = map (\<lambda>k. excerptMark (line_text text (start + k)) (if k < length needle then Some (needle ! k) else None)) [0..<span];
          shown = min span MAX_EXCERPT_LINES;
          same = length (takeWhile (\<lambda>m. m = 32) marks);
          firstDifference = (if same = span then 0 else same);
          first = start + min (firstDifference - 1) (span - shown)
      in fit_rows first (map (\<lambda>k. show_nat (first + k + 1) @ [124, marks ! (first - start + k)] @ shortenLine (line_text text (first + k))) [0..<shown]))"

record nearest_line =
  nl_exact :: bool
  nl_count :: nat
  nl_index :: nat
  nl_starts :: "nat list"
  nl_text :: jstr

text \<open>\<^verbatim>\<open>split(/\W+/)\<close>.\<close>

function split_nonwords :: "jstr \<Rightarrow> jstr list" where
  "split_nonwords s =
     (let w = takeWhile is_word_char s; rest = dropWhile is_word_char s
      in w # (if rest = [] then [] else split_nonwords (dropWhile (\<lambda>c. \<not> is_word_char c) rest)))"
  by auto
termination
proof (relation "measure length")
  fix s w rest :: jstr
  assume rest: "rest = dropWhile is_word_char s" "rest \<noteq> []"
  then have "\<not> is_word_char (hd rest)" using hd_dropWhile [of is_word_char s] by simp
  then obtain c cs where c: "rest = c # cs" "\<not> is_word_char c" using rest(2) by (metis list.collapse)
  have "length rest \<le> length s" using rest(1) by (simp add: length_dropWhile_le)
  then show "(dropWhile (\<lambda>c. \<not> is_word_char c) rest, s) \<in> measure length"
    using c length_dropWhile_less [of "\<lambda>c. \<not> is_word_char c" cs] by simp
qed simp

declare split_nonwords.simps [simp del]

definition best_line :: "jstr list \<Rightarrow> jstr \<Rightarrow> nat option \<times> nat" where
  "best_line tokens text =
     foldl (\<lambda>(best, bestScore) index.
        let score = length (filter (\<lambda>t. t \<in> set tokens) (remdups (split_nonwords (line_text text index))))
        in if score > bestScore then (Some index, score) else (best, bestScore)) (None, 0) [0..<line_count text]"

definition nearestLine :: "jstr option \<Rightarrow> jstr \<Rightarrow> nearest_line option" where
  "nearestLine firstLine text =
     (case firstLine of
        None \<Rightarrow> None
      | Some line \<Rightarrow>
          (let target = trim line; hits = filter (\<lambda>i. trim (line_text text i) = target) [0..<line_count text];
               tokens = remdups (filter (\<lambda>t. length t > 1) (split_nonwords target)) in
           if target = [] then None
           else if hits \<noteq> []
           then Some \<lparr>nl_exact = True, nl_count = length hits, nl_index = hd hits,
                      nl_starts = map (line_start text) (take MAX_REPORTED_LINES hits), nl_text = line_text text (hd hits)\<rparr>
           else if length tokens < 2 then None
           else case best_line tokens text of
                  (Some best, score) \<Rightarrow>
                    if 2 * score \<ge> length tokens
                    then Some \<lparr>nl_exact = False, nl_count = 1, nl_index = best, nl_starts = [line_start text best], nl_text = line_text text best\<rparr>
                    else None
                | (None, _) \<Rightarrow> None))"

section \<open>Reasons\<close>

definition whitespace_hint :: "jstr \<Rightarrow> jstr \<Rightarrow> (edit_stop, jstr list) result" where
  "whitespace_hint text old =
     (case first_match RELAXED_STRATEGIES text \<lparr>oldText = old, newText = old, replaceAll = False\<rparr> of
        Err x \<Rightarrow> Err x
      | Ok (Matched st (r # _) _ _) \<Rightarrow>
          Ok [js ''the same text exists at '' @ formatLineList text [mr_start r] 1 @ js '' with different whitespace ('' @ strategy_text st
              @ js ''); copy that whitespace exactly'']
      | Ok _ \<Rightarrow> Ok (if includes_crlf text \<and> \<not> includes_crlf old \<and> 10 \<in> set old then [js ''the file uses CRLF line endings''] else []))"

definition describeMissingReason :: "jstr \<Rightarrow> jstr \<Rightarrow> jstr list \<Rightarrow> bool \<Rightarrow> nearest_line option \<Rightarrow> (edit_stop, jstr) result" where
  "describeMissingReason text old needle tolerant nearest =
     (let nonBlank = filter (\<lambda>line. trim line \<noteq> []) needle;
          elided = (if list_ex ELISION_LINE nonBlank
            then [js ''it contains an elision placeholder (\"...\"); copy the exact lines instead of abbreviating''] else []);
          numbered = (if nonBlank \<noteq> [] \<and> list_all LINE_NUMBER_PREFIX nonBlank
            then [js ''it appears to include line-number prefixes from read_file output; remove them''] else [])
      in case (if tolerant then Ok [] else whitespace_hint text old) of
           Err x \<Rightarrow> Err x
         | Ok spaced \<Rightarrow>
             (let hints = elided @ numbered @ spaced;
                  closest = (case nearest of
                      Some n \<Rightarrow> if hints \<noteq> [] then []
                        else if nl_exact n then [js ''its first line appears at '' @ formatLineList text (nl_starts n) (nl_count n) @ js '', but the lines after it differ'']
                        else [js ''the closest line is '' @ formatLineList text (nl_starts n) (length (nl_starts n)) @ js '': '' @ snippet (nl_text n)]
                    | None \<Rightarrow> []);
                  all = hints @ closest
              in Ok (js ''old_text was not found'' @ (if all = [] then [] else js ''; '' @ join_with (js ''; '') all))))"

record edit_failure =
  ef_index :: nat
  ef_reason :: jstr
  ef_excerpt :: "jstr option"

definition describeMissing :: "(nat \<Rightarrow> bool) \<Rightarrow> jstr \<Rightarrow> nat \<Rightarrow> jstr \<Rightarrow> bool \<Rightarrow> (edit_stop, edit_failure) result" where
  "describeMissing letter text index old tolerant =
     (let needle = fst (neededLines old); blank = length (takeWhile (\<lambda>line. trim line = []) needle);
          nearest = nearestLine (if blank < length needle then Some (needle ! blank) else None) text;
          anchor = (case nearest of
              Some n \<Rightarrow> if \<not> nl_exact n \<or> nl_count n = 1 then Some (nl_index n - blank) else None
            | None \<Rightarrow> None);
          start = (case closestRegion letter needle text of Some r \<Rightarrow> Some r | None \<Rightarrow> anchor)
      in case describeMissingReason text old needle tolerant nearest of
           Err x \<Rightarrow> Err x
         | Ok reason \<Rightarrow> Ok \<lparr>ef_index = index, ef_reason = reason,
             ef_excerpt = (case start of None \<Rightarrow> None | Some k \<Rightarrow> currentTextExcerpt needle text k)\<rparr>)"

section \<open>The message\<close>

definition failureText :: "edit_failure \<Rightarrow> bool \<Rightarrow> jstr" where
  "failureText f withExcerpt =
     (case ef_excerpt f of
        Some x \<Rightarrow> if withExcerpt \<and> x \<noteq> [] then ef_reason f @ js ''; '' @ x else ef_reason f
      | None \<Rightarrow> ef_reason f)"

fun grant_each :: "edit_failure list \<Rightarrow> int \<Rightarrow> int \<Rightarrow> bool list" where
  "grant_each [] chars bytes = []"
| "grant_each (f # fs) chars bytes =
     (let x = (case ef_excerpt f of None \<Rightarrow> [] | Some e \<Rightarrow> e); addition = js ''; '' @ x in
      if x = [] \<or> int (length addition) > chars \<or> encodedBytes addition > bytes then False # grant_each fs chars bytes
      else True # grant_each fs (chars - int (length addition)) (bytes - encodedBytes addition))"

definition grantExcerpts :: "edit_failure list \<Rightarrow> int \<Rightarrow> int \<Rightarrow> bool list" where
  "grantExcerpts fs chars bytes =
     grant_each fs (chars - sum_list (map (\<lambda>f. int (length (ef_reason f))) fs)) (bytes - sum_list (map (\<lambda>f. encodedBytes (ef_reason f)) fs))"

text \<open>A limit of \<open>None\<close> is \<^verbatim>\<open>Infinity\<close>.\<close>

definition within :: "int \<Rightarrow> int option \<Rightarrow> bool" where
  "within n limit = (case limit of None \<Rightarrow> True | Some m \<Rightarrow> n \<le> m)"

fun shorten_end :: "jstr \<Rightarrow> int option \<Rightarrow> int option \<Rightarrow> nat \<Rightarrow> int \<Rightarrow> nat" where
  "shorten_end [] chars budget n bytes = n"
| "shorten_end (c # cs) chars budget n bytes =
     (let width = (if is_high c \<and> cs \<noteq> [] \<and> is_low (hd cs) then 2 else 1); cost = encodedBytes (take width (c # cs)) in
      if \<not> within (int (n + width) + 1) chars \<or> \<not> within (bytes + cost) budget then n
      else shorten_end (drop (width - 1) cs) chars budget (n + width) (bytes + cost))"

definition shortenReason :: "jstr \<Rightarrow> int option \<Rightarrow> int option \<Rightarrow> jstr" where
  "shortenReason reason charLimit byteLimit =
     (if within (int (length reason)) charLimit \<and> within (encodedBytes reason) byteLimit then reason
      else take (shorten_end reason charLimit (map_option (\<lambda>b. b - encodedBytes [ELLIPSIS]) byteLimit) 0 0) reason @ [ELLIPSIS])"

definition fitsDiagnosticBounds :: "jstr \<Rightarrow> bool" where
  "fitsDiagnosticBounds m \<longleftrightarrow> length m \<le> EDIT_DIAGNOSTIC_MAX_CHARS \<and> encodedBytes m \<le> EDIT_DIAGNOSTIC_MAX_BODY_BYTES"

definition single_prefix :: jstr where
  "single_prefix = js ''Workspace edit did not apply and nothing was written: ''"

definition format_single :: "edit_failure list \<Rightarrow> jstr" where
  "format_single fs =
     (let detailed = single_prefix @ (case fs of f # _ \<Rightarrow> failureText f True | [] \<Rightarrow> js ''no match'') @ js ''.'' in
      if fitsDiagnosticBounds detailed then detailed
      else single_prefix @ shortenReason (case fs of f # _ \<Rightarrow> ef_reason f | [] \<Rightarrow> js ''no match'')
             (Some (int EDIT_DIAGNOSTIC_MAX_CHARS - int (length single_prefix) - 1))
             (Some (EDIT_DIAGNOSTIC_MAX_BODY_BYTES - encodedBytes single_prefix - 1)) @ js ''.'')"

definition batch_header :: "nat \<Rightarrow> nat \<Rightarrow> jstr" where
  "batch_header failed editCount =
     show_nat failed @ js '' of '' @ show_nat editCount @ js '' workspace edits did not apply, so nothing was written. Every other edit matched.''"

definition batch_footer :: "edit_failure list \<Rightarrow> jstr" where
  "batch_footer fs = (if list_ex (\<lambda>f. ef_index f > 0) fs then [10] @ js ''Line numbers account for the earlier edits in this batch.'' else [])"

definition batch_prefix :: "edit_failure \<Rightarrow> jstr" where
  "batch_prefix f = [10] @ js ''Edit '' @ show_nat (ef_index f + 1) @ js '': ''"

definition format_batch :: "edit_failure list \<Rightarrow> nat \<Rightarrow> jstr" where
  "format_batch fs editCount =
     (let header = batch_header (length fs) editCount; footer = batch_footer fs; prefixes = map batch_prefix fs;
          available = int EDIT_DIAGNOSTIC_MAX_CHARS - int (length header) - int (length footer)
            - sum_list (map (\<lambda>p. int (length p) + 1) prefixes);
          frame = header @ footer @ concat prefixes @ replicate (length fs) 46;
          availableBytes = EDIT_DIAGNOSTIC_MAX_BODY_BYTES - encodedBytes frame;
          reasons = map2 failureText fs (grantExcerpts fs available availableBytes);
          charLimit = (if sum_list (map (\<lambda>r. int (length r)) reasons) \<le> available then None else Some (available div int (length fs)));
          byteLimit = (if sum_list (map encodedBytes reasons) \<le> availableBytes then None else Some (availableBytes div int (length fs)))
      in header @ concat (map2 (\<lambda>p r. p @ shortenReason r charLimit byteLimit @ js ''.'') prefixes reasons) @ footer)"

definition formatEditFailures :: "edit_failure list \<Rightarrow> nat \<Rightarrow> jstr" where
  "formatEditFailures fs editCount = (if editCount = 1 then format_single fs else format_batch fs editCount)"

section \<open>Applying edits\<close>

datatype edit_error = WorkspaceEditMatchError "edit_failure list" nat | WorkspaceEditOutputLimitError

definition failing_edit :: "(nat \<Rightarrow> bool) \<Rightarrow> jstr \<Rightarrow> nat \<Rightarrow> text_edit \<Rightarrow> bool \<Rightarrow> match_outcome \<Rightarrow> (edit_stop, edit_failure) result" where
  "failing_edit letter working index e tolerant m =
     (case m of
        Ambiguous st count starts \<Rightarrow>
          Ok \<lparr>ef_index = index, ef_reason = describeAmbiguous working st count starts, ef_excerpt = None\<rparr>
      | LimitReached \<Rightarrow>
          Ok \<lparr>ef_index = index,
              ef_reason = js ''old_text has too many repetitive line-window candidates; include more surrounding lines or use an exact match'',
              ef_excerpt = None\<rparr>
      | _ \<Rightarrow> describeMissing letter working index (oldText e) tolerant)"

text \<open>One turn of the loop on the working text, the matches and the failures.\<close>

definition apply_edit :: "(nat \<Rightarrow> bool) \<Rightarrow> bool \<Rightarrow> nat \<times> text_edit \<Rightarrow> jstr \<times> (strategy \<times> nat) list \<times> edit_failure list
    \<Rightarrow> (edit_stop, jstr \<times> (strategy \<times> nat) list \<times> edit_failure list) result" where
  "apply_edit letter tolerant ie st =
     (let (index, e) = ie; (working, matches, failures) = st in
      case findEditMatch tolerant working e of
        Err x \<Rightarrow> Err x
      | Ok (Matched s ranges n updated) \<Rightarrow>
          (case (case updated of Some u \<Rightarrow> Ok u | None \<Rightarrow> replaceRanges working ranges) of
             Err x \<Rightarrow> Err x
           | Ok t \<Rightarrow> Ok (t, matches @ [(s, n)], failures))
      | Ok m \<Rightarrow>
          (case failing_edit letter working index e tolerant m of
             Err x \<Rightarrow> Err x
           | Ok f \<Rightarrow> Ok (working, matches, failures @ [f])))"

fun apply_each :: "(nat \<Rightarrow> bool) \<Rightarrow> bool \<Rightarrow> (nat \<times> text_edit) list \<Rightarrow> jstr \<times> (strategy \<times> nat) list \<times> edit_failure list
    \<Rightarrow> (edit_stop, jstr \<times> (strategy \<times> nat) list \<times> edit_failure list) result" where
  "apply_each letter tolerant [] st = Ok st"
| "apply_each letter tolerant (ie # es) st =
     (case apply_edit letter tolerant ie st of Err x \<Rightarrow> Err x | Ok st' \<Rightarrow> apply_each letter tolerant es st')"

text \<open>No finder stops with \<open>VerificationLimit\<close>; it becomes the outcome \<open>LimitReached\<close>.\<close>

definition applyTextEdits :: "(nat \<Rightarrow> bool) \<Rightarrow> jstr \<Rightarrow> text_edit list \<Rightarrow> bool \<Rightarrow> (edit_error, jstr \<times> (strategy \<times> nat) list) result" where
  "applyTextEdits letter text edits tolerant =
     (case apply_each letter tolerant (zip [0..<length edits] edits) (text, [], []) of
        Err _ \<Rightarrow> Err WorkspaceEditOutputLimitError
      | Ok (working, matches, failures) \<Rightarrow>
          if failures \<noteq> [] then Err (WorkspaceEditMatchError failures (length edits)) else Ok (working, matches))"

end
