(* ===== verification/EditSafety.thy ===== *)
theory EditSafety
  imports EditDiagnostics
begin

text \<open>
  What \<^verbatim>\<open>applyTextEdits\<close> of \<^verbatim>\<open>packages/code/src/edits.ts\<close> does to a file. The collector writes the text with
  its ranges replaced (\<open>gathered_step\<close>, \<open>resolved\<close>), whichever finder feeds it; the loop lemmas carry an
  invariant through a search; and editing without tolerance equals its plain description.
\<close>

section \<open>Slices\<close>

lemma slice_append: "i \<le> j \<Longrightarrow> j \<le> k \<Longrightarrow> slice s i j @ slice s j k = slice s i k"
proof -
  assume ij: "i \<le> j" "j \<le> k"
  have t: "take k s = take j s @ drop j (take k s)" using ij(2) by (metis append_take_drop_id min.absorb1 take_take)
  show ?thesis
  proof (cases "j \<le> length s")
    case True
    then have "drop i (take j s @ drop j (take k s)) = drop i (take j s) @ drop j (take k s)" using ij(1) by simp
    then show ?thesis using t by (simp add: slice_def)
  qed (use ij in \<open>simp add: slice_def\<close>)
qed

lemma length_slice [simp]: "length (slice s i j) = min j (length s) - i"
  by (simp add: slice_def min.commute)

lemma slice_self [simp]: "slice s i i = []"
  by (simp add: slice_def)

lemma slice_all [simp]: "length s \<le> j \<Longrightarrow> slice s i j = sliceFrom s i"
  by (simp add: slice_def sliceFrom_def)

lemma slice_Suc: "i < length s \<Longrightarrow> slice s i (Suc i) = [s ! i]"
  by (simp add: slice_def drop_take Cons_nth_drop_Suc [symmetric])

lemma nth_slice: "i + k < min j (length s) \<Longrightarrow> slice s i j ! k = s ! (i + k)"
  by (simp add: slice_def)

section \<open>Collected matches\<close>

text \<open>The text up to an offset with some of its ranges replaced.\<close>

fun out_to :: "jstr \<Rightarrow> nat \<Rightarrow> matched_range list \<Rightarrow> nat \<Rightarrow> jstr" where
  "out_to text cursor [] b = slice text cursor b"
| "out_to text cursor (r # rs) b = slice text cursor (mr_start r) @ mr_replacement r @ out_to text (mr_end r) rs b"

text \<open>Ranges in order, none overlapping the one before.\<close>

fun ordered_from :: "nat \<Rightarrow> matched_range list \<Rightarrow> bool" where
  "ordered_from c [] = True"
| "ordered_from c (r # rs) = (c \<le> mr_start r \<and> mr_start r < mr_end r \<and> ordered_from (mr_end r) rs)"

fun last_end :: "nat \<Rightarrow> matched_range list \<Rightarrow> nat" where
  "last_end c [] = c"
| "last_end c (r # rs) = last_end (mr_end r) rs"

lemma last_end_snoc [simp]: "last_end c (rs @ [r]) = mr_end r"
  by (induction rs arbitrary: c) auto

lemma ordered_snoc [simp]: "ordered_from c (rs @ [r]) \<longleftrightarrow> ordered_from c rs \<and> last_end c rs \<le> mr_start r \<and> mr_start r < mr_end r"
  by (induction rs arbitrary: c) auto

lemma out_to_snoc: "out_to text c (rs @ [r]) b = out_to text c rs (mr_start r) @ mr_replacement r @ slice text (mr_end r) b"
  by (induction rs arbitrary: c) auto

lemma out_to_extend: "last_end c rs \<le> b \<Longrightarrow> b \<le> b' \<Longrightarrow> out_to text c rs b @ slice text b b' = out_to text c rs b'"
  by (induction rs arbitrary: c) (auto simp: slice_append)

lemma join_ranges_out: "join_ranges text c rs = out_to text c rs (length text)"
  by (induction rs arbitrary: c) auto

definition output_text :: "edit_output \<Rightarrow> jstr" where
  "output_text out = concat (eo_chunks out) @ eo_pending out"

lemma appendReplacement_text [simp]:
  "output_text (appendReplacement out part) = output_text out @ part" "eo_cursor (appendReplacement out part) = eo_cursor out"
  by (simp_all add: appendReplacement_def output_text_def Let_def)

lemma output_cursor [simp]: "output_text (out\<lparr>eo_cursor := n\<rparr>) = output_text out"
  by (simp add: output_text_def)

text \<open>What has been collected when the matches so far are \<open>rs\<close>.\<close>

definition counted :: "jstr \<Rightarrow> matched_range list \<Rightarrow> collected \<Rightarrow> bool" where
  "counted text rs c \<longleftrightarrow> cm_source c = text \<and> cm_count c = length rs \<and> cm_ranges c = take 1 rs \<and> cm_starts c = take MAX_REPORTED_LINES (map mr_start rs)"

definition written :: "jstr \<Rightarrow> matched_range list \<Rightarrow> collected \<Rightarrow> bool" where
  "written text rs c \<longleftrightarrow> ordered_from 0 rs \<and> last_end 0 rs \<le> length text
     \<and> (\<exists>out. cm_output c = Some out \<and> eo_cursor out \<le> last_end 0 rs \<and> (eo_cursor out = 0 \<longrightarrow> output_text out = [])
        \<and> (\<forall>b. last_end 0 rs \<le> b \<longrightarrow> output_text out @ slice text (eo_cursor out) b = out_to text 0 rs b))
     \<and> cm_projectedLength c = int (length (out_to text 0 rs (length text)))"

lemma writtenI:
  assumes "ordered_from 0 rs" "last_end 0 rs \<le> length text" "cm_output c = Some out" "eo_cursor out \<le> last_end 0 rs" "eo_cursor out = 0 \<longrightarrow> output_text out = []"
    and "\<And>b. last_end 0 rs \<le> b \<Longrightarrow> output_text out @ slice text (eo_cursor out) b = out_to text 0 rs b"
    and "cm_projectedLength c = int (length (out_to text 0 rs (length text)))"
  shows "written text rs c"
  unfolding written_def by (intro conjI exI [of _ out] allI impI) (use assms in simp_all)

lemma writtenE:
  assumes "written text rs c"
  obtains out where "ordered_from 0 rs" "last_end 0 rs \<le> length text" "cm_output c = Some out" "eo_cursor out \<le> last_end 0 rs"
    "eo_cursor out = 0 \<longrightarrow> output_text out = []" "\<And>b. last_end 0 rs \<le> b \<Longrightarrow> output_text out @ slice text (eo_cursor out) b = out_to text 0 rs b"
    "cm_projectedLength c = int (length (out_to text 0 rs (length text)))"
  using assms unfolding written_def by (elim conjE exE, intro that) (assumption | (erule allE, erule mp))+

definition gathered :: "jstr \<Rightarrow> bool \<Rightarrow> matched_range list \<Rightarrow> collected \<Rightarrow> bool" where
  "gathered text all rs c \<longleftrightarrow> counted text rs c \<and> (all \<longrightarrow> written text rs c)"

lemma gathered_start: "gathered text all [] (collectedMatches text all)"
  by (auto simp: gathered_def counted_def written_def collectedMatches_def output_text_def sliceFrom_def)

lemma counted_step:
  "counted text rs c \<Longrightarrow> counted text (rs @ [\<lparr>mr_start = a, mr_end = b, mr_replacement = x\<rparr>]) (count_match a b x c)"
  by (cases rs) (auto simp: counted_def count_match_def Let_def MAX_REPORTED_LINES_def)

lemma count_match_simps [simp]:
  "cm_output (count_match a b x c) = cm_output c" "cm_projectedLength (count_match a b x c) = cm_projectedLength c" "cm_source (count_match a b x c) = cm_source c"
  by (simp_all add: count_match_def Let_def)

lemma put_match_text:
  fixes x :: jstr
  assumes "eo_cursor out \<le> a" "a < b" "b \<le> length text" "eo_cursor out = 0 \<longrightarrow> output_text out = []"
  defines "out' \<equiv> put_match text a b x out"
  shows "b \<le> d \<Longrightarrow> output_text out' @ slice text (eo_cursor out') d = output_text out @ slice text (eo_cursor out) a @ x @ slice text b d"
    "eo_cursor out' \<le> b" "eo_cursor out' = 0 \<longrightarrow> output_text out' = []"
proof -
  show "output_text out' @ slice text (eo_cursor out') d = output_text out @ slice text (eo_cursor out) a @ x @ slice text b d" if "b \<le> d"
  proof -
    have "slice text (eo_cursor out) d = slice text (eo_cursor out) a @ slice text a b @ slice text b d"
      using slice_append [of a b d "text"] slice_append [of "eo_cursor out" a d "text"] assms(1,2) that by simp
    then show ?thesis by (auto simp: out'_def put_match_def)
  qed
  show "eo_cursor out' \<le> b" "eo_cursor out' = 0 \<longrightarrow> output_text out' = []" using assms(1,2,4) by (auto simp: out'_def put_match_def)
qed

lemma gathered_step:
  assumes "gathered text all rs c" "collectMatch c a b x all = Ok c'"
    and "all \<Longrightarrow> last_end 0 rs \<le> a" "all \<Longrightarrow> a < b" "all \<Longrightarrow> b \<le> length text"
  shows "gathered text all (rs @ [\<lparr>mr_start = a, mr_end = b, mr_replacement = x\<rparr>]) c'"
proof (cases all)
  case False
  then show ?thesis using assms(1,2) counted_step [of "text" rs c a b x] by (simp add: gathered_def collectMatch_def)
next
  case True
  let ?r = "\<lparr>mr_start = a, mr_end = b, mr_replacement = x\<rparr>"
  have le: "last_end 0 rs \<le> a" "a < b" "b \<le> length text" using True assms(3-5) by simp_all
  have w: "written text rs c" and cn: "counted text rs c" using assms(1) True by (simp_all add: gathered_def)
  from w obtain out where out: "ordered_from 0 rs" "last_end 0 rs \<le> length text" "cm_output c = Some out" "eo_cursor out \<le> last_end 0 rs"
    "eo_cursor out = 0 \<longrightarrow> output_text out = []" "\<And>b. last_end 0 rs \<le> b \<Longrightarrow> output_text out @ slice text (eo_cursor out) b = out_to text 0 rs b"
    "cm_projectedLength c = int (length (out_to text 0 rs (length text)))" by (elim writtenE) (rule that)
  let ?out = "put_match text a b x out"
  have cur: "eo_cursor out \<le> a" using out(4) le(1) by simp
  define c1 where "c1 = c\<lparr>cm_projectedLength := cm_projectedLength c + int (length x) - (int b - int a), cm_output := Some ?out\<rparr>"
  have src: "cm_source c = text" using cn by (simp add: counted_def)
  have c': "c' = count_match a b x c1"
    using assms(2) True out(3) src by (simp add: collectMatch_def Let_def c1_def split: if_splits)
  have "counted text rs c1" using cn by (simp add: counted_def c1_def)
  then have counted: "counted text (rs @ [?r]) c'" unfolding c' by (rule counted_step)
  have put: "output_text ?out @ slice text (eo_cursor ?out) d = out_to text 0 (rs @ [?r]) d" if "b \<le> d" for d
    using put_match_text(1) [OF cur le(2,3) out(5) that, of x] out(6) [OF le(1)] by (simp add: out_to_snoc flip: append_assoc)
  have "length (out_to text 0 rs a @ slice text a (length text)) = length (out_to text 0 rs (length text))"
    using out_to_extend [of 0 rs a "length text" "text"] le by simp
  then have len: "cm_projectedLength c' = int (length (out_to text 0 (rs @ [?r]) (length text)))"
    using out(7) le by (simp add: c' c1_def out_to_snoc sliceFrom_def)
  have "written text (rs @ [?r]) c'"
    by (rule writtenI [of _ _ _ ?out])
       (use out(1) le put len put_match_text(2,3) [OF cur le(2,3) out(5), of x] in \<open>simp_all add: c' c1_def\<close>)
  then show ?thesis using counted by (simp add: gathered_def)
qed

text \<open>A resolved match replaces every range found, or the only one.\<close>

definition result_text :: "jstr \<Rightarrow> matched_range list \<Rightarrow> jstr option \<Rightarrow> jstr" where
  "result_text text rs updated = (case updated of Some u \<Rightarrow> u | None \<Rightarrow> join_ranges text 0 rs)"

lemma resolved:
  assumes "gathered text all rs c" "resolve_matches st c all = Matched st' rs' n updated"
  shows "rs \<noteq> [] \<and> n = length rs \<and> st' = st \<and> result_text text rs' updated = join_ranges text 0 rs \<and> (\<not> all \<longrightarrow> length rs = 1 \<and> rs' = rs \<and> updated = None)
    \<and> (all \<longrightarrow> updated = Some (join_ranges text 0 rs))"
proof (cases all)
  case True
  then have "written text rs c" using assms(1) by (simp add: gathered_def)
  then obtain out where out: "cm_output c = Some out" "last_end 0 rs \<le> length text" "eo_cursor out = 0 \<longrightarrow> output_text out = []"
      "\<And>b. last_end 0 rs \<le> b \<Longrightarrow> output_text out @ slice text (eo_cursor out) b = out_to text 0 rs b" by (elim writtenE) (rule that)
  have src: "cm_source c = text" "cm_count c = length rs" using assms(1) by (simp_all add: gathered_def counted_def)
  have "finishReplacement text out = out_to text 0 rs (length text)"
    using out(3) out(4) [OF out(2)] appendReplacement_text(1) [of out "sliceFrom text (eo_cursor out)"]
    by (cases "eo_cursor out = 0") (simp_all add: finishReplacement_def Let_def output_text_def [symmetric], simp add: sliceFrom_def)
  then show ?thesis using assms(2) True out(1) src
    by (auto simp: resolve_matches_def result_text_def join_ranges_out split: if_splits)
next
  case False
  then have "length rs = 1" "rs' = take 1 rs" "updated = None" "n = length rs" "st' = st"
    using assms by (auto simp: gathered_def counted_def resolve_matches_def split: if_splits)
  then show ?thesis using False by (cases rs) (auto simp: result_text_def)
qed

lemma unresolved:
  assumes "gathered text all rs c"
  shows "resolve_matches st c all = NoMatch \<longleftrightarrow> rs = []"
  using assms by (auto simp: gathered_def counted_def resolve_matches_def)

section \<open>The loop keeps what each hit keeps\<close>

lemma window_loop_rule:
  assumes "window_loop pat disjoint hit done xs base acc = Inr acc'" "I done base acc"
    and "\<And>d x b a. I d b a \<Longrightarrow> \<not> window_at pat b (d @ [x]) \<Longrightarrow> (\<exists>ys. done @ xs = d @ x # ys) \<Longrightarrow> I (d @ [x]) b a"
    and "\<And>d x b a v a'. I d b a \<Longrightarrow> window_at pat b (d @ [x]) \<Longrightarrow> (\<exists>ys. done @ xs = d @ x # ys) \<Longrightarrow> hit (length d) a = Inr (v, a') \<Longrightarrow>
      I (d @ [x]) (if v \<and> disjoint then Suc (length d) else b) a'"
  shows "\<exists>b. I (done @ xs) b acc'"
  using assms
proof (induction xs arbitrary: "done" base acc)
  case (Cons x xs)
  show ?case
  proof (cases "window_at pat base (done @ [x])")
    case False
    then have "window_loop pat disjoint hit (done @ [x]) xs base acc = Inr acc'" "I (done @ [x]) base acc"
      using Cons.prems(1,2) Cons.prems(3) [of "done" base acc x] by (simp_all add: Let_def)
    from Cons.IH [OF this] show ?thesis using Cons.prems(3,4) by simp
  next
    case True
    then obtain v a' where v: "hit (length done) acc = Inr (v, a')"
        "window_loop pat disjoint hit (done @ [x]) xs (if v \<and> disjoint then Suc (length done) else base) a' = Inr acc'"
      using Cons.prems(1) by (auto simp: Let_def length_append_singleton split: sum.splits if_splits)
    have "I (done @ [x]) (if v \<and> disjoint then Suc (length done) else base) a'"
      using Cons.prems(4) [OF Cons.prems(2) True _ v(1)] by simp
    from Cons.IH [OF v(2) this] show ?thesis using Cons.prems(3,4) by simp
  qed
qed auto

lemma window_loop_total:
  assumes "I done base acc"
    and "\<And>d x b a. I d b a \<Longrightarrow> \<not> window_at pat b (d @ [x]) \<Longrightarrow> (\<exists>ys. done @ xs = d @ x # ys) \<Longrightarrow> I (d @ [x]) b a"
    and "\<And>d x b a v a'. I d b a \<Longrightarrow> window_at pat b (d @ [x]) \<Longrightarrow> (\<exists>ys. done @ xs = d @ x # ys) \<Longrightarrow> hit (length d) a = Inr (v, a') \<Longrightarrow>
      I (d @ [x]) (if v \<and> disjoint then Suc (length d) else b) a'"
    and "\<And>d x b a. I d b a \<Longrightarrow> window_at pat b (d @ [x]) \<Longrightarrow> (\<exists>ys. done @ xs = d @ x # ys) \<Longrightarrow> \<exists>r. hit (length d) a = Inr r"
  shows "\<exists>acc'. window_loop pat disjoint hit done xs base acc = Inr acc'"
  using assms
proof (induction xs arbitrary: "done" base acc)
  case (Cons x xs)
  show ?case
  proof (cases "window_at pat base (done @ [x])")
    case False
    then have "I (done @ [x]) base acc" using Cons.prems(2) [OF Cons.prems(1)] by simp
    from Cons.IH [OF this] show ?thesis using Cons.prems(2-4) False by (simp add: Let_def)
  next
    case True
    then obtain v a' where v: "hit (length done) acc = Inr (v, a')" using Cons.prems(4) [OF Cons.prems(1) True] by auto
    have "I (done @ [x]) (if v \<and> disjoint then Suc (length done) else base) a'"
      using Cons.prems(3) [OF Cons.prems(1) True _ v] by simp
    then have "\<exists>acc'. window_loop pat disjoint hit (done @ [x]) xs (if v \<and> disjoint then Suc (length done) else base) a' = Inr acc'"
      by (rule Cons.IH) (use Cons.prems(2-4) in simp_all)
    then show ?thesis using True v by (auto simp: Let_def)
  qed
qed auto

section \<open>Exact edits\<close>

text \<open>The reference: every place where \<open>old\<close> occurs, overlaps included, and the replacement of its disjoint
  occurrences from the left.\<close>

definition occurrences :: "jstr \<Rightarrow> jstr \<Rightarrow> nat list" where
  "occurrences old t = filter (\<lambda>i. slice t i (i + length old) = old) [0..<Suc (length t) - length old]"

fun replace_every :: "jstr \<Rightarrow> jstr \<Rightarrow> jstr \<Rightarrow> jstr" where
  "replace_every old new [] = []"
| "replace_every old new (c # cs) =
     (if old \<noteq> [] \<and> startsWith (c # cs) old then new @ replace_every old new (drop (length old - 1) cs) else c # replace_every old new cs)"

definition edited :: "text_edit \<Rightarrow> jstr \<Rightarrow> jstr option" where
  "edited e t =
     (let places = occurrences (oldText e) t in
      if oldText e = [] \<or> places = [] then None
      else if replaceAll e then Some (replace_every (oldText e) (newText e) t)
      else case places of [i] \<Rightarrow> Some (take i t @ newText e @ drop (i + length (oldText e)) t) | _ \<Rightarrow> None)"

lemma occurs_iff: "slice t p (p + length old) = old \<longleftrightarrow> startsWith (drop p t) old"
  by (simp add: slice_def startsWith_def take_drop add.commute)

lemma replace_every_hit: "old \<noteq> [] \<Longrightarrow> startsWith t old \<Longrightarrow> replace_every old new t = new @ replace_every old new (drop (length old) t)"
  by (cases t; cases old) (simp_all add: startsWith_def)

lemma replace_every_skip:
  "k \<le> length t \<Longrightarrow> (\<And>p. p < k \<Longrightarrow> \<not> startsWith (drop p t) old) \<Longrightarrow> replace_every old new t = take k t @ replace_every old new (drop k t)"
proof (induction t arbitrary: k)
  case (Cons c cs)
  show ?case
  proof (cases k)
    case (Suc j)
    have "\<not> startsWith (c # cs) old" using Cons.prems(2) [of 0] Suc by simp
    moreover have "\<not> startsWith (drop p cs) old" if "p < j" for p using Cons.prems(2) [of "Suc p"] Suc that by simp
    ultimately show ?thesis using Cons.IH [of j] Cons.prems(1) Suc by simp
  qed simp
qed simp

lemma suffix_iff_drop: "suffix p t \<longleftrightarrow> length p \<le> length t \<and> drop (length t - length p) t = p"
  by (metis append_eq_conv_conj diff_add_inverse2 length_append suffix_def suffix_drop suffix_length_le)

lemma window_exact:
  assumes "text = d @ x # ys"
  shows "window_at old b (d @ [x]) \<longleftrightarrow> b + length old \<le> Suc (length d) \<and> slice text (Suc (length d) - length old) (Suc (length d)) = old"
proof -
  have "take (Suc (length d)) text = d @ [x]" using assms by simp
  then show ?thesis by (auto simp: window_at_def slice_def suffix_iff_drop simp del: drop_append suffix_snoc)
qed

text \<open>Without \<open>replaceAll\<close> the loop meets every occurrence.\<close>

definition exact_range :: "text_edit \<Rightarrow> nat \<Rightarrow> matched_range" where
  "exact_range e i = \<lparr>mr_start = i, mr_end = i + length (oldText e), mr_replacement = newText e\<rparr>"

definition met :: "jstr \<Rightarrow> text_edit \<Rightarrow> nat \<Rightarrow> nat list" where
  "met text e n = filter (\<lambda>i. slice text i (i + length (oldText e)) = oldText e) [0..<Suc n - length (oldText e)]"

lemma met_Suc:
  assumes "oldText e \<noteq> []"
  shows "met text e (Suc n) = met text e n @ (if length (oldText e) \<le> Suc n \<and> slice text (Suc n - length (oldText e)) (Suc n) = oldText e
    then [Suc n - length (oldText e)] else [])"
proof (cases "length (oldText e) \<le> Suc n")
  case True
  then have "Suc (Suc n) - length (oldText e) = Suc (Suc n - length (oldText e))" by simp
  then show ?thesis using True by (simp add: met_def)
qed (simp add: met_def)

lemma findExact_once:
  assumes "oldText e \<noteq> []" "\<not> replaceAll e"
  shows "\<exists>c. findExact text e = Ok (resolve_matches ExactText c False) \<and> gathered text False (map (exact_range e) (occurrences (oldText e) text)) c"
proof -
  let ?old = "oldText e"
  define I where "I = (\<lambda>d b c. b = (0 :: nat) \<and> gathered text False (map (exact_range e) (met text e (length (d :: jstr)))) c)"
  have start: "I [] 0 (collectedMatches text False)" using gathered_start [of "text" False] assms(1) by (cases ?old) (simp_all add: met_def I_def)
  have hit: "\<exists>a'. hit_exact e i a = Ok (True, a') \<and> collectMatch a (i + 1 - length ?old) (i + 1) (newText e) False = Ok a'" for i a
    using assms(2) by (simp add: hit_exact_def collectMatch_def)
  have skip: "I (d @ [x]) b a" if "I d b a" "\<not> window_at ?old b (d @ [x])" "\<exists>ys. [] @ text = d @ x # ys" for d x b a
    using that window_exact [of "text" d x _ ?old b] met_Suc [OF assms(1), of "text" "length d"] by (auto simp: I_def)
  have hit_I: "I (d @ [x]) (if v \<and> False then Suc (length d) else b) a'"
    if I: "I d b a" and w: "window_at ?old b (d @ [x])" "\<exists>ys. [] @ text = d @ x # ys" and h: "hit_exact e (length d) a = Inr (v, a')" for d x b a v a'
  proof -
    let ?i = "Suc (length d) - length ?old"
    have at: "length ?old \<le> Suc (length d)" "slice text ?i (Suc (length d)) = ?old" using w I window_exact [of "text" d x _ ?old b] by (auto simp: I_def)
    have "gathered text False (map (exact_range e) (met text e (length d)) @ [\<lparr>mr_start = ?i, mr_end = Suc (length d), mr_replacement = newText e\<rparr>]) a'"
      using I hit [of "length d" a] h by (intro gathered_step [of _ _ _ a]) (auto simp: I_def)
    then show ?thesis using I at met_Suc [OF assms(1), of "text" "length d"] by (simp add: exact_range_def I_def)
  qed
  have "\<exists>c. window_loop ?old False (hit_exact e) [] text 0 (collectedMatches text False) = Inr c"
    by (rule window_loop_total [of I, OF start]) (use skip hit_I hit in blast)+
  then obtain c where c: "window_loop ?old False (hit_exact e) [] text 0 (collectedMatches text False) = Inr c" by blast
  have "\<exists>b. I ([] @ text) b c" by (rule window_loop_rule [of _ _ _ _ _ _ _ _ I, OF c start]) (use skip hit_I in blast)+
  then have "gathered text False (map (exact_range e) (occurrences ?old text)) c" by (simp add: met_def occurrences_def I_def)
  then show ?thesis using c assms by (intro exI [of _ c]) (simp add: findExact_def kmp_loop_naive)
qed

lemma collect_fits:
  assumes "gathered text True rs c" "last_end 0 rs \<le> a" "a < b" "b \<le> length text"
    and "int (length (out_to text 0 rs a @ x)) \<le> BRIDGE_WORKSPACE_WRITE_MAX_BYTES"
  shows "\<exists>c'. collectMatch c a b x True = Ok c'"
proof -
  have "written text rs c" "cm_source c = text" using assms(1) by (simp_all add: gathered_def counted_def)
  moreover have "length (out_to text 0 rs a @ slice text a (length text)) = length (out_to text 0 rs (length text))"
    using out_to_extend [of 0 rs a "length text" "text"] assms(2-4) by simp
  ultimately show ?thesis using assms(3-5) by (auto simp: collectMatch_def Let_def sliceFrom_def elim!: writtenE)
qed

text \<open>With \<open>replaceAll\<close> the loop rewrites the text from the left.\<close>

definition rewriting :: "jstr \<Rightarrow> text_edit \<Rightarrow> jstr \<Rightarrow> nat \<Rightarrow> matched_range list \<Rightarrow> collected \<Rightarrow> bool" where
  "rewriting text e d base rs c \<longleftrightarrow> gathered text True rs c \<and> last_end 0 rs \<le> base \<and> base \<le> length d
     \<and> replace_every (oldText e) (newText e) text = out_to text 0 rs base @ replace_every (oldText e) (newText e) (drop base text)
     \<and> (\<forall>p. base \<le> p \<longrightarrow> p + length (oldText e) \<le> length d \<longrightarrow> slice text p (p + length (oldText e)) \<noteq> oldText e)
     \<and> (rs = [] \<longrightarrow> base = 0) \<and> (rs \<noteq> [] \<longrightarrow> occurrences (oldText e) text \<noteq> [])"

lemma rewriting_skip:
  assumes "rewriting text e d base rs c" "\<not> window_at (oldText e) base (d @ [x])" "text = d @ x # ys"
  shows "rewriting text e (d @ [x]) base rs c"
proof -
  have "slice text p (p + length (oldText e)) \<noteq> oldText e" if "base \<le> p" "p + length (oldText e) \<le> Suc (length d)" for p
  proof (cases "p + length (oldText e) = Suc (length d)")
    case True
    then have "Suc (length d) - length (oldText e) = p" by simp
    then show ?thesis using assms(2) window_exact [OF assms(3), of "oldText e" base] that True by auto
  qed (use assms(1) that in \<open>auto simp: rewriting_def\<close>)
  then show ?thesis using assms(1) by (auto simp: rewriting_def)
qed

lemma rewriting_hit:
  assumes "rewriting text e d base rs c" "window_at (oldText e) base (d @ [x])" "text = d @ x # ys" "oldText e \<noteq> []"
  defines "s \<equiv> Suc (length d) - length (oldText e)"
  shows "last_end 0 rs \<le> s" "s < Suc (length d)" "slice text s (Suc (length d)) = oldText e" "Suc (length d) \<le> length text"
    and "replace_every (oldText e) (newText e) text = (out_to text 0 rs s @ newText e) @ replace_every (oldText e) (newText e) (drop (Suc (length d)) text)"
proof -
  let ?old = "oldText e" and ?new = "newText e"
  have w: "base + length ?old \<le> Suc (length d)" "slice text s (Suc (length d)) = ?old"
    using assms(2) window_exact [OF assms(3), of ?old base] by (simp_all add: s_def)
  have r: "last_end 0 rs \<le> base" "base \<le> length d" "replace_every ?old ?new text = out_to text 0 rs base @ replace_every ?old ?new (drop base text)"
      "\<And>p. base \<le> p \<Longrightarrow> p + length ?old \<le> length d \<Longrightarrow> slice text p (p + length ?old) \<noteq> ?old"
    using assms(1) by (auto simp: rewriting_def)
  have s: "base \<le> s" "s + length ?old = Suc (length d)" using w(1) by (simp_all add: s_def)
  show "last_end 0 rs \<le> s" "slice text s (Suc (length d)) = ?old" "Suc (length d) \<le> length text" using r(1) s w(2) assms(3) by simp_all
  show "s < Suc (length d)" using s(2) assms(4) by (cases ?old) simp_all
  have "\<not> startsWith (drop p (drop base text)) ?old" if "p < s - base" for p
  proof -
    have "slice text (base + p) (base + p + length ?old) \<noteq> ?old" using that s(2) by (intro r(4)) simp_all
    then show ?thesis by (simp add: occurs_iff add.commute)
  qed
  then have "replace_every ?old ?new (drop base text) = take (s - base) (drop base text) @ replace_every ?old ?new (drop (s - base) (drop base text))"
    using s assms(3) by (intro replace_every_skip) simp_all
  also have "take (s - base) (drop base text) = slice text base s" by (simp add: slice_def drop_take)
  also have "drop (s - base) (drop base text) = drop s text" using s(1) by simp
  also have "replace_every ?old ?new (drop s text) = ?new @ replace_every ?old ?new (drop (length ?old) (drop s text))"
    using w(2) s(2) occurs_iff [of "text" s ?old] assms(4) by (intro replace_every_hit) simp_all
  also have "drop (length ?old) (drop s text) = drop (Suc (length d)) text" using s(2) by (simp add: add.commute)
  finally show "replace_every ?old ?new text = (out_to text 0 rs s @ ?new) @ replace_every ?old ?new (drop (Suc (length d)) text)"
    using r(1,3) out_to_extend [of 0 rs base s "text"] s(1) by simp
qed

lemma rewriting_step:
  assumes "rewriting text e d base rs c" "window_at (oldText e) base (d @ [x])" "text = d @ x # ys" "oldText e \<noteq> []"
    and "collectMatch c (Suc (length d) - length (oldText e)) (Suc (length d)) (newText e) True = Ok c'"
  shows "\<exists>rs'. rewriting text e (d @ [x]) (Suc (length d)) rs' c'"
proof -
  let ?s = "Suc (length d) - length (oldText e)"
  let ?r = "\<lparr>mr_start = ?s, mr_end = Suc (length d), mr_replacement = newText e\<rparr>"
  note h = rewriting_hit [OF assms(1-4)]
  have "gathered text True (rs @ [?r]) c'" by (rule gathered_step [OF _ assms(5)]) (use assms(1) h in \<open>auto simp: rewriting_def\<close>)
  moreover have "length (oldText e) \<le> Suc (length d)" using assms(2) by (simp add: window_at_def)
  then have "?s \<in> set (occurrences (oldText e) text)" using h(3,4) by (auto simp: occurrences_def)
  then have "occurrences (oldText e) text \<noteq> []" by auto
  moreover have "\<not> p + length (oldText e) \<le> Suc (length d)" if "Suc (length d) \<le> p" for p using that assms(4) by (cases "oldText e") simp_all
  ultimately have "rewriting text e (d @ [x]) (Suc (length d)) (rs @ [?r]) c'"
    using h(5) by (auto simp: rewriting_def out_to_snoc)
  then show ?thesis by blast
qed

lemma rewriting_end:
  assumes "rewriting text e text base rs c"
  shows "join_ranges text 0 rs = replace_every (oldText e) (newText e) text" "rs = [] \<longleftrightarrow> occurrences (oldText e) text = []"
proof -
  let ?old = "oldText e"
  have r: "last_end 0 rs \<le> base" "base \<le> length text" "replace_every ?old (newText e) text = out_to text 0 rs base @ replace_every ?old (newText e) (drop base text)"
      "\<And>p. base \<le> p \<Longrightarrow> p + length ?old \<le> length text \<Longrightarrow> slice text p (p + length ?old) \<noteq> ?old" "rs = [] \<longrightarrow> base = 0"
      "rs \<noteq> [] \<longrightarrow> occurrences ?old text \<noteq> []"
    using assms by (auto simp: rewriting_def)
  have "\<not> startsWith (drop p (drop base text)) ?old" if "p < length (drop base text)" for p
  proof
    assume st: "startsWith (drop p (drop base text)) ?old"
    then have "length ?old \<le> length (drop p (drop base text))" by (metis length_take min.cobounded1 startsWith_def)
    then have "base + p + length ?old \<le> length text" using that by simp
    then show False using r(4) [of "base + p"] st by (simp add: occurs_iff add.commute)
  qed
  then have "replace_every ?old (newText e) (drop base text) = drop base text"
    using replace_every_skip [of "length (drop base text)" "drop base text" ?old "newText e"] by simp
  then show "join_ranges text 0 rs = replace_every ?old (newText e) text"
    using r(1-3) out_to_extend [of 0 rs base "length text" "text"] by (simp add: join_ranges_out sliceFrom_def)
  show "rs = [] \<longleftrightarrow> occurrences ?old text = []"
    using r(4-6) by (auto simp: occurrences_def filter_empty_conv)
qed

lemma findExact_all:
  assumes "oldText e \<noteq> []" "replaceAll e"
  shows "findExact text e = Ok m \<Longrightarrow> \<exists>c base rs. m = resolve_matches ExactText c True \<and> rewriting text e text base rs c"
    and "occurrences (oldText e) text = [] \<or> int (length (replace_every (oldText e) (newText e) text)) \<le> BRIDGE_WORKSPACE_WRITE_MAX_BYTES \<Longrightarrow>
      \<exists>m. findExact text e = Ok m"
proof -
  let ?old = "oldText e"
  let ?loop = "window_loop ?old True (hit_exact e) [] text 0 (collectedMatches text True)"
  define I where "I = (\<lambda>d b c. \<exists>rs. rewriting text e d b rs c)"
  have start: "I [] 0 (collectedMatches text True)"
    using gathered_start [of "text" True] assms(1) by (auto simp: I_def rewriting_def slice_def intro!: exI [of _ "[]"])
  have skip: "I (d @ [x]) b a" if "I d b a" "\<not> window_at ?old b (d @ [x])" "\<exists>ys. [] @ text = d @ x # ys" for d x b a
    using that rewriting_skip [of "text" e d b _ a x] by (auto simp: I_def)
  have hit: "hit_exact e i a = Inr (v, a') \<longleftrightarrow> v \<and> collectMatch a (Suc i - length ?old) (Suc i) (newText e) True = Ok a'" for i a v a'
    using assms(2) by (auto simp: hit_exact_def split: sum.split)
  have hit_I: "I (d @ [x]) (if v \<and> True then Suc (length d) else b) a'"
    if "I d b a" "window_at ?old b (d @ [x])" "\<exists>ys. [] @ text = d @ x # ys" "hit_exact e (length d) a = Inr (v, a')" for d x b a v a'
    using that hit [of "length d" a v a'] rewriting_step [of "text" e d b _ a x _ a'] assms(1) by (auto simp: I_def)
  have fe: "findExact text e = (case ?loop of Err x \<Rightarrow> Err x | Ok c \<Rightarrow> Ok (resolve_matches ExactText c True))"
    using assms by (simp add: findExact_def kmp_loop_naive split: sum.split)
  show "\<exists>c base rs. m = resolve_matches ExactText c True \<and> rewriting text e text base rs c" if ok: "findExact text e = Ok m"
  proof -
    obtain c where c: "?loop = Inr c" "m = resolve_matches ExactText c True" using ok fe by (auto split: sum.splits)
    have "\<exists>b. I ([] @ text) b c" by (rule window_loop_rule [of _ _ _ _ _ _ _ _ I, OF c(1) start]) (use skip hit_I in blast)+
    then show ?thesis using c(2) by (auto simp: I_def)
  qed
  show "\<exists>m. findExact text e = Ok m" if fits: "occurrences ?old text = [] \<or> int (length (replace_every ?old (newText e) text)) \<le> BRIDGE_WORKSPACE_WRITE_MAX_BYTES"
  proof -
    have can: "\<exists>r. hit_exact e (length d) a = Inr r" if I: "I d b a" and w: "window_at ?old b (d @ [x])" and xs: "\<exists>ys. [] @ text = d @ x # ys" for d x b a
    proof -
      obtain rs ys where rs: "rewriting text e d b rs a" "text = d @ x # ys" using I xs by (auto simp: I_def)
      note h = rewriting_hit [OF rs(1) w rs(2) assms(1)]
      have "length ?old \<le> Suc (length d)" using w by (simp add: window_at_def)
      then have "Suc (length d) - length ?old \<in> set (occurrences ?old text)" using h(3,4) by (auto simp: occurrences_def)
      then have "occurrences ?old text \<noteq> []" by auto
      moreover have "gathered text True rs a" using rs(1) by (simp add: rewriting_def)
      ultimately have "gathered text True rs a" and "int (length (out_to text 0 rs (Suc (length d) - length ?old) @ newText e)) \<le> BRIDGE_WORKSPACE_WRITE_MAX_BYTES"
        using fits h(5) by simp_all
      then have "\<exists>c'. collectMatch a (Suc (length d) - length ?old) (Suc (length d)) (newText e) True = Ok c'"
        using h(1,2,4) by (intro collect_fits)
      then show ?thesis using hit by blast
    qed
    have "\<exists>c. ?loop = Inr c" by (rule window_loop_total [of I, OF start]) (use skip hit_I can in blast)+
    then show ?thesis using fe by auto
  qed
qed

lemma findExact_edited:
  assumes "findExact text e = Ok m"
  shows "case edited e text of
      None \<Rightarrow> \<forall>st rs n upd. m \<noteq> Matched st rs n upd
    | Some u \<Rightarrow> \<exists>rs n upd. m = Matched ExactText rs n upd \<and> result_text text rs upd = u \<and> (upd = None \<longrightarrow> (\<exists>i. rs = [exact_range e i] \<and> i + length (oldText e) \<le> length text))"
proof (cases "oldText e = []")
  case True
  then show ?thesis using assms by (auto simp: edited_def findExact_def)
next
  case False
  let ?occ = "occurrences (oldText e) text"
  have in_text: "i + length (oldText e) \<le> length text" if "i \<in> set ?occ" for i using that by (auto simp: occurrences_def)
  show ?thesis
  proof (cases "replaceAll e")
    case True
    then obtain c base rs where c: "m = resolve_matches ExactText c True" "rewriting text e text base rs c"
      using findExact_all(1) [OF False True assms] by blast
    have g: "gathered text True rs c" using c(2) by (simp add: rewriting_def)
    note r = rewriting_end [OF c(2)] and z = unresolved [OF g, of ExactText]
    show ?thesis
    proof (cases "?occ = []")
      case True
      then show ?thesis using z r(2) c(1) by (simp add: edited_def Let_def)
    next
      case False
      then have "m \<noteq> NoMatch" using z r(2) c(1) by simp
      then obtain st rs' n upd where m: "m = Matched st rs' n upd" using c(1) by (auto simp: resolve_matches_def split: if_splits)
      then show ?thesis using resolved [OF g c(1) [symmetric, unfolded m]] False \<open>oldText e \<noteq> []\<close> \<open>replaceAll e\<close> r(1)
        by (auto simp: edited_def Let_def)
    qed
  next
    case once: False
    obtain c where c: "m = resolve_matches ExactText c False" "gathered text False (map (exact_range e) ?occ) c"
      using findExact_once [OF False once, of "text"] assms by auto
    have n: "cm_count c = length ?occ" "cm_ranges c = take 1 (map (exact_range e) ?occ)" using c(2) by (simp_all add: gathered_def counted_def)
    show ?thesis
    proof (cases "length ?occ = 1")
      case True
      then obtain i where i: "?occ = [i]" by (cases ?occ) auto
      then have "m = Matched ExactText [exact_range e i] 1 None" using c(1) n by (simp add: resolve_matches_def)
      moreover have "i + length (oldText e) \<le> length text" using in_text i by simp
      ultimately show ?thesis using i once False
        by (simp add: edited_def result_text_def exact_range_def slice_def sliceFrom_def)
    next
      case no: False
      then have "edited e text = None" using once by (auto simp: edited_def Let_def split: list.splits)
      then show ?thesis using c(1) n no by (auto simp: resolve_matches_def split: if_splits)
    qed
  qed
qed

lemma findExact_total:
  assumes "\<And>u. edited e text = Some u \<Longrightarrow> int (length u) \<le> BRIDGE_WORKSPACE_WRITE_MAX_BYTES"
  shows "\<exists>m. findExact text e = Ok m"
proof (cases "oldText e = [] \<or> \<not> replaceAll e")
  case True
  then show ?thesis using findExact_once [of e "text"] by (auto simp: findExact_def)
next
  case False
  then have "occurrences (oldText e) text = [] \<or> edited e text = Some (replace_every (oldText e) (newText e) text)"
    using False by (simp add: edited_def Let_def)
  then show ?thesis using findExact_all(2) [of e "text"] assms False by blast
qed

section \<open>A batch of exact edits\<close>

fun reference_edits :: "(nat \<times> text_edit) list \<Rightarrow> jstr \<Rightarrow> jstr \<times> nat list" where
  "reference_edits [] t = (t, [])"
| "reference_edits ((i, e) # es) t =
     (case edited e t of
        Some u \<Rightarrow> reference_edits es u
      | None \<Rightarrow> (case reference_edits es t of (t', failed) \<Rightarrow> (t', i # failed)))"

fun reference_texts :: "text_edit list \<Rightarrow> jstr \<Rightarrow> jstr list" where
  "reference_texts [] t = []"
| "reference_texts (e # es) t = (case edited e t of Some u \<Rightarrow> u # reference_texts es u | None \<Rightarrow> reference_texts es t)"

lemma collect_once: "\<exists>c'. collectMatch c a b x False = Ok c'"
  by (simp add: collectMatch_def)

lemma loop_never_stops:
  assumes "\<And>i a. \<exists>r. hit i a = Inr r"
  shows "\<exists>c. kmp_loop pat pre disjoint hit i m xs acc = Inr c"
proof (induction xs arbitrary: i m acc)
  case (Cons x xs)
  then show ?case using assms [of i acc] by (auto simp: Let_def split: sum.splits)
qed simp

lemma finders_once:
  assumes "\<not> replaceAll e"
  shows "\<exists>m. findExact text e = Ok m" "\<exists>m. findLineTrimmed text e = Ok m" "\<exists>m. findIndentationFlexible text e = Ok m"
    "\<exists>m. findWhitespaceNormalized text e = Ok m"
proof -
  show "\<exists>m. findExact text e = Ok m" using findExact_once [of e "text"] assms by (cases "oldText e = []") (auto simp: findExact_def)
  have stop: "hit_window w i acc \<noteq> Err WorkspaceEditOutputLimit" if "ws_edit w = e" for w i acc
    using assms that by (auto simp: hit_window_def collectMatch_def Let_def split: prod.splits if_splits)
  have "kmp_loop pat pre disjoint (hit_window w) i m xs acc \<noteq> Err WorkspaceEditOutputLimit" if "ws_edit w = e" for pat pre disjoint w i m xs acc
  proof (induction xs arbitrary: i m acc)
    case (Cons x xs)
    then show ?case using stop [OF that, of i acc] by (auto simp: Let_def split: sum.splits)
  qed simp
  moreover have "ws_edit (window_search_of text e f) = e" for f by (simp add: window_search_of_def Let_def split: prod.split)
  ultimately have windows: "\<exists>m. findLineWindows f text e = Ok m" for f
    unfolding findLineWindows_def Let_def by (fastforce split: sum.split edit_stop.split)
  show "\<exists>m. findLineTrimmed text e = Ok m" "\<exists>m. findIndentationFlexible text e = Ok m"
    using windows by (simp_all add: findLineTrimmed_def findIndentationFlexible_def)
  have "\<exists>r. hit_tokens k spans i acc = Inr r" if "tk_edit k = e" for k spans i acc
    using assms that by (auto simp: hit_tokens_def collectMatch_def Let_def split: prod.split)
  moreover have "token_search_of text e = Some k \<Longrightarrow> tk_edit k = e" for k by (auto simp: token_search_of_def Let_def split: if_splits option.splits)
  ultimately have "\<exists>c. kmp_loop pat pre disjoint (hit_tokens k spans) i m xs acc = Inr c" if "token_search_of text e = Some k" for k spans pat pre disjoint i m xs acc
    using that by (intro loop_never_stops) blast
  note tokens = this
  show "\<exists>m. findWhitespaceNormalized text e = Ok m"
  proof (cases "token_search_of text e")
    case (Some k)
    obtain c where "kmp_loop (tk_tokens k) (prefixTable (tk_tokens k)) (replaceAll e) (hit_tokens k (words_from 0 text)) 0 0
        (map snd (words_from 0 text)) ((index_from 10 text 0, None), collectedMatches text (replaceAll e)) = Inr c"
      using tokens [OF Some] by blast
    then show ?thesis using Some by (simp add: findWhitespaceNormalized_def split: prod.split)
  qed (simp add: findWhitespaceNormalized_def)
qed

lemma first_match_once: "\<not> replaceAll e \<Longrightarrow> (\<And>f. f \<in> set fs \<Longrightarrow> \<exists>m. f text e = Ok m) \<Longrightarrow> \<exists>m. first_match fs text e = Ok m"
proof (induction fs)
  case (Cons f fs)
  obtain m where m: "f text e = Ok m" using Cons.prems(2) by auto
  then show ?case using Cons by (cases m) auto
qed simp

lemma failing_edit_index:
  assumes "\<And>st rs n upd. m \<noteq> Matched st rs n upd"
  shows "\<exists>f. failing_edit letter text i e False m = Ok f \<and> ef_index f = i"
proof -
  have "\<exists>m. first_match RELAXED_STRATEGIES text \<lparr>oldText = oldText e, newText = oldText e, replaceAll = False\<rparr> = Ok m"
    by (rule first_match_once) (auto simp: RELAXED_STRATEGIES_def intro: finders_once)
  then have "\<exists>h. whitespace_hint text (oldText e) = Ok h" by (auto simp: whitespace_hint_def split: match_outcome.splits list.splits)
  then have "\<exists>r. describeMissingReason text (oldText e) needle False nearest = Ok r" for needle nearest
    by (auto simp: describeMissingReason_def Let_def)
  then have "\<exists>f. describeMissing letter text i (oldText e) False = Ok f \<and> ef_index f = i"
    by (simp add: describeMissing_def Let_def split: sum.split) (metis sum.inject(2) Inl_Inr_False)
  then show ?thesis using assms by (cases m) (auto simp: failing_edit_def)
qed

lemma replace_one:
  assumes "int (length (join_ranges text 0 [exact_range e i])) \<le> BRIDGE_WORKSPACE_WRITE_MAX_BYTES" "i + length (oldText e) \<le> length text"
  shows "replaceRanges text [exact_range e i] = Ok (join_ranges text 0 [exact_range e i])"
  using assms by (simp add: replaceRanges_def exact_range_def sliceFrom_def Let_def)

lemma apply_exact:
  assumes "\<And>u. edited e t = Some u \<Longrightarrow> int (length u) \<le> BRIDGE_WORKSPACE_WRITE_MAX_BYTES"
  shows "case edited e t of
      Some u \<Rightarrow> \<exists>n. apply_edit letter False (i, e) (t, ms, fs) = Ok (u, ms @ [(ExactText, n)], fs)
    | None \<Rightarrow> \<exists>f. apply_edit letter False (i, e) (t, ms, fs) = Ok (t, ms, fs @ [f]) \<and> ef_index f = i"
proof -
  obtain m where m: "findExact t e = Ok m" using findExact_total [OF assms] by blast
  then have find: "findEditMatch False t e = Ok m" by (cases m) (simp_all add: findEditMatch_def EXACT_STRATEGIES_def)
  show ?thesis
  proof (cases "edited e t")
    case None
    then have no: "m \<noteq> Matched st rs n upd" for st rs n upd using findExact_edited [OF m] by simp
    obtain f where "failing_edit letter t i e False m = Ok f" "ef_index f = i" using failing_edit_index [OF no] by blast
    moreover have "apply_edit letter False (i, e) (t, ms, fs) = (case failing_edit letter t i e False m of Err x \<Rightarrow> Err x | Ok f \<Rightarrow> Ok (t, ms, fs @ [f]))"
    proof (cases m)
      case Matched
      then show ?thesis using no by blast
    qed (use find in \<open>simp_all add: apply_edit_def\<close>)
    ultimately show ?thesis using None by simp
  next
    case (Some u)
    then obtain rs n upd where r: "m = Matched ExactText rs n upd" "result_text t rs upd = u"
      "upd = None \<longrightarrow> (\<exists>i. rs = [exact_range e i] \<and> i + length (oldText e) \<le> length t)"
      using findExact_edited [OF m] by (simp only: option.case) blast
    have "(case upd of Some v \<Rightarrow> Ok v | None \<Rightarrow> replaceRanges t rs) = Ok u"
      using r(2,3) replace_one assms [OF Some] by (cases upd) (auto simp: result_text_def)
    then show ?thesis using Some find r(1) by (simp add: apply_edit_def)
  qed
qed

lemma apply_each_exact:
  assumes "\<And>u. u \<in> set (reference_texts (map snd es) t) \<Longrightarrow> int (length u) \<le> BRIDGE_WORKSPACE_WRITE_MAX_BYTES"
  shows "\<exists>ms' fs'. apply_each letter False es (t, ms, fs) = Ok (fst (reference_edits es t), ms @ ms', fs @ fs')
      \<and> map ef_index fs' = snd (reference_edits es t) \<and> length ms' + length fs' = length es \<and> fst ` set ms' \<subseteq> {ExactText}"
  using assms
proof (induction es arbitrary: t ms fs)
  case (Cons ie es)
  obtain i e where ie: "ie = (i, e)" by force
  have head: "edited e t = Some u \<Longrightarrow> int (length u) \<le> BRIDGE_WORKSPACE_WRITE_MAX_BYTES" for u using Cons.prems ie by simp
  note step = apply_exact [of e t letter i ms fs, OF head]
  show ?case
  proof (cases "edited e t")
    case None
    then obtain f where f: "apply_edit letter False (i, e) (t, ms, fs) = Ok (t, ms, fs @ [f])" "ef_index f = i" using step by auto
    obtain ms' fs' where r: "apply_each letter False es (t, ms, fs @ [f]) = Ok (fst (reference_edits es t), ms @ ms', (fs @ [f]) @ fs')"
      "map ef_index fs' = snd (reference_edits es t)" "length ms' + length fs' = length es" "fst ` set ms' \<subseteq> {ExactText}"
      using Cons.IH [of t ms "fs @ [f]"] Cons.prems ie None by auto
    show ?thesis by (rule exI [of _ ms'], rule exI [of _ "f # fs'"]) (use r f ie None in \<open>simp split: prod.split\<close>)
  next
    case (Some u)
    then obtain n where f: "apply_edit letter False (i, e) (t, ms, fs) = Ok (u, ms @ [(ExactText, n)], fs)" using step by auto
    obtain ms' fs' where r: "apply_each letter False es (u, ms @ [(ExactText, n)], fs) = Ok (fst (reference_edits es u), (ms @ [(ExactText, n)]) @ ms', fs @ fs')"
      "map ef_index fs' = snd (reference_edits es u)" "length ms' + length fs' = length es" "fst ` set ms' \<subseteq> {ExactText}"
      using Cons.IH [of u "ms @ [(ExactText, n)]" fs] Cons.prems ie Some by auto
    show ?thesis by (rule exI [of _ "(ExactText, n) # ms'"], rule exI [of _ fs']) (use r f ie Some in simp)
  qed
qed simp

text \<open>C15. Editing without tolerance does what its plain description says. An edit takes effect when
its old text occurs in the working text, exactly once or else with \<open>replaceAll\<close>; it then
replaces that occurrence, or every occurrence from left to right. Any other edit leaves the working
text as it is. When no edit fails, the call returns the text of the last one; when some do, it
reports exactly those, by index. It neither misses an occurrence nor stops for its size as long as no
intermediate text is over the write limit.\<close>

theorem exact_edits_reference:
  assumes "\<forall>u \<in> set (reference_texts edits text). int (length u) \<le> BRIDGE_WORKSPACE_WRITE_MAX_BYTES"
  shows "case reference_edits (zip [0..<length edits] edits) text of
      (t, failed) \<Rightarrow>
        if failed = [] then \<exists>ms. applyTextEdits letter text edits False = Ok (t, ms) \<and> length ms = length edits
        else \<exists>fs. applyTextEdits letter text edits False = Err (WorkspaceEditMatchError fs (length edits)) \<and> map ef_index fs = failed"
proof -
  have "map snd (zip [0..<length edits] edits) = edits" by simp
  then obtain ms fs where "apply_each letter False (zip [0..<length edits] edits) (text, [], [])
      = Ok (fst (reference_edits (zip [0..<length edits] edits) text), ms, fs)"
    "map ef_index fs = snd (reference_edits (zip [0..<length edits] edits) text)" "length ms + length fs = length edits"
    using apply_each_exact [of "zip [0..<length edits] edits" "text" letter "[]" "[]"] assms by auto
  then show ?thesis by (cases fs) (auto simp: applyTextEdits_def split: prod.split)
qed

lemma exact_edits_reference_witness:
  defines "one \<equiv> \<lparr>oldText = js ''aa'', newText = js ''b'', replaceAll = True\<rparr>" and "two \<equiv> \<lparr>oldText = js ''zz'', newText = [], replaceAll = False\<rparr>"
  shows "reference_edits (zip [0..<2] [one, two]) (js ''aaa'') = (js ''ba'', [1])
    \<and> (\<exists>fs. applyTextEdits (\<lambda>_. False) (js ''aaa'') [one, two] False = Err (WorkspaceEditMatchError fs 2) \<and> map ef_index fs = [1])"
proof -
  have r: "reference_edits (zip [0..<2] [one, two]) (js ''aaa'') = (js ''ba'', [1])"
    unfolding one_def two_def by code_simp
  have "list_all (\<lambda>u. int (length u) \<le> BRIDGE_WORKSPACE_WRITE_MAX_BYTES) (reference_texts [one, two] (js ''aaa''))"
    unfolding one_def two_def by code_simp
  then have "\<forall>u \<in> set (reference_texts [one, two] (js ''aaa'')). int (length u) \<le> BRIDGE_WORKSPACE_WRITE_MAX_BYTES" by (simp only: list_all_iff)
  moreover have "length [one, two] = 2" by simp
  ultimately show ?thesis using exact_edits_reference [of "[one, two]" "js ''aaa''" "\<lambda>_. False"] r
    by (simp only: prod.case list.simps if_False simp_thms)
qed

end
