(* ===== verification/EditTolerance.thy ===== *)
theory EditTolerance
  imports EditSafety "HOL-Library.Code_Target_Nat"
begin

text \<open>
  Tolerant editing in \<^verbatim>\<open>packages/code/src/edits.ts\<close> disregards white space and nothing else: every range an
  applied edit replaces holds the words of its \<^verbatim>\<open>oldText\<close> and receives the words of its \<^verbatim>\<open>newText\<close>. The locale \<open>edit_finder\<close> is what the three finders have in common; each is an
  interpretation.
\<close>

section \<open>The words of a text\<close>

fun pieces :: "jstr \<Rightarrow> jstr list" where
  "pieces [] = [[]]"
| "pieces (c # cs) = (if is_space c then [] # pieces cs else (c # hd (pieces cs)) # tl (pieces cs))"

definition words :: "jstr \<Rightarrow> jstr list" where
  "words s = filter (\<lambda>w. w \<noteq> []) (pieces s)"

abbreviation blank :: "jstr \<Rightarrow> bool" where
  "blank s \<equiv> list_all is_space s"

text \<open>Equal words, and the first of them at the same place: kept by one more unit in front.\<close>

definition alike :: "jstr \<Rightarrow> jstr \<Rightarrow> bool" where
  "alike s t \<longleftrightarrow> hd (pieces s) = hd (pieces t) \<and> filter (\<lambda>w. w \<noteq> []) (tl (pieces s)) = filter (\<lambda>w. w \<noteq> []) (tl (pieces t))"

lemma pieces_ne [simp]: "pieces s \<noteq> []"
  by (cases s) simp_all

lemma alike_words: "alike s t \<Longrightarrow> words s = words t"
  by (cases "pieces s"; cases "pieces t") (auto simp: alike_def words_def)

lemma alike_refl [simp]: "alike s s"
  by (simp add: alike_def)

lemma alike_Cons: "alike s t \<Longrightarrow> alike (c # s) (c # t)"
  using alike_words [of s t] by (auto simp: alike_def words_def)

lemma alike_space: "is_space c \<Longrightarrow> is_space d \<Longrightarrow> words s = words t \<Longrightarrow> alike (c # s) (d # t)"
  by (simp add: alike_def words_def)

lemma words_Nil [simp]: "words [] = []"
  by (simp add: words_def)

lemma words_space [simp]: "is_space c \<Longrightarrow> words (c # s) = words s"
  by (simp add: words_def)

lemma pieces_append: "is_space c \<Longrightarrow> pieces (a @ c # b) = pieces a @ pieces b"
  by (induction a) auto

lemma words_append: "is_space c \<Longrightarrow> words (a @ c # b) = words a @ words b"
  by (simp add: words_def pieces_append)

lemma words_blank: "blank s \<Longrightarrow> words s = []"
  by (induction s) auto

lemma words_lead: "blank a \<Longrightarrow> words (a @ b) = words b"
  by (induction a) auto

lemma words_trail: "blank b \<Longrightarrow> words (a @ b) = words a"
  by (cases b) (auto simp: words_append words_blank)

lemma words_gap: "blank g \<Longrightarrow> g \<noteq> [] \<Longrightarrow> words (a @ g @ b) = words a @ words b"
  by (cases g) (auto simp: words_append words_lead)

lemma pieces_span:
  "pieces s = takeWhile (\<lambda>c. \<not> is_space c) s # (case dropWhile (\<lambda>c. \<not> is_space c) s of [] \<Rightarrow> [] | c # r \<Rightarrow> pieces r)"
  by (induction s) auto

lemma dropWhile_space: "dropWhile (\<lambda>c. \<not> is_space c) s = c # r \<Longrightarrow> is_space c"
  by (metis dropWhile_eq_Cons_conv)

lemma words_span:
  "words s = filter (\<lambda>w. w \<noteq> []) [takeWhile (\<lambda>c. \<not> is_space c) s] @ words (dropWhile (\<lambda>c. \<not> is_space c) s)"
  using pieces_span [of s] dropWhile_space [of s]
  by (cases "dropWhile (\<lambda>c. \<not> is_space c) s") (auto simp: words_def simp del: dropWhile_eq_Nil_conv)

lemma words_word: "s \<noteq> [] \<Longrightarrow> list_all (\<lambda>c. \<not> is_space c) s \<Longrightarrow> words s = [s]"
proof -
  assume s: "s \<noteq> []" "list_all (\<lambda>c. \<not> is_space c) s"
  then have t: "takeWhile (\<lambda>c. \<not> is_space c) s = s" "dropWhile (\<lambda>c. \<not> is_space c) s = []"
    by (auto simp: list_all_iff takeWhile_eq_all_conv)
  show ?thesis using s(1) words_span [of s] unfolding t by simp
qed

lemma words_empty_iff: "words s = [] \<longleftrightarrow> blank s"
proof (induction s)
  case (Cons c s)
  then show ?case by (simp add: words_def)
qed simp

lemma words_join: "words (join_with [10] ls) = concat (map words ls)"
  by (induction "[10 :: nat]" ls rule: join_with.induct) (auto simp: words_append is_space_def)

section \<open>White space that can be rewritten\<close>

lemma is_space_breaks [simp]: "is_space 10" "is_space 13" "is_space 32" "is_space 9"
  by (simp_all add: is_space_def)

lemma alike_crlf: "alike (crlf_to_lf s) s"
proof (induction s rule: crlf_to_lf.induct)
  case (3 c d cs)
  then show ?case using alike_words [of "crlf_to_lf cs" cs] by (auto intro!: alike_Cons alike_space)
qed simp_all

lemma alike_lf: "alike (lf_to_crlf s) s"
proof (induction s)
  case (Cons c s)
  then show ?case using alike_words [OF Cons] by (auto simp: lf_to_crlf_def intro!: alike_Cons alike_space)
qed (simp add: lf_to_crlf_def)

lemma words_crlf [simp]: "words (crlf_to_lf s) = words s"
  by (rule alike_words [OF alike_crlf])

lemma words_lf [simp]: "words (lf_to_crlf s) = words s"
  by (rule alike_words [OF alike_lf])

lemma words_line_ending [simp]: "words (withLineEnding s crlf) = words s"
  by (simp add: withLineEnding_def Let_def)

lemma blank_takeWhile: "blank (takeWhile is_space s)"
  by (induction s) auto

lemma words_trimStart [simp]: "words (trimStart s) = words s"
  using words_lead [OF blank_takeWhile, of s "dropWhile is_space s"] by (simp add: trimStart_def)

lemma words_trimEnd [simp]: "words (trimEnd s) = words s"
proof -
  have "s = trimEnd s @ rev (takeWhile is_space (rev s))"
    unfolding trimEnd_def by (metis rev_append rev_rev_ident takeWhile_dropWhile_id)
  moreover have "blank (rev (takeWhile is_space (rev s)))" using blank_takeWhile [of "rev s"] by simp
  ultimately show ?thesis using words_trail by metis
qed

lemma words_trim [simp]: "words (trim s) = words s"
  using words_trimEnd [of "trimStart s"] words_trimStart [of s] by (simp only: trim_def trimEnd_def trimStart_def)

lemma words_drop_prefix: "blank p \<Longrightarrow> startsWith s p \<Longrightarrow> words (sliceFrom s (length p)) = words s"
  using words_lead [of p "drop (length p) s"] by (metis append_take_drop_id sliceFrom_def startsWith_def)

lemma words_stripIndent [simp]: "blank p \<Longrightarrow> words (stripIndent s p) = words s"
  by (simp add: stripIndent_def words_drop_prefix)

lemma shared_blank: "blank a \<Longrightarrow> blank (shared_prefix a b)"
  by (induction a b rule: shared_prefix.induct) auto

lemma leading_blank: "blank (leadingWhitespace s)"
  unfolding leadingWhitespace_def by (induction s) auto

lemma indent_blank [simp]: "blank (commonIndent ls)"
proof -
  define f where "f = (\<lambda>common line. if trim line = [] then common
     else Some (case common of None \<Rightarrow> leadingWhitespace line | Some c \<Rightarrow> shared_prefix c (leadingWhitespace line)))"
  have "pred_option blank (foldl f c ls)" if "pred_option blank c" for c
    using that
  proof (induction ls arbitrary: c)
    case (Cons l ls)
    have "pred_option blank (f c l)" using Cons.prems shared_blank leading_blank by (cases c) (auto simp: f_def)
    then show ?case using Cons.IH by simp
  qed simp
  from this [of None] show ?thesis by (cases "foldl f None ls") (auto simp: commonIndent_def f_def)
qed

lemma words_reindent [simp]:
  assumes "blank from" "blank to"
  shows "words (reindent s from to) = words s"
proof (cases "from = to")
  case False
  let ?f = "\<lambda>line. if trim line \<noteq> [] \<and> startsWith line from then to @ sliceFrom line (length from) else line"
  have "words (?f l) = words l" for l using assms by (simp add: words_lead words_drop_prefix)
  then have "concat (map words (map ?f ls)) = concat (map words ls)" for ls by (induction ls) simp_all
  then have "words (reindent s from to) = concat (map words (split_on 10 (crlf_to_lf s)))"
    using False by (simp add: reindent_def words_join)
  also have "\<dots> = words s" using join_split [of 10 "crlf_to_lf s"] words_join [of "split_on 10 (crlf_to_lf s)"] by simp
  finally show ?thesis .
qed (simp add: reindent_def)

lemma words_needed: "concat (map words (fst (neededLines s))) = words s"
proof -
  have "words (butlast t) = words t" if "endsWith t [10]" for t
  proof -
    have "t = butlast t @ [10]" using that by (cases t rule: rev_cases) (auto simp: endsWith_def)
    then show ?thesis using words_trail [of "[10]" "butlast t"] by simp
  qed
  then show ?thesis by (simp add: neededLines_def Let_def words_join [symmetric] join_split)
qed

lemma tokens_words: "edit_tokens s = words s"
proof -
  have "filter (\<lambda>w. w \<noteq> []) (split_spaces s) = words s" for s
  proof (induction s rule: split_spaces.induct)
    case (1 s)
    let ?rest = "dropWhile (\<lambda>c. \<not> is_space c) s"
    have "words (dropWhile is_space ?rest) = words ?rest" using words_trimStart [of ?rest] by (simp add: trimStart_def)
    then show ?case using 1 by (subst split_spaces.simps, subst words_span) (auto simp: Let_def simp del: dropWhile_eq_Nil_conv)
  qed
  then show ?thesis by (simp add: edit_tokens_def)
qed

section \<open>What an applied edit does\<close>

definition fit :: "jstr \<Rightarrow> text_edit \<Rightarrow> matched_range \<Rightarrow> bool" where
  "fit text e r \<longleftrightarrow> mr_start r < mr_end r \<and> mr_end r \<le> length text \<and> words (slice text (mr_start r) (mr_end r)) = words (oldText e)
     \<and> words (mr_replacement r) = words (newText e)"

definition replaces :: "text_edit \<Rightarrow> nat \<Rightarrow> jstr \<Rightarrow> jstr \<Rightarrow> bool" where
  "replaces e n t u \<longleftrightarrow> (\<exists>rs. rs \<noteq> [] \<and> length rs = n \<and> (\<not> replaceAll e \<longrightarrow> n = 1) \<and> ordered_from 0 rs \<and> list_all (fit t e) rs
     \<and> u = join_ranges t 0 rs)"

lemma resolved_replaces:
  assumes "gathered text (replaceAll e) rs c" "list_all (fit text e) rs" "resolve_matches st c (replaceAll e) = Matched st' rs' n updated"
  shows "replaces e n text (result_text text rs' updated)"
proof -
  note r = resolved [OF assms(1,3)]
  have "ordered_from 0 rs"
  proof (cases "replaceAll e")
    case True
    then show ?thesis using assms(1) by (simp add: gathered_def written_def)
  next
    case False
    then obtain x where "rs = [x]" using r by (cases rs) auto
    then show ?thesis using assms(2) by (simp add: fit_def)
  qed
  then show ?thesis using r assms(2) by (auto simp: replaces_def)
qed

text \<open>The contract of a finder. Its items (code units, lines or tokens) lie in order in the text:
  \<open>pos t b\<close> is an offset past the first \<open>b\<close> of them. A hit that counts collects a range with the right
  words that lies within the items of its window; one that does not leaves the collection alone.\<close>

locale edit_finder =
  fixes ready :: "jstr \<Rightarrow> text_edit \<Rightarrow> bool"
    and pat :: "jstr \<Rightarrow> text_edit \<Rightarrow> 'a list"
    and items :: "jstr \<Rightarrow> text_edit \<Rightarrow> 'a list"
    and hit :: "jstr \<Rightarrow> text_edit \<Rightarrow> nat \<Rightarrow> 'b \<Rightarrow> (edit_stop, bool \<times> 'b) result"
    and acc0 :: "jstr \<Rightarrow> text_edit \<Rightarrow> 'b"
    and coll :: "'b \<Rightarrow> collected"
    and pos :: "jstr \<Rightarrow> nat \<Rightarrow> nat"
  assumes pat_ne: "ready t e \<Longrightarrow> pat t e \<noteq> []"
    and acc0: "coll (acc0 t e) = collectedMatches t (replaceAll e)"
    and hit: "ready t e \<Longrightarrow> window_at (pat t e) b (d @ [x]) \<Longrightarrow> items t e = d @ x # ys \<Longrightarrow> hit t e (length d) a = Inr (v, a') \<Longrightarrow>
      if v then \<exists>r. collectMatch (coll a) (mr_start r) (mr_end r) (mr_replacement r) (replaceAll e) = Ok (coll a') \<and> fit t e r
                 \<and> pos t b \<le> mr_start r \<and> mr_end r \<le> pos t (Suc (length d))
      else coll a' = coll a"
begin

definition search :: "jstr \<Rightarrow> text_edit \<Rightarrow> (edit_stop, 'b) result" where
  "search t e = kmp_loop (pat t e) (prefixTable (pat t e)) (replaceAll e) (hit t e) 0 0 (items t e) (acc0 t e)"

lemma search_gathered:
  assumes "ready t e" "search t e = Inr a"
  shows "\<exists>rs. gathered t (replaceAll e) rs (coll a) \<and> list_all (fit t e) rs"
proof -
  define I where "I = (\<lambda>(d :: 'a list) b a. \<exists>rs. gathered t (replaceAll e) rs (coll a) \<and> list_all (fit t e) rs
    \<and> (rs \<noteq> [] \<longrightarrow> replaceAll e \<longrightarrow> last_end 0 rs \<le> pos t b))"
  have loop: "window_loop (pat t e) (replaceAll e) (hit t e) [] (items t e) 0 (acc0 t e) = Inr a"
    using assms(2) by (simp add: search_def kmp_loop_naive [OF pat_ne [OF assms(1)]])
  have start: "I [] 0 (acc0 t e)"
    using gathered_start [of t "replaceAll e"] acc0 [of t e] by (auto simp: I_def intro!: exI [of _ "[]"])
  have step: "I (d @ [x]) (if v \<and> replaceAll e then Suc (length d) else b) a'"
    if I: "I d b a" and w: "window_at (pat t e) b (d @ [x])" and ys: "\<exists>ys. [] @ items t e = d @ x # ys"
      and h: "hit t e (length d) a = Inr (v, a')" for d x b a v a'
  proof -
    obtain rs where rs: "gathered t (replaceAll e) rs (coll a)" "list_all (fit t e) rs" "rs \<noteq> [] \<longrightarrow> replaceAll e \<longrightarrow> last_end 0 rs \<le> pos t b"
      using I by (auto simp: I_def)
    obtain ys where ys: "items t e = d @ x # ys" using ys by auto
    note law = hit [OF assms(1) w ys h]
    show ?thesis
    proof (cases v)
      case False
      then show ?thesis using law rs by (auto simp: I_def)
    next
      case True
      then obtain r where r: "collectMatch (coll a) (mr_start r) (mr_end r) (mr_replacement r) (replaceAll e) = Ok (coll a')" "fit t e r"
        "pos t b \<le> mr_start r" "mr_end r \<le> pos t (Suc (length d))" using law by auto
      have le: "last_end 0 rs \<le> mr_start r" if "replaceAll e" using rs(3) r(3) that by (cases rs) auto
      have "gathered t (replaceAll e) (rs @ [r]) (coll a')"
        using gathered_step [OF rs(1) r(1) le] r(2) by (cases r) (simp add: fit_def)
      then show ?thesis unfolding I_def using rs(2) r True by (intro exI [of _ "rs @ [r]"]) auto
    qed
  qed
  have "\<exists>b. I ([] @ items t e) b a"
    by (rule window_loop_rule [of _ _ _ _ _ _ _ _ I, OF loop start]) (use step in \<open>auto simp: I_def\<close>)
  then show ?thesis by (auto simp: I_def)
qed

lemma search_replaces:
  assumes "ready t e" "search t e = Inr a" "resolve_matches st (coll a) (replaceAll e) = Matched st' rs n updated"
  shows "replaces e n t (result_text t rs updated)"
  using search_gathered [OF assms(1,2)] resolved_replaces [OF _ _ assms(3)] by blast

end

section \<open>Exact matches\<close>

interpretation exact: edit_finder "\<lambda>t e. oldText e \<noteq> []" "\<lambda>t. oldText" "\<lambda>t e. t" "\<lambda>t. hit_exact"
  "\<lambda>t e. collectedMatches t (replaceAll e)" "\<lambda>c. c" "\<lambda>t b. b"
proof unfold_locales
  fix t :: jstr and e b d x ys a v a'
  assume e: "oldText e \<noteq> []" and w: "window_at (oldText e) b (d @ [x])" and t: "t = d @ x # ys" and h: "hit_exact e (length d) a = Inr (v, a')"
  let ?s = "Suc (length d) - length (oldText e)"
  let ?r = "\<lparr>mr_start = ?s, mr_end = Suc (length d), mr_replacement = newText e\<rparr>"
  have "b + length (oldText e) \<le> Suc (length d)" "slice t ?s (Suc (length d)) = oldText e" using w window_exact [OF t] by simp_all
  moreover have "v" "collectMatch a ?s (Suc (length d)) (newText e) (replaceAll e) = Ok a'" using h by (auto simp: hit_exact_def split: sum.splits)
  ultimately show "if v then \<exists>r. collectMatch a (mr_start r) (mr_end r) (mr_replacement r) (replaceAll e) = Ok a' \<and> fit t e r
       \<and> b \<le> mr_start r \<and> mr_end r \<le> Suc (length d) else a' = a"
    using e t by (auto simp: fit_def intro!: exI [of _ ?r])
qed simp_all

lemma findExact_replaces:
  assumes "findExact t e = Ok (Matched st rs n updated)"
  shows "replaces e n t (result_text t rs updated)"
  using assms exact.search_replaces [of e t] by (auto simp: findExact_def exact.search_def split: sum.splits if_splits)

section \<open>Line windows\<close>

definition line_stop :: "jstr \<Rightarrow> nat \<Rightarrow> nat" where
  "line_stop t i = (if i < length (newlines t) then newlines t ! i else length t)"

lemma newline_at: "i < length (newlines t) \<Longrightarrow> newlines t ! i < length t \<and> t ! (newlines t ! i) = 10"
  using nth_mem [of i "newlines t"] by (auto simp: newlines_def)

lemma newlines_less: "i < j \<Longrightarrow> j < length (newlines t) \<Longrightarrow> newlines t ! i < newlines t ! j"
  by (rule sorted_wrt_nth_less [of "(<)"]) (simp_all add: newlines_def sorted_wrt_filter)

lemma line_le: "i < line_count t \<Longrightarrow> line_start t i \<le> line_stop t i \<and> line_stop t i \<le> length t"
  using newline_at [of "i - 1" t] newline_at [of i t] newlines_less [of "i - 1" i t]
  by (cases i) (auto simp: line_start_def line_stop_def line_count_def Suc_le_eq less_imp_le)

lemma line_next_start: "Suc i < line_count t \<Longrightarrow> line_start t (Suc i) = Suc (line_stop t i) \<and> t ! line_stop t i = 10 \<and> line_stop t i < length t"
  using newline_at [of i t] by (simp add: line_start_def line_stop_def line_count_def)

lemma line_start_mono: "j < line_count t \<Longrightarrow> i \<le> j \<Longrightarrow> line_start t i \<le> line_start t j"
proof (induction j)
  case (Suc j)
  then show ?case using line_next_start [of j t] line_le [of j t] by (cases "i = Suc j") (auto simp: le_Suc_eq)
qed simp

lemma line_end_le: "i < line_count t \<Longrightarrow> line_start t i \<le> line_end t i \<and> line_end t i \<le> line_stop t i"
  using line_le [of i t] by (auto simp: line_end_def line_stop_def Let_def)

lemma line_words: "i < line_count t \<Longrightarrow> words (slice t (line_start t i) (line_stop t i)) = words (line_text t i)"
proof -
  assume i: "i < line_count t"
  show ?thesis
  proof (cases "line_stop t i > line_start t i \<and> t ! (line_stop t i - 1) = 13")
    case True
    then have e: "line_end t i = line_stop t i - 1" by (simp add: line_end_def line_stop_def Let_def)
    have "slice t (line_end t i) (line_stop t i) = [13]" using slice_Suc [of "line_stop t i - 1" t] True line_le [OF i] by (auto simp: e)
    moreover have "line_start t i \<le> line_end t i" "line_end t i \<le> line_stop t i" using True e by auto
    ultimately have "slice t (line_start t i) (line_stop t i) = line_text t i @ [13]"
      using slice_append [of "line_start t i" "line_end t i" "line_stop t i" t] by (simp add: line_text_def)
    then show ?thesis using words_trail [of "[13]" "line_text t i"] by simp
  qed (auto simp: line_text_def line_end_def line_stop_def Let_def)
qed

lemma lines_words:
  assumes "f + n < line_count t"
  shows "words (slice t (line_start t f) (line_start t (f + n)) @ s) = concat (map (\<lambda>k. words (line_text t (f + k))) [0..<n]) @ words s"
  using assms
proof (induction n arbitrary: s)
  case (Suc n)
  let ?a = "line_start t f" and ?b = "line_start t (f + n)" and ?c = "line_stop t (f + n)"
  note c = line_next_start [of "f + n" t] line_le [of "f + n" t] line_start_mono [of "f + n" t f]
  have "slice t ?c (Suc ?c) = [10]" using slice_Suc [of ?c t] c(1) Suc.prems by simp
  then have "slice t ?a (line_start t (f + Suc n)) = slice t ?a ?b @ slice t ?b ?c @ [10]"
    using slice_append [of ?a ?b "Suc ?c" t] slice_append [of ?b ?c "Suc ?c" t] c Suc.prems by simp
  moreover have "words (slice t ?b ?c @ 10 # s) = words (line_text t (f + n)) @ words s"
    using line_words [of "f + n" t] Suc.prems by (simp add: words_append)
  ultimately show ?case using Suc.IH [of "slice t ?b ?c @ 10 # s"] Suc.prems by simp
qed simp

lemma window_words:
  assumes "index < line_count t" "f \<le> index" "stop = line_end t index \<or> line_next t index = Some stop"
  shows "words (slice t (line_start t f) stop) = concat (map (\<lambda>k. words (line_text t (f + k))) [0..<Suc index - f])"
    "stop \<le> length t" "stop \<le> (if Suc index < line_count t then line_start t (Suc index) else length t)"
proof -
  have ix: "f + (index - f) = index" "Suc index - f = Suc (index - f)" using assms(2) by simp_all
  note le = line_end_le [OF assms(1)] line_le [OF assms(1)] line_start_mono [OF assms(1,2)] line_next_start [of index t]
  have nxt: "Suc index < line_count t \<and> stop = line_start t (Suc index)" if "line_next t index = Some stop"
    using that by (auto simp: line_next_def line_start_def line_count_def split: if_splits)
  show "stop \<le> length t" "stop \<le> (if Suc index < line_count t then line_start t (Suc index) else length t)"
    using assms(3) nxt le by auto
  show "words (slice t (line_start t f) stop) = concat (map (\<lambda>k. words (line_text t (f + k))) [0..<Suc index - f])"
    using assms(3)
  proof
    assume "stop = line_end t index"
    then have "slice t (line_start t f) stop = slice t (line_start t f) (line_start t (f + (index - f))) @ line_text t index"
      using slice_append [of "line_start t f" "line_start t index" stop t] le ix by (simp add: line_text_def)
    then show ?thesis using lines_words [of f "index - f" t "line_text t index"] assms(1) ix by simp
  next
    assume "line_next t index = Some stop"
    then show ?thesis using nxt lines_words [of f "Suc index - f" t "[]"] assms(2) by simp
  qed
qed

definition line_pos :: "jstr \<Rightarrow> nat \<Rightarrow> nat" where
  "line_pos t b = (if b < line_count t then line_start t b else length t)"

definition window_ready :: "bool \<Rightarrow> jstr \<Rightarrow> text_edit \<Rightarrow> bool" where
  "window_ready flexible t e \<longleftrightarrow> \<not> list_all (\<lambda>line. trim line = []) (fst (neededLines (oldText e)))"

lemma search_simps [simp]:
  "ws_text (window_search_of t e fl) = t" "ws_edit (window_search_of t e fl) = e" "ws_flexible (window_search_of t e fl) = fl"
  "ws_needle (window_search_of t e fl) = fst (neededLines (oldText e))" "blank (ws_indent (window_search_of t e fl))"
  by (simp_all add: window_search_of_def Let_def split: prod.split)

lemma ready_words: "window_ready fl t e \<Longrightarrow> words (oldText e) \<noteq> []"
proof
  assume r: "window_ready fl t e" and "words (oldText e) = []"
  then have none: "words l = []" if "l \<in> set (fst (neededLines (oldText e)))" for l using that words_needed [of "oldText e"] by (metis concat_eq_Nil_conv list.set_map image_eqI)
  have "trim l = []" if "l \<in> set (fst (neededLines (oldText e)))" for l
  proof -
    have "dropWhile is_space l = []" using none [OF that] by (simp add: words_empty_iff list_all_iff)
    then show ?thesis by (simp only: trim_def rev.simps dropWhile.simps)
  qed
  then show False using r by (simp add: window_ready_def list_all_iff)
qed

lemma sought_words: "map words (ws_sought (window_search_of t e fl)) = map words (fst (neededLines (oldText e)))"
  by (auto simp: ws_sought_def window_search_of_def Let_def split: prod.split)

lemma items_words: "map words (ws_lines (window_search_of t e fl)) = map (\<lambda>i. words (line_text t i)) [0..<line_count t]"
  by (auto simp: ws_lines_def)

lemma found_words:
  assumes "window_at (ws_sought (window_search_of t e fl)) b (d @ [x])" "ws_lines (window_search_of t e fl) = d @ x # ys"
  defines "n \<equiv> length (fst (neededLines (oldText e)))"
  shows "length d < line_count t" "b + n \<le> Suc (length d)"
    "concat (map (\<lambda>k. words (line_text t (Suc (length d) - n + k))) [0..<n]) = words (oldText e)"
proof -
  let ?s = "ws_sought (window_search_of t e fl)" and ?f = "Suc (length d) - n"
  have "length (d @ x # ys) = line_count t" using arg_cong [OF assms(2), of length] by (simp add: ws_lines_def)
  then show d: "length d < line_count t" by simp
  have n: "length ?s = n" using arg_cong [OF sought_words, of length t e fl] by (simp add: n_def)
  then show b: "b + n \<le> Suc (length d)" using assms(1) by (simp add: window_at_def)
  have "drop ?f (d @ [x]) = ?s" using assms(1) n suffix_iff_drop [of ?s "d @ [x]"] by (simp add: window_at_def del: drop_append suffix_snoc)
  moreover have "map words (d @ [x]) = take (Suc (length d)) (map words (ws_lines (window_search_of t e fl)))" by (simp add: assms(2))
  ultimately have "map words ?s = drop ?f (take (Suc (length d)) (map (\<lambda>i. words (line_text t i)) [0..<line_count t]))"
    unfolding items_words by (metis drop_map)
  also have "\<dots> = drop ?f (map (\<lambda>i. words (line_text t i)) [0..<Suc (length d)])" using d by (simp add: take_map del: upt_Suc)
  also have "\<dots> = map (\<lambda>i. words (line_text t i)) [?f..<?f + n]" using b by (simp add: drop_map del: upt_Suc)
  also have "\<dots> = map (\<lambda>k. words (line_text t (?f + k))) [0..<n]" by (simp add: map_add_upt [symmetric] add.commute)
  finally show "concat (map (\<lambda>k. words (line_text t (?f + k))) [0..<n]) = words (oldText e)"
    using sought_words [of t e fl] words_needed [of "oldText e"] by simp
qed

lemma fit_range:
  assumes "words (slice t a b) = words (oldText e)" "words (oldText e) \<noteq> []" "b \<le> length t" "words x = words (newText e)"
  shows "fit t e \<lparr>mr_start = a, mr_end = b, mr_replacement = x\<rparr>"
proof -
  have "slice t a b \<noteq> []" using assms(1,2) by auto
  then have "a < b" by (cases "a < b") (auto simp: slice_def)
  then show ?thesis using assms by (simp add: fit_def)
qed

lemma replacement_words: "blank p \<Longrightarrow> words (window_replacement (window_search_of t e fl) f p) = words (newText e)"
  by (simp add: window_replacement_def Let_def)

lemma hit_window_valid:
  assumes "hit_window w index a = Inr (v, a')"
  shows "if v then \<exists>stop p. (stop = line_end (ws_text w) index \<or> line_next (ws_text w) index = Some stop) \<and> blank p
      \<and> collectMatch (snd a) (line_start (ws_text w) (index + 1 - length (ws_needle w))) stop (window_replacement w (index + 1 - length (ws_needle w)) p)
          (replaceAll (ws_edit w)) = Ok (snd a')
    else snd a' = snd a"
proof -
  obtain k c where a: "a = (k, c)" by force
  let ?first = "index + 1 - length (ws_needle w)"
  define stop where "stop = (if ws_through w then line_next (ws_text w) index else Some (line_end (ws_text w) index))"
  define p where "p = (if ws_flexible w then commonIndent (map (\<lambda>k. line_text (ws_text w) (?first + k)) [0..<length (ws_needle w)]) else [])"
  have p: "blank p" by (simp add: p_def)
  have st: "the stop = line_end (ws_text w) index \<or> line_next (ws_text w) index = Some (the stop)" if "stop \<noteq> None"
    using that by (auto simp: stop_def split: if_splits)
  have c: "if v then stop \<noteq> None \<and> collectMatch c (line_start (ws_text w) ?first) (the stop) (window_replacement w ?first p) (replaceAll (ws_edit w)) = Ok (snd a')
      else snd a' = c"
    using assms unfolding hit_window_def a Let_def prod.case stop_def [symmetric] p_def [symmetric]
    by (auto split: if_splits sum.splits)
  show ?thesis
  proof (cases v)
    case True
    then have "stop \<noteq> None" "collectMatch (snd a) (line_start (ws_text w) ?first) (the stop) (window_replacement w ?first p) (replaceAll (ws_edit w)) = Ok (snd a')"
      using c a by simp_all
    then show ?thesis using st p True by (intro if_P [THEN iffD2] exI [of _ "the stop"] exI [of _ p] conjI) simp_all
  qed (use c a in simp)
qed

interpretation windows: edit_finder "window_ready fl" "\<lambda>t e. ws_sought (window_search_of t e fl)" "\<lambda>t e. ws_lines (window_search_of t e fl)"
  "\<lambda>t e. hit_window (window_search_of t e fl)" "\<lambda>t e. (0, collectedMatches t (replaceAll e))" snd line_pos for fl
proof unfold_locales
  fix t e show "window_ready fl t e \<Longrightarrow> ws_sought (window_search_of t e fl) \<noteq> []"
    using sought_words [of t e fl] by (auto simp: window_ready_def)
next
  fix t e b d x ys a v a'
  let ?w = "window_search_of t e fl" and ?n = "length (fst (neededLines (oldText e)))"
  assume r: "window_ready fl t e" and w: "window_at (ws_sought ?w) b (d @ [x])" and t: "ws_lines ?w = d @ x # ys"
    and h: "hit_window ?w (length d) a = Inr (v, a')"
  note f = found_words [OF w t] and hv = hit_window_valid [OF h]
  let ?f = "Suc (length d) - ?n"
  have n: "0 < ?n" using r by (auto simp: window_ready_def)
  show "if v then \<exists>r. collectMatch (snd a) (mr_start r) (mr_end r) (mr_replacement r) (replaceAll e) = Ok (snd a') \<and> fit t e r
       \<and> line_pos t b \<le> mr_start r \<and> mr_end r \<le> line_pos t (Suc (length d)) else snd a' = snd a"
  proof (cases v)
    case True
    then obtain stop p where s: "stop = line_end t (length d) \<or> line_next t (length d) = Some stop" "blank p"
      "collectMatch (snd a) (line_start t ?f) stop (window_replacement ?w ?f p) (replaceAll e) = Ok (snd a')" using hv by auto
    have len: "Suc (length d) - ?f = ?n" "?f \<le> length d" "b \<le> ?f" using f(2) n by linarith+
    note ww = window_words [OF f(1) len(2) s(1)]
    have "fit t e \<lparr>mr_start = line_start t ?f, mr_end = stop, mr_replacement = window_replacement ?w ?f p\<rparr>"
      using ww(1,2) f(3) replacement_words [OF s(2)] ready_words [OF r] by (intro fit_range) (simp_all add: len(1))
    moreover have "line_pos t b \<le> line_start t ?f" using line_start_mono [of ?f t b] len f(1) by (simp add: line_pos_def)
    ultimately show ?thesis using True s(3) ww(3)
      by (auto simp: line_pos_def intro!: exI [of _ "\<lparr>mr_start = line_start t ?f, mr_end = stop, mr_replacement = window_replacement ?w ?f p\<rparr>"])
  qed (use hv in simp)
qed simp

lemma findLineWindows_replaces:
  assumes "findLineWindows fl t e = Ok (Matched st rs n updated)"
  shows "replaces e n t (result_text t rs updated)"
  using assms windows.search_replaces [of fl t e]
  by (auto simp: findLineWindows_def Let_def windows.search_def window_ready_def split: sum.splits edit_stop.splits if_splits)

section \<open>Tokens\<close>

text \<open>Spans from offset \<open>c\<close> on: words of the text with white space before each and after.\<close>

fun spaced :: "jstr \<Rightarrow> nat \<Rightarrow> (nat \<times> jstr) list \<Rightarrow> bool" where
  "spaced t c [] = True"
| "spaced t c ((a, w) # ss) = (c \<le> a \<and> a + length w \<le> length t \<and> w \<noteq> [] \<and> list_all (\<lambda>x. \<not> is_space x) w \<and> slice t a (a + length w) = w
     \<and> blank (slice t c a) \<and> (a + length w < length t \<longrightarrow> is_space (t ! (a + length w))) \<and> spaced t (a + length w) ss)"

lemma spaced_widen: "spaced t (Suc c) ss \<Longrightarrow> c < length t \<Longrightarrow> is_space (t ! c) \<Longrightarrow> spaced t c ss"
proof (cases ss)
  case (Cons p ps)
  assume s: "spaced t (Suc c) ss" "c < length t" "is_space (t ! c)"
  obtain a w where p: "p = (a, w)" by force
  have "slice t c a = t ! c # slice t (Suc c) a"
    using slice_append [of c "Suc c" a t] slice_Suc [of c t] s Cons p by simp
  then show ?thesis using s Cons p by simp
qed simp

lemma spaced_words: "drop i t = s \<Longrightarrow> i \<le> length t \<Longrightarrow> spaced t i (words_from i s)"
proof (induction i s rule: words_from.induct)
  case (2 i c cs)
  have i: "i < length t" "t ! i = c" "drop (Suc i) t = cs"
    using 2(3,4) by (metis Cons_nth_drop_Suc drop_all le_neq_implies_less list.distinct(1) list.inject)+
  show ?case
  proof (cases "is_space c")
    case True
    then show ?thesis using 2(1) i spaced_widen [of t i "words_from (Suc i) cs"] by simp
  next
    case False
    let ?ns = "\<lambda>x. \<not> is_space x"
    let ?w = "takeWhile ?ns (c # cs)" and ?r = "dropWhile ?ns cs"
    have split: "c # cs = ?w @ ?r" using False by simp
    have "slice t i (i + length ?w) = take (length ?w) (c # cs)" using 2(3) by (simp add: slice_def drop_take)
    moreover have "drop (i + length ?w) t = drop (length ?w) (c # cs)" using 2(3) by (metis add.commute drop_drop)
    ultimately have r: "drop (i + length ?w) t = ?r" "slice t i (i + length ?w) = ?w" using split by (metis append_eq_conv_conj)+
    have len: "i + length ?w \<le> length t" using arg_cong [OF 2(3), of length] length_takeWhile_le [of ?ns "c # cs"] i(1) by simp
    have after: "is_space (t ! (i + length ?w))" if "i + length ?w < length t"
      using r(1) that dropWhile_space [of cs] by (metis Cons_nth_drop_Suc)
    have "list_all ?ns ?w" by (auto simp: list_all_iff dest: set_takeWhileD)
    then show ?thesis using 2(2) [OF False refl r(1) len] False r(2) len after by (simp add: Let_def)
  qed
qed simp

definition span_end :: "nat \<times> jstr \<Rightarrow> nat" where
  "span_end p = fst p + length (snd p)"

lemma spaced_drop: "spaced t c ss \<Longrightarrow> \<exists>c'. c \<le> c' \<and> spaced t c' (drop i ss)"
proof (induction t c ss arbitrary: i rule: spaced.induct)
  case (2 t c a w ss)
  show ?case
  proof (cases i)
    case (Suc j)
    then obtain c' where "a + length w \<le> c'" "spaced t c' (drop j ss)" using 2 by fastforce
    then show ?thesis using Suc 2(2) by (intro exI [of _ c']) auto
  qed (use 2(2) in auto)
qed auto

lemma spaced_nth:
  assumes "spaced t c ss" "i < length ss"
  shows "span_end (ss ! i) \<le> length t" "words (snd (ss ! i)) = [snd (ss ! i)]" "fst (ss ! i) \<le> span_end (ss ! i)"
    "slice t (fst (ss ! i)) (span_end (ss ! i)) = snd (ss ! i)"
proof -
  obtain c' where "spaced t c' (drop i ss)" using spaced_drop [OF assms(1)] by blast
  then have "spaced t c' (ss ! i # drop (Suc i) ss)" using assms(2) by (simp add: Cons_nth_drop_Suc)
  then show "span_end (ss ! i) \<le> length t" "words (snd (ss ! i)) = [snd (ss ! i)]" "fst (ss ! i) \<le> span_end (ss ! i)"
    "slice t (fst (ss ! i)) (span_end (ss ! i)) = snd (ss ! i)"
    by (cases "ss ! i"; simp add: span_end_def words_word)+
qed

lemma spaced_gap:
  assumes "spaced t c ss" "Suc i < length ss"
  shows "span_end (ss ! i) < fst (ss ! Suc i)" "blank (slice t (span_end (ss ! i)) (fst (ss ! Suc i)))"
proof -
  obtain a w b u where p: "ss ! i = (a, w)" "ss ! Suc i = (b, u)" by force
  obtain c' where "spaced t c' (drop i ss)" using spaced_drop [OF assms(1)] by blast
  then have "spaced t c' ((a, w) # (b, u) # drop (Suc (Suc i)) ss)" using assms(2) p by (metis Cons_nth_drop_Suc Suc_lessD)
  then have s: "a + length w \<le> b" "b + length u \<le> length t" "slice t b (b + length u) = u" "u \<noteq> []" "list_all (\<lambda>x. \<not> is_space x) u"
    "a + length w < length t \<longrightarrow> is_space (t ! (a + length w))" "blank (slice t (a + length w) b)" by auto
  have "t ! b = u ! 0" using nth_slice [of b 0 "b + length u" t] s(2-4) by simp
  then have "\<not> is_space (t ! b)" using s(4,5) by (cases u) auto
  moreover have "0 < length u" using s(4) by simp
  then have "b < length t" using s(2) by linarith
  ultimately have "a + length w \<noteq> b" using s(6) by auto
  then show "span_end (ss ! i) < fst (ss ! Suc i)" "blank (slice t (span_end (ss ! i)) (fst (ss ! Suc i)))"
    using s(1,7) p by (simp_all add: span_end_def)
qed

lemma spans_words:
  assumes "spaced t c ss" "f + n < length ss"
  shows "words (slice t (fst (ss ! f)) (span_end (ss ! (f + n)))) = map (\<lambda>k. snd (ss ! (f + k))) [0..<Suc n]"
    "fst (ss ! f) \<le> fst (ss ! (f + n))"
  using assms(2)
proof (induction n)
  case 0
  case 1 then show ?case using spaced_nth [OF assms(1), of f] by simp
  case 2 then show ?case by simp
next
  case (Suc n)
  let ?e = "span_end (ss ! (f + n))" and ?b = "fst (ss ! (f + Suc n))" and ?z = "span_end (ss ! (f + Suc n))"
  { fix k assume "f + Suc n < length ss"
    then have le: "fst (ss ! f) \<le> fst (ss ! (f + n))" "fst (ss ! (f + n)) \<le> ?e" "?e < ?b" "blank (slice t ?e ?b)" "?b \<le> ?z" "?z \<le> length t"
      "slice t ?b ?z = snd (ss ! (f + Suc n))" "words (snd (ss ! (f + Suc n))) = [snd (ss ! (f + Suc n))]"
      using Suc.IH(2) spaced_gap [OF assms(1), of "f + n"] spaced_nth [OF assms(1), of "f + n"] spaced_nth [OF assms(1), of "f + Suc n"] by simp_all
    then show "fst (ss ! f) \<le> ?b" by simp
    have "slice t (fst (ss ! f)) ?z = slice t (fst (ss ! f)) ?e @ slice t ?e ?b @ slice t ?b ?z"
      using slice_append [of "fst (ss ! f)" ?e ?z t] slice_append [of ?e ?b ?z t] le by simp
    moreover have "slice t ?e ?b \<noteq> []" using le(3,5,6) by (simp flip: length_0_conv)
    ultimately show "words (slice t (fst (ss ! f)) ?z) = map (\<lambda>k. snd (ss ! (f + k))) [0..<Suc (Suc n)]"
      using words_gap [OF le(4)] le(7,8) Suc.IH(1) \<open>f + Suc n < length ss\<close> by simp }
qed

lemma words_drop_blank: "k \<le> length (takeWhile is_space s) \<Longrightarrow> words (drop k s) = words s"
proof -
  assume k: "k \<le> length (takeWhile is_space s)"
  have "take k s = take k (takeWhile is_space s @ dropWhile is_space s)" by simp
  then have "take k s = take k (takeWhile is_space s)" using k by (simp only: take_append) simp
  then have "blank (take k s)" using blank_takeWhile [of s] by (metis list_all_append append_take_drop_id)
  then show ?thesis using words_lead [of "take k s" "drop k s"] by simp
qed

lemma words_take_blank: "k \<le> length (trailing_space s) \<Longrightarrow> words (take (length s - k) s) = words s"
proof -
  assume k: "k \<le> length (trailing_space s)"
  have "take k (rev s) = take k (takeWhile is_space (rev s) @ dropWhile is_space (rev s))" by simp
  then have "take k (rev s) = take k (takeWhile is_space (rev s))" using k by (simp only: take_append trailing_space_def) simp
  then have "blank (take k (rev s))" using blank_takeWhile [of "rev s"] by (metis list_all_append append_take_drop_id)
  then have "blank (drop (length s - k) s)" by (simp add: take_rev)
  then show ?thesis using words_trail [of "drop (length s - k) s" "take (length s - k) s"] by simp
qed

lemma past_newlines_le: "stop \<le> length s \<Longrightarrow> past_newlines n s stop \<le> length s"
proof (induction n arbitrary: stop)
  case (Suc n)
  show ?case unfolding past_newlines.simps
    by (rule Suc.IH) (auto simp: index_from_def Let_def split: option.split if_splits)
qed simp

lemma peel_leading_words: "peel_leading s boundary = Some u \<Longrightarrow> words u = words s"
proof -
  assume u: "peel_leading s boundary = Some u"
  let ?ws = "leading_space s"
  define stop where "stop = past_newlines (newlineCount boundary) ?ws 0"
  have "stop \<le> length ?ws" unfolding stop_def by (rule past_newlines_le) simp
  moreover have "length (takeWhile (\<lambda>c. c \<noteq> 10) (drop stop ?ws)) \<le> length ?ws - stop" using length_takeWhile_le [of _ "drop stop ?ws"] by simp
  ultimately have "stop + length (takeWhile (\<lambda>c. c \<noteq> 10) (drop stop ?ws)) \<le> length ?ws" by simp
  then show ?thesis using u words_drop_blank [of _ s] unfolding peel_leading_def Let_def stop_def [symmetric]
    by (auto simp: leading_space_def sliceFrom_def split: if_splits)
qed

lemma peel_trailing_words: "peel_trailing s boundary = Some u \<Longrightarrow> words u = words s"
  by (auto simp: peel_trailing_def Let_def words_take_blank split: if_splits)

lemma token_search_facts:
  assumes "token_search_of t e = Some k"
  shows "tk_text k = t" "tk_edit k = e" "tk_tokens k = words (oldText e)" "2 \<le> length (words (oldText e))" "words (tk_replacement k) = words (newText e)"
  using assms peel_leading_words [of "crlf_to_lf (newText e)"] peel_trailing_words
  by (auto simp: token_search_of_def tokens_words Let_def split: if_splits option.splits)

lemma window_items:
  assumes "window_at p b (d @ [x])" "its = d @ x # ys"
  shows "p = map (\<lambda>k. its ! (Suc (length d) - length p + k)) [0..<length p]"
proof (rule nth_equalityI)
  fix k assume k: "k < length p"
  have "drop (Suc (length d) - length p) (d @ [x]) = p" "length p \<le> Suc (length d)"
    using assms(1) suffix_iff_drop [of p "d @ [x]"] by (simp_all add: window_at_def del: drop_append suffix_snoc)
  then have "p ! k = (d @ [x]) ! (Suc (length d) - length p + k)" using k by (metis add_diff_inverse_nat diff_le_self length_append_singleton not_less nth_drop)
  moreover have "(d @ [x]) ! j = its ! j" if "j < Suc (length d)" for j using that assms(2) by (auto simp: nth_append less_Suc_eq)
  ultimately show "p ! k = map (\<lambda>k. its ! (Suc (length d) - length p + k)) [0..<length p] ! k"
    using k \<open>length p \<le> Suc (length d)\<close> by simp
qed simp

definition span_pos :: "jstr \<Rightarrow> nat \<Rightarrow> nat" where
  "span_pos t b = (if b = 0 then 0 else span_end (words_from 0 t ! (b - 1)))"

lemma span_pos_le: "b \<le> f \<Longrightarrow> f < length (words_from 0 t) \<Longrightarrow> span_pos t b \<le> fst (words_from 0 t ! f)"
proof -
  assume b: "b \<le> f" "f < length (words_from 0 t)"
  have sp: "spaced t 0 (words_from 0 t)" by (rule spaced_words) simp_all
  show ?thesis
  proof (cases b)
    case (Suc j)
    then have "fst (words_from 0 t ! b) \<le> fst (words_from 0 t ! f)" using spans_words(2) [OF sp, of b "f - b"] b by simp
    then show ?thesis using spaced_gap(1) [OF sp, of j] b Suc by (simp add: span_pos_def)
  qed (simp add: span_pos_def)
qed

lemma hit_tokens_valid:
  assumes "hit_tokens k spans index a = Inr (v, a')"
  shows "if v then \<exists>x. words x = words (tk_replacement k) \<and> collectMatch (snd a) (fst (spans ! (index + 1 - length (tk_tokens k)))) (span_end (spans ! index)) x
      (replaceAll (tk_edit k)) = Ok (snd a')
    else snd a' = snd a"
proof -
  obtain cur c where a: "a = (cur, c)" by (cases a)
  let ?collect = "\<lambda>x. collectMatch c (fst (spans ! (index + 1 - length (tk_tokens k)))) (span_end (spans ! index)) x (replaceAll (tk_edit k)) = Ok (snd a')"
  have "if v then ?collect (tk_replacement k) \<or> ?collect (withLineEnding (tk_replacement k) True) else snd a' = c"
    using assms unfolding hit_tokens_def a Let_def prod.case span_end_def [symmetric] by (auto split: if_splits sum.splits prod.splits)
  moreover have "words (withLineEnding (tk_replacement k) True) = words (tk_replacement k)" by simp
  ultimately show ?thesis unfolding a snd_conv by (cases v) (simp_all only: if_True if_False, blast)
qed

interpretation tokens: edit_finder "\<lambda>t e. token_search_of t e \<noteq> None" "\<lambda>t e. tk_tokens (the (token_search_of t e))"
  "\<lambda>t e. map snd (words_from 0 t)" "\<lambda>t e. hit_tokens (the (token_search_of t e)) (words_from 0 t)"
  "\<lambda>t e. ((index_from 10 t 0, None), collectedMatches t (replaceAll e))" snd span_pos
proof unfold_locales
  fix t e assume "token_search_of t e \<noteq> None"
  then show "tk_tokens (the (token_search_of t e)) \<noteq> []" using token_search_facts(3,4) [of t e] by fastforce
next
  fix t e b d x ys a v a'
  let ?k = "the (token_search_of t e)" and ?ss = "words_from 0 t"
  assume ready: "token_search_of t e \<noteq> None" and w: "window_at (tk_tokens ?k) b (d @ [x])" and its: "map snd ?ss = d @ x # ys"
    and h: "hit_tokens ?k ?ss (length d) a = Inr (v, a')"
  then have k: "token_search_of t e = Some ?k" by simp
  note facts = token_search_facts [OF k] and hv = hit_tokens_valid [OF h]
  let ?n = "length (words (oldText e))" and ?f = "Suc (length d) - length (words (oldText e))"
  have d: "length d < length ?ss" using arg_cong [OF its, of length] by simp
  have b: "b + ?n \<le> Suc (length d)" using w facts(3) by (simp add: window_at_def)
  then have f: "b \<le> ?f" "?f + (?n - 1) = length d" "Suc (?n - 1) = ?n" "?f < length ?ss" using facts(4) d by linarith+
  have sp: "spaced t 0 ?ss" by (rule spaced_words) simp_all
  have "words (oldText e) = map (\<lambda>k. map snd ?ss ! (?f + k)) [0..<?n]" using window_items [OF w its] facts(3) by simp
  also have "\<dots> = map (\<lambda>k. snd (?ss ! (?f + k))) [0..<?n]" using f d by (intro map_cong) auto
  also have "\<dots> = words (slice t (fst (?ss ! ?f)) (span_end (?ss ! length d)))" using spans_words(1) [OF sp, of ?f "?n - 1"] d unfolding f(2,3) by simp
  finally have words: "words (slice t (fst (?ss ! ?f)) (span_end (?ss ! length d))) = words (oldText e)" ..
  show "if v then \<exists>r. collectMatch (snd a) (mr_start r) (mr_end r) (mr_replacement r) (replaceAll e) = Ok (snd a') \<and> fit t e r
       \<and> span_pos t b \<le> mr_start r \<and> mr_end r \<le> span_pos t (Suc (length d)) else snd a' = snd a"
  proof (cases v)
    case True
    then obtain u where u: "words u = words (newText e)"
      "collectMatch (snd a) (fst (?ss ! ?f)) (span_end (?ss ! length d)) u (replaceAll e) = Ok (snd a')" using hv facts by auto
    let ?r = "\<lparr>mr_start = fst (?ss ! ?f), mr_end = span_end (?ss ! length d), mr_replacement = u\<rparr>"
    have "fit t e ?r" using words facts(4) u(1) spaced_nth(1) [OF sp d] by (intro fit_range) auto
    then show ?thesis using True u(2) span_pos_le [OF f(1,4)] by (auto simp: span_pos_def intro!: exI [of _ ?r])
  qed (use hv in simp)
qed simp

lemma findWhitespaceNormalized_replaces:
  assumes "findWhitespaceNormalized t e = Ok (Matched st rs n updated)"
  shows "replaces e n t (result_text t rs updated)"
proof -
  obtain k where k: "token_search_of t e = Some k" using assms by (auto simp: findWhitespaceNormalized_def split: option.splits)
  show ?thesis using assms k tokens.search_replaces [of t e]
    by (auto simp: findWhitespaceNormalized_def tokens.search_def Let_def split: sum.splits prod.splits)
qed

section \<open>A batch of edits\<close>

lemma first_match_in: "first_match fs t e = Ok (Matched st rs n updated) \<Longrightarrow> \<exists>f \<in> set fs. f t e = Ok (Matched st rs n updated)"
proof (induction fs)
  case (Cons f fs)
  then show ?case by (cases "f t e") (auto split: match_outcome.splits)
qed simp

lemma findEditMatch_replaces:
  assumes "findEditMatch tolerant t e = Ok (Matched st rs n updated)"
  shows "replaces e n t (result_text t rs updated)"
proof -
  obtain f where "f \<in> {findExact, findLineTrimmed, findIndentationFlexible, findWhitespaceNormalized}" "f t e = Ok (Matched st rs n updated)"
    using first_match_in [OF assms [unfolded findEditMatch_def]] by (auto simp: TOLERANT_STRATEGIES_def EXACT_STRATEGIES_def RELAXED_STRATEGIES_def split: if_splits)
  then show ?thesis using findExact_replaces findLineWindows_replaces findWhitespaceNormalized_replaces
    by (auto simp: findLineTrimmed_def findIndentationFlexible_def)
qed

fun replaced_in_turn :: "text_edit list \<Rightarrow> nat list \<Rightarrow> jstr \<Rightarrow> jstr \<Rightarrow> bool" where
  "replaced_in_turn [] [] t u \<longleftrightarrow> t = u"
| "replaced_in_turn (e # es) (n # ns) t u \<longleftrightarrow> (\<exists>v. replaces e n t v \<and> replaced_in_turn es ns v u)"
| "replaced_in_turn _ _ t u \<longleftrightarrow> False"

lemma apply_edit_cases:
  assumes "apply_edit letter tolerant (i, e) (t, ms, fs) = Ok (t', ms', fs')"
  shows "(\<exists>s n. ms' = ms @ [(s, n)] \<and> fs' = fs \<and> replaces e n t t') \<or> (\<exists>f. t' = t \<and> ms' = ms \<and> fs' = fs @ [f])"
proof (cases "\<exists>s rs n updated. findEditMatch tolerant t e = Ok (Matched s rs n updated)")
  case True
  then obtain s rs n updated where m: "findEditMatch tolerant t e = Ok (Matched s rs n updated)" by blast
  then have "replaces e n t (result_text t rs updated)" by (rule findEditMatch_replaces)
  moreover have "ms' = ms @ [(s, n)]" "fs' = fs" "t' = result_text t rs updated"
    using assms m by (auto simp: apply_edit_def result_text_def replaceRanges_def Let_def split: option.splits if_splits)
  ultimately show ?thesis by blast
next
  case False
  then show ?thesis using assms by (auto simp: apply_edit_def split: sum.splits match_outcome.splits)
qed

lemma apply_each_replaces:
  assumes "apply_each letter tolerant es (t, ms, fs) = Ok (u, ms', fs')"
  shows "\<exists>ms2 fs2. ms' = ms @ ms2 \<and> fs' = fs @ fs2 \<and> (fs2 = [] \<longrightarrow> replaced_in_turn (map snd es) (map snd ms2) t u)"
  using assms
proof (induction es arbitrary: t ms fs)
  case (Cons ie es)
  obtain i e where ie: "ie = (i, e)" by force
  obtain v ms1 fs1 where s: "apply_edit letter tolerant (i, e) (t, ms, fs) = Ok (v, ms1, fs1)" "apply_each letter tolerant es (v, ms1, fs1) = Ok (u, ms', fs')"
    using Cons.prems ie by (auto split: sum.splits)
  obtain ms2 fs2 where r: "ms' = ms1 @ ms2" "fs' = fs1 @ fs2" "fs2 = [] \<longrightarrow> replaced_in_turn (map snd es) (map snd ms2) v u"
    using Cons.IH [OF s(2)] by blast
  from apply_edit_cases [OF s(1)] show ?case
  proof (elim disjE exE conjE)
    fix m n assume "ms1 = ms @ [(m, n)]" "fs1 = fs" "replaces e n t v"
    then show ?thesis using r ie by (intro exI [of _ "(m, n) # ms2"] exI [of _ fs2]) auto
  next
    fix f assume "v = t" "ms1 = ms" "fs1 = fs @ [f]"
    then show ?thesis using r by (intro exI [of _ ms2] exI [of _ "f # fs2"]) auto
  qed
qed simp

text \<open>C14. Tolerance is about white space only. When \<open>applyTextEdits\<close> succeeds, tolerant or not, its
result comes from applying every edit of the batch in turn, none left out. Each edit replaces at
least one range of the working text, and exactly one unless it asks for all; the ranges are in order
and do not overlap; each of them holds exactly the words of the edit's old text, whatever white space
separates them, and receives exactly the words of its new text; everything else is kept as it is. The
counts that are reported are those of the replaced ranges.\<close>

theorem tolerant_edits_keep_words:
  assumes "applyTextEdits letter text edits tolerant = Ok (t, ms)"
  shows "replaced_in_turn edits (map snd ms) text t"
proof -
  have "apply_each letter tolerant (zip [0..<length edits] edits) (text, [], []) = Ok (t, ms, [])"
    using assms by (auto simp: applyTextEdits_def split: sum.splits if_splits prod.splits)
  from apply_each_replaces [OF this] show ?thesis by simp
qed

lemma tolerant_edits_keep_words_witness:
  defines "one \<equiv> \<lparr>oldText = js ''a  b'', newText = js ''c d'', replaceAll = True\<rparr>" and "two \<equiv> \<lparr>oldText = js ''x'', newText = js ''y'', replaceAll = False\<rparr>"
  shows "\<exists>ms. applyTextEdits (\<lambda>_. False) (js ''a b x a b'') [one, two] True = Ok (js ''c d y c d'', ms)
    \<and> replaced_in_turn [one, two] (map snd ms) (js ''a b x a b'') (js ''c d y c d'')"
proof -
  have "applyTextEdits (\<lambda>_. False) (js ''a b x a b'') [one, two] True = Ok (js ''c d y c d'', [(WhitespaceNormalized, 2), (ExactText, 1)])"
    unfolding one_def two_def by code_simp
  then show ?thesis using tolerant_edits_keep_words [of "\<lambda>_. False" "js ''a b x a b''" "[one, two]" True] by blast
qed

end
