(* ===== verification/EditBounds.thy ===== *)
theory EditBounds
  imports EditSafety "HOL-Library.Code_Target_Nat"
begin

text \<open>
  The size of the message with which \<^verbatim>\<open>packages/code/src/edits.ts\<close> refuses a batch: the bytes of a text in a JSON
  body add up over its characters, so a reason can be cut to what is left of the budget.
\<close>

section \<open>Bytes add up\<close>

abbreviation joinable :: "jstr \<Rightarrow> jstr \<Rightarrow> bool" where
  "joinable a b \<equiv> a = [] \<or> b = [] \<or> \<not> is_high (last a) \<or> \<not> is_low (hd b)"

lemma high_low: "is_high c \<Longrightarrow> \<not> is_low c"
  by (simp add: is_high_def is_low_def)

lemma utf8_append: "joinable a b \<Longrightarrow> utf8 (a @ b) = utf8 a @ utf8 b"
proof (induction a rule: utf8.induct)
  case (2 c)
  then show ?case by (cases b) auto
next
  case (3 c d cs)
  then show ?case by (cases "cs = []") (auto dest: high_low)
qed simp

lemma quote_body_append: "joinable a b \<Longrightarrow> quote_body (a @ b) = quote_body a @ quote_body b"
proof (induction a rule: quote_body.induct)
  case (2 c)
  then show ?case by (cases b) auto
next
  case (3 c d cs)
  then show ?case by (cases "cs = []") (auto dest: high_low)
qed simp

lemma quote_unit_ends: "quote_unit c \<noteq> []" "\<not> is_high (last (quote_unit c))"
  by (auto simp: quote_unit_def hex4_def hex_digit_def is_high_def)

lemma quote_body_ends: "quote_body s = [] \<longleftrightarrow> s = []" "s \<noteq> [] \<Longrightarrow> \<not> is_high (last (quote_body s))"
proof (induction s rule: quote_body.induct)
  case (3 c d cs)
  { case 1 show ?case by (simp add: quote_unit_ends)
  next
    case 2
    show ?case
    proof (cases "is_high c \<and> is_low d")
      case True
      then show ?thesis using 3(1,2) by (cases "cs = []") (auto dest: high_low)
    next
      case False
      then show ?thesis using 3(3,4) [OF False] by auto
    qed }
qed (simp_all add: quote_unit_ends)

lemma encodedBytes_body: "encodedBytes s = int (length (utf8 (quote_body s)))"
proof -
  have "utf8 (quote_json s) = utf8 [34] @ utf8 (quote_body s) @ utf8 [34]"
    using utf8_append [of "[34]" "quote_body s @ [34]"] utf8_append [of "quote_body s" "[34]"] by (simp add: quote_json_def is_high_def is_low_def)
  then show ?thesis by (simp add: encodedBytes_def byteLength_def)
qed

lemma encodedBytes_Nil [simp]: "encodedBytes [] = 0"
  by (simp add: encodedBytes_body)

lemma encodedBytes_append: "joinable a b \<Longrightarrow> encodedBytes (a @ b) = encodedBytes a + encodedBytes b"
  using utf8_append [of "quote_body a" "quote_body b"] quote_body_append [of a b] quote_body_ends [of a] by (auto simp: encodedBytes_body)

lemma encodedBytes_nonneg [simp]: "0 \<le> encodedBytes s"
  by (simp add: encodedBytes_body)

definition plain :: "nat \<Rightarrow> bool" where
  "plain c \<longleftrightarrow> c = 10 \<or> 32 \<le> c \<and> c < 127"

lemma encodedBytes_plain: "list_all plain s \<Longrightarrow> encodedBytes s \<le> 2 * int (length s)"
proof (induction s)
  case (Cons c s)
  have "joinable [c] s" using Cons.prems by (auto simp: plain_def is_high_def)
  moreover have "encodedBytes [c] \<le> 2" using Cons.prems by (auto simp: plain_def encodedBytes_body quote_unit_def is_high_def is_low_def)
  ultimately show ?case using Cons encodedBytes_append [of "[c]" s] by simp
qed simp

section \<open>Shortened reasons\<close>

lemma shorten_end_bounds:
  fixes n :: nat
  defines "w \<equiv> \<lambda>s chars budget n bytes. shorten_end s chars budget n bytes"
  shows "n \<le> w s chars budget n bytes \<and> w s chars budget n bytes \<le> n + length s
    \<and> (n < w s chars budget n bytes \<longrightarrow> within (int (w s chars budget n bytes) + 1) chars
        \<and> within (bytes + encodedBytes (take (w s chars budget n bytes - n) s)) budget)"
  unfolding w_def
proof (induction s chars budget n bytes rule: shorten_end.induct)
  case (2 c cs chars budget n bytes)
  define d where "d = (if is_high c \<and> cs \<noteq> [] \<and> is_low (hd cs) then 2 else 1 :: nat)"
  have d: "1 \<le> d" "d \<le> length (c # cs)" "joinable (take d (c # cs)) s" if "s = take k (drop (d - 1) cs)" for s k
    using that by (cases cs; auto simp: d_def dest: high_low)+
  let ?cost = "encodedBytes (take d (c # cs))"
  show ?case
  proof (cases "within (int (n + d) + 1) chars \<and> within (bytes + ?cost) budget")
    case False
    then show ?thesis by (auto simp: d_def Let_def)
  next
    case True
    let ?k = "shorten_end (drop (d - 1) cs) chars budget (n + d) (bytes + ?cost)"
    have k: "shorten_end (c # cs) chars budget n bytes = ?k" using True by (simp add: d_def Let_def)
    have IH: "n + d \<le> ?k" "?k \<le> n + d + length (drop (d - 1) cs)" "n + d < ?k \<Longrightarrow> within (int ?k + 1) chars"
      "n + d < ?k \<Longrightarrow> within (bytes + ?cost + encodedBytes (take (?k - (n + d)) (drop (d - 1) cs))) budget"
      using 2 [OF d_def refl] True by (auto simp: d_def)
    have "take (?k - n) (c # cs) = take d (c # cs) @ take (?k - (n + d)) (drop (d - 1) cs)"
      using IH(1) d(1) [OF refl] by (simp add: take_Cons' flip: take_add)
    then have "encodedBytes (take (?k - n) (c # cs)) = ?cost + encodedBytes (take (?k - (n + d)) (drop (d - 1) cs))"
      using encodedBytes_append [OF d(3) [OF refl]] by simp
    then show ?thesis using IH True d(1,2) [OF refl] unfolding k by (cases "n + d < ?k") (auto simp: add.assoc)
  qed
qed simp

lemma shortenReason_length:
  assumes "\<And>m. chars = Some m \<Longrightarrow> 1 \<le> m" "\<And>b. bytes = Some b \<Longrightarrow> 0 \<le> b"
  shows "int (length (shortenReason r chars bytes)) \<le> (case chars of Some m \<Rightarrow> m | None \<Rightarrow> int (length r))"
proof -
  let ?b = "map_option (\<lambda>b. b - encodedBytes [ELLIPSIS]) bytes"
  let ?k = "shorten_end r chars ?b 0 0"
  note k = shorten_end_bounds [of 0 r chars ?b 0, simplified]
  show ?thesis
  proof (cases "within (int (length r)) chars \<and> within (encodedBytes r) bytes")
    case True
    then show ?thesis by (auto simp: shortenReason_def within_def split: option.splits)
  next
    case cut: False
    then have len: "length (shortenReason r chars bytes) = Suc ?k" using k unfolding shortenReason_def if_not_P [OF cut] by simp
    show ?thesis
    proof (cases chars)
      case (Some m)
      then show ?thesis using k assms(1) len by (cases ?k) (auto simp: within_def)
    next
      case None
      then obtain b where b: "bytes = Some b" "b < encodedBytes r" using cut by (auto simp: within_def split: option.splits)
      then have "r \<noteq> []" using assms(2) by fastforce
      moreover have "?k \<noteq> length r" if "0 < ?k" using k that b encodedBytes_nonneg [of "[ELLIPSIS]"] by (auto simp: within_def simp del: encodedBytes_nonneg)
      ultimately have "?k < length r" using k by (cases "?k = 0") auto
      then show ?thesis using None len by simp
    qed
  qed
qed

lemma shortenReason_bytes:
  assumes "3 \<le> b"
  shows "encodedBytes (shortenReason r chars (Some b)) \<le> b"
proof -
  let ?b = "b - encodedBytes [ELLIPSIS]"
  let ?k = "shorten_end r chars (Some ?b) 0 0"
  note k = shorten_end_bounds [of 0 r chars "Some ?b" 0, simplified]
  have e: "encodedBytes [ELLIPSIS] = 3" by code_simp
  have "encodedBytes (take ?k r @ [ELLIPSIS]) = encodedBytes (take ?k r) + 3"
    using encodedBytes_append [of "take ?k r" "[ELLIPSIS]"] e by (simp add: ELLIPSIS_def is_low_def)
  then show ?thesis using k assms e by (cases ?k) (auto simp: shortenReason_def within_def)
qed

section \<open>The message\<close>

lemma show_nat_small: "n < 1000 \<Longrightarrow> length (show_nat n) \<le> 3"
proof -
  have one: "length (show_nat k) = 1" if "k < 10" for k using that by (subst show_nat.simps) simp
  have two: "length (show_nat k) \<le> 2" if "k < 100" for k using that one [of "k div 10"] by (subst show_nat.simps) (simp add: div_less_iff_less_mult)
  show "n < 1000 \<Longrightarrow> ?thesis" using two [of "n div 10"] by (subst show_nat.simps) (simp add: div_less_iff_less_mult)
qed

lemma show_nat_plain: "list_all plain (show_nat n)"
proof (induction n rule: show_nat.induct)
  case (1 n)
  have d: "plain (48 + k)" if "k < 10" for k using that by (simp add: plain_def)
  show ?case using 1 d [of n] d [of "n mod 10"] by (subst show_nat.simps) simp
qed

lemma header_bounds:
  assumes "a \<le> 100" "b \<le> 100"
  shows "length (batch_header a b) \<le> 100" "list_all plain (batch_header a b)"
proof -
  have t: "list_all plain (js '' of '')" "list_all plain (js '' workspace edits did not apply, so nothing was written. Every other edit matched.'')"
    "length (js '' of '') = 4" "length (js '' workspace edits did not apply, so nothing was written. Every other edit matched.'') = 81" by code_simp+
  show "length (batch_header a b) \<le> 100" "list_all plain (batch_header a b)"
    using show_nat_small [of a] show_nat_small [of b] assms t by (simp_all add: batch_header_def show_nat_plain)
qed

lemma footer_bounds: "length (batch_footer fs) \<le> 60" "list_all plain (batch_footer fs)"
proof -
  have t: "list_all plain ([10] @ js ''Line numbers account for the earlier edits in this batch.'')"
    "length ([10] @ js ''Line numbers account for the earlier edits in this batch.'') \<le> 60" by code_simp+
  then show "length (batch_footer fs) \<le> 60" "list_all plain (batch_footer fs)" by (auto simp: batch_footer_def)
qed

lemma prefix_bounds:
  assumes "ef_index f < 100"
  shows "length (batch_prefix f) \<le> 11" "list_all plain (batch_prefix f)"
proof -
  have t: "list_all plain (js ''Edit '')" "list_all plain (js '': '')" "length (js ''Edit '') = 5" "length (js '': '') = 2" "plain 10" by code_simp+
  show "length (batch_prefix f) \<le> 11" "list_all plain (batch_prefix f)"
    using show_nat_small [of "ef_index f + 1"] assms t by (simp_all add: batch_prefix_def show_nat_plain)
qed

lemma length_grant [simp]: "length (grant_each fs chars bytes) = length fs"
  by (induction fs arbitrary: chars bytes) (auto simp: Let_def)

lemma length_details:
  "length ps = length rs \<Longrightarrow> int (length (concat (map2 (\<lambda>p r. p @ g r @ js ''.'') ps rs)))
    = sum_list (map (\<lambda>p. int (length p) + 1) ps) + sum_list (map (\<lambda>r. int (length (g r))) rs)"
  by (induction ps rs rule: list_induct2) (simp_all add: js_def)

lemma format_batch_length:
  assumes "fs \<noteq> []" "length fs \<le> 100" "n \<le> 100" "\<forall>f \<in> set fs. ef_index f < 100"
  shows "length (format_batch fs n) \<le> EDIT_DIAGNOSTIC_MAX_CHARS"
proof -
  define header footer ps where "header = batch_header (length fs) n" "footer = batch_footer fs" "ps = map batch_prefix fs"
  define available where "available = int EDIT_DIAGNOSTIC_MAX_CHARS - int (length header) - int (length footer) - sum_list (map (\<lambda>p. int (length p) + 1) ps)"
  define frame where "frame = header @ footer @ concat ps @ replicate (length fs) 46"
  define bytes where "bytes = EDIT_DIAGNOSTIC_MAX_BODY_BYTES - encodedBytes frame"
  define rs where "rs = map2 failureText fs (grantExcerpts fs available bytes)"
  define cl where "cl = (if sum_list (map (\<lambda>r. int (length r)) rs) \<le> available then None else Some (available div int (length fs)))"
  define bl where "bl = (if sum_list (map encodedBytes rs) \<le> bytes then None else Some (bytes div int (length fs)))"
  note hb = header_bounds [OF assms(2,3), folded header_footer_ps_def] and fb = footer_bounds [of fs, folded header_footer_ps_def]
  have pb: "length (batch_prefix f) \<le> 11 \<and> list_all plain (batch_prefix f)" if "f \<in> set fs" for f using that assms(4) prefix_bounds by blast
  have sums: "sum_list (map (\<lambda>p. int (length p) + 1) ps) \<le> 12 * int (length fs)" "length (concat ps) \<le> 11 * length fs" "list_all plain (concat ps)"
    using pb unfolding header_footer_ps_def by (induction fs) fastforce+
  have av: "int (length fs) \<le> available" using hb(1) fb(1) sums(1) assms(2) by (simp add: available_def EDIT_DIAGNOSTIC_MAX_CHARS_def)
  have "list_all plain frame" using hb(2) fb(2) sums(3) by (auto simp: frame_def list_all_iff plain_def)
  then have "encodedBytes frame \<le> 2 * int (length frame)" by (rule encodedBytes_plain)
  moreover have "length frame \<le> 1400" using hb(1) fb(1) sums(2) assms(2) by (simp add: frame_def)
  ultimately have "0 \<le> bytes" by (simp add: bytes_def EDIT_DIAGNOSTIC_MAX_BODY_BYTES_def)
  then have b: "0 \<le> b" if "bl = Some b" for b using that assms(1) by (auto simp: bl_def pos_imp_zdiv_nonneg_iff split: if_splits)
  have n: "0 < int (length fs)" using assms(1) by simp
  have "0 < available div int (length fs)" using av n by (simp only: pos_imp_zdiv_pos_iff)
  then have m: "1 \<le> m" if "cl = Some m" for m using that by (auto simp: cl_def split: if_splits)
  have lr: "length rs = length fs" by (simp add: rs_def grantExcerpts_def)
  have short: "int (length (shortenReason r cl bl)) \<le> (case cl of Some m \<Rightarrow> m | None \<Rightarrow> int (length r))" for r
    using m b by (rule shortenReason_length)
  then have le: "sum_list (map (\<lambda>r. int (length (shortenReason r cl bl))) rs) \<le> sum_list (map (\<lambda>r. case cl of Some m \<Rightarrow> m | None \<Rightarrow> int (length r)) rs)"
    by (intro sum_list_mono)
  have "sum_list (map (\<lambda>r. case cl of Some m \<Rightarrow> m | None \<Rightarrow> int (length r)) rs) \<le> available"
  proof (cases cl)
    case None
    then show ?thesis by (simp add: cl_def split: if_splits)
  next
    case (Some m)
    then have "m = available div int (length fs)" by (simp add: cl_def split: if_splits)
    then have "int (length fs) * m \<le> available" using n by (simp add: minus_mod_eq_mult_div [symmetric])
    then show ?thesis using Some lr by (simp add: sum_list_triv)
  qed
  moreover have "format_batch fs n = header @ concat (map2 (\<lambda>p r. p @ shortenReason r cl bl @ js ''.'') ps rs) @ footer"
    unfolding format_batch_def Let_def bl_def cl_def rs_def bytes_def frame_def available_def header_footer_ps_def by (rule refl)
  then have "int (length (format_batch fs n)) = int (length header) + (sum_list (map (\<lambda>p. int (length p) + 1) ps)
      + sum_list (map (\<lambda>r. int (length (shortenReason r cl bl))) rs)) + int (length footer)"
    using length_details [of ps rs "\<lambda>r. shortenReason r cl bl"] lr by (simp add: header_footer_ps_def(3))
  ultimately show ?thesis using le by (simp add: available_def)
qed

lemma format_single_fits: "fitsDiagnosticBounds (format_single fs)"
proof -
  define r where "r = (case fs of f # _ \<Rightarrow> ef_reason f | [] \<Rightarrow> js ''no match'')"
  let ?c = "int EDIT_DIAGNOSTIC_MAX_CHARS - int (length single_prefix) - 1" and ?b = "EDIT_DIAGNOSTIC_MAX_BODY_BYTES - encodedBytes single_prefix - 1"
  let ?s = "shortenReason r (Some ?c) (Some ?b)"
  have t: "1 \<le> ?c" "3 \<le> ?b" "encodedBytes (js ''.'') = 1" "\<not> is_high (last single_prefix)" "single_prefix \<noteq> []" "\<not> is_low (hd (js ''.''))" "length (js ''.'') = 1" by code_simp+
  have "int (length ?s) \<le> ?c" using shortenReason_length [of "Some ?c" "Some ?b" r] t(1,2) by simp
  moreover have "encodedBytes ?s \<le> ?b" using shortenReason_bytes [OF t(2)] .
  moreover have "encodedBytes (single_prefix @ ?s @ js ''.'') = encodedBytes single_prefix + (encodedBytes ?s + 1)"
    using encodedBytes_append [of single_prefix "?s @ js ''.''"] encodedBytes_append [of ?s "js ''.''"] t by simp
  ultimately have "fitsDiagnosticBounds (single_prefix @ ?s @ js ''.'')" using t(7) by (simp add: fitsDiagnosticBounds_def)
  then show ?thesis by (simp add: format_single_def Let_def r_def)
qed

lemma apply_each_failures:
  assumes "apply_each letter tolerant es (t, ms, fs) = Ok (t', ms', fs')"
  shows "length fs' \<le> length fs + length es \<and> ef_index ` set fs' \<subseteq> ef_index ` set fs \<union> fst ` set es"
  using assms
proof (induction es arbitrary: t ms fs)
  case (Cons ie es)
  have missing: "ef_index f = i" if "describeMissing letter t i old tolerant = Ok f" for t i old f
    using that by (auto simp: describeMissing_def Let_def split: sum.splits)
  have index: "ef_index f = i" if "failing_edit letter t i e tolerant m = Ok f" for t i e m f
    using that by (auto simp: failing_edit_def split: match_outcome.splits dest: missing)
  obtain i e where ie: "ie = (i, e)" by force
  obtain t1 ms1 fs1 where s: "apply_edit letter tolerant (i, e) (t, ms, fs) = Ok (t1, ms1, fs1)" "apply_each letter tolerant es (t1, ms1, fs1) = Ok (t', ms', fs')"
    using Cons.prems ie by (auto split: sum.splits)
  have "fs1 = fs \<or> (\<exists>f. fs1 = fs @ [f] \<and> ef_index f = i)"
    using s(1) index by (auto simp: apply_edit_def split: sum.splits match_outcome.splits option.splits)
  then show ?case
  proof (elim disjE exE conjE)
    fix f assume "fs1 = fs @ [f]" "ef_index f = i"
    then show ?thesis using Cons.IH [OF s(2)] ie by (simp add: subset_iff)
  qed (use Cons.IH [OF s(2)] ie in auto)
qed simp

text \<open>C40. The message of a refused batch fits. Whatever the file and the edits (a request carries at
most \<open>BRIDGE_WORKSPACE_EDIT_MAX_EDITS\<close> of them), what \<open>formatEditFailures\<close> writes for the failures of
\<open>applyTextEdits\<close> has at most \<open>EDIT_DIAGNOSTIC_MAX_CHARS\<close> code units; for a single edit its bytes in a JSON body
are within \<open>EDIT_DIAGNOSTIC_MAX_BODY_BYTES\<close> too.\<close>

theorem edit_diagnostics_bounded:
  assumes "applyTextEdits letter text edits tolerant = Err (WorkspaceEditMatchError fs n)" "length edits \<le> BRIDGE_WORKSPACE_EDIT_MAX_EDITS"
  shows "length (formatEditFailures fs n) \<le> EDIT_DIAGNOSTIC_MAX_CHARS
    \<and> (length edits = 1 \<longrightarrow> encodedBytes (formatEditFailures fs n) \<le> EDIT_DIAGNOSTIC_MAX_BODY_BYTES)"
proof -
  obtain t ms where a: "apply_each letter tolerant (zip [0..<length edits] edits) (text, [], []) = Ok (t, ms, fs)" "fs \<noteq> []" "n = length edits"
    using assms(1) by (auto simp: applyTextEdits_def split: sum.splits if_splits prod.splits)
  have "length fs \<le> length edits" "ef_index ` set fs \<subseteq> {..<length edits}"
    using apply_each_failures [OF a(1)] by (auto simp: set_zip)
  then have "length fs \<le> 100" "n \<le> 100" "\<forall>f \<in> set fs. ef_index f < 100" using assms(2) a(3) by (auto simp: BRIDGE_WORKSPACE_EDIT_MAX_EDITS_def)
  then show ?thesis using format_batch_length [OF a(2)] format_single_fits [of fs] a(3)
    by (simp add: formatEditFailures_def fitsDiagnosticBounds_def)
qed

lemma edit_diagnostics_bounded_witness:
  defines "e \<equiv> \<lparr>oldText = js ''zz'', newText = [], replaceAll = False\<rparr>"
    and "f \<equiv> \<lparr>ef_index = 0, ef_reason = js ''old_text was not found'', ef_excerpt = None\<rparr>"
  shows "applyTextEdits (\<lambda>_. False) (js ''aaa'') [e] False = Err (WorkspaceEditMatchError [f] 1)
    \<and> length (formatEditFailures [f] 1) \<le> EDIT_DIAGNOSTIC_MAX_CHARS \<and> encodedBytes (formatEditFailures [f] 1) \<le> EDIT_DIAGNOSTIC_MAX_BODY_BYTES"
proof -
  have r: "applyTextEdits (\<lambda>_. False) (js ''aaa'') [e] False = Err (WorkspaceEditMatchError [f] 1)"
    unfolding e_def f_def by code_simp
  have "length [e] \<le> BRIDGE_WORKSPACE_EDIT_MAX_EDITS" "length [e] = 1" by (simp_all add: BRIDGE_WORKSPACE_EDIT_MAX_EDITS_def)
  then show ?thesis using edit_diagnostics_bounded [OF r] r by blast
qed

end
